(* ===== verification/Zuul_Prelude.thy ===== *)
theory Zuul_Prelude
  imports
    "HOL-Library.Word"
    "HOL-Library.Finite_Map"
    "HOL-Library.List_Lexorder"
    "HOL-Library.Char_ord"
begin

text \<open>
  Shared vocabulary of the development.

  \<^item> Go's fixed-width integers are words: \<open>u64\<close>, \<open>u32\<close>, and \<open>i64\<close>, which is the same
    64-bit word read with \<^const>\<open>sint\<close> and compared with \<^const>\<open>word_sless\<close> and
    \<^const>\<open>word_sle\<close>.
  \<^item> A Go string is a \<^typ>\<open>string\<close> (a list of bytes); the lexicographic order of
    \<open>HOL-Library.List_Lexorder\<close> over \<open>HOL-Library.Char_ord\<close> is Go's byte-wise string order, so
    \<^const>\<open>sorted_list_of_fset\<close> is \<open>slices.Sort\<close> on the keys of a map.
  \<^item> A \<open>[]byte\<close> is a byte list under an \<^typ>\<open>'a option\<close>, \<^const>\<open>None\<close> being \<open>nil\<close>.
  \<^item> A Go map is an \<^typ>\<open>('k, 'v) fmap\<close>, a \<open>map[string]struct{}\<close> is a \<^typ>\<open>string fset\<close>.

  The rest is lemmas about finite maps, finite sets, lists and words that more than one component
  uses.
\<close>

type_synonym u64 = "64 word"
type_synonym u32 = "32 word"
type_synonym i64 = "64 word"
type_synonym bytes = "8 word list option"

named_theorems zuul_defs \<open>unfolding of the operations of a component\<close>
named_theorems zuul_frame \<open>fields an operation does not touch\<close>

subsection \<open>Finite maps\<close>

lemma fmdom_lookup_Some [simp]: "fmlookup m k = Some v \<Longrightarrow> k |\<in>| fmdom m"
  by (rule fmdomI)

lemma fmlookup_Some_the: "k |\<in>| fmdom m \<Longrightarrow> \<exists>v. fmlookup m k = Some v"
  by (auto simp: fmlookup_dom_iff)

lemma fmupd_same: "fmlookup m k = Some v \<Longrightarrow> fmupd k v m = m"
  by (rule fmap_ext) auto

lemma fmap_eqI: "(\<And>k. fmlookup m k = fmlookup n k) \<Longrightarrow> m = n"
  by (rule fmap_ext)

text \<open>Reading a map back from the sorted list of its bindings.\<close>

definition sorted_bindings :: "('k::linorder, 'v) fmap \<Rightarrow> ('k \<times> 'v) list" where
  "sorted_bindings m =
     List.map_filter (\<lambda>k. map_option (Pair k) (fmlookup m k)) (sorted_list_of_fset (fmdom m))"

lemma map_filter_all_Some:
  "(\<And>x. x \<in> set xs \<Longrightarrow> f x = Some (g x)) \<Longrightarrow> List.map_filter f xs = map g xs"
  by (induction xs) (auto simp: List.map_filter_simps)

lemma sorted_bindings_eq:
  "sorted_bindings m = map (\<lambda>k. (k, the (fmlookup m k))) (sorted_list_of_fset (fmdom m))"
  unfolding sorted_bindings_def by (rule map_filter_all_Some) (auto simp: fmlookup_dom_iff)

lemma fst_sorted_bindings [simp]: "map fst (sorted_bindings m) = sorted_list_of_fset (fmdom m)"
  by (simp add: sorted_bindings_eq comp_def)

lemma sorted_bindings_fmempty [simp]: "sorted_bindings fmempty = []"
  by (simp add: sorted_bindings_eq sorted_list_of_fset.rep_eq)

lemma distinct_sorted_list_of_fset [simp]: "distinct (sorted_list_of_fset A)"
  by (simp add: sorted_list_of_fset.rep_eq)

lemma sorted_sorted_list_of_fset [simp]: "sorted (sorted_list_of_fset A)"
  by (simp add: sorted_list_of_fset.rep_eq)

lemma set_sorted_bindings: "(k, v) \<in> set (sorted_bindings m) \<longleftrightarrow> fmlookup m k = Some v"
  by (auto simp: sorted_bindings_eq fmlookup_dom_iff)

lemma map_of_sorted_bindings [simp]: "map_of (sorted_bindings m) = fmlookup m"
proof
  fix k
  have d: "distinct (map fst (sorted_bindings m))" by simp
  show "map_of (sorted_bindings m) k = fmlookup m k"
  proof (cases "fmlookup m k")
    case None
    then have "k \<notin> fst ` set (sorted_bindings m)"
      using set_sorted_bindings [of k _ m] by force
    with None show ?thesis by (simp add: map_of_eq_None_iff)
  next
    case (Some v)
    with d show ?thesis
      by (simp add: map_of_eq_Some_iff set_sorted_bindings)
  qed
qed

text \<open>Inserting a list of bindings one by one, as a Go loop over a slice does.\<close>

lemma fold_fmupd_lookup:
  "distinct (map key xs) \<Longrightarrow>
   fmlookup (fold (\<lambda>x. fmupd (key x) (val x)) xs m) k =
     (case map_of (map (\<lambda>x. (key x, val x)) xs) k of None \<Rightarrow> fmlookup m k | Some v \<Rightarrow> Some v)"
proof (induction xs arbitrary: m)
  case Nil
  then show ?case by simp
next
  case (Cons x xs)
  have "map_of (map (\<lambda>x. (key x, val x)) xs) (key x) = None"
    using Cons.prems by (auto simp: map_of_eq_None_iff image_image)
  with Cons show ?case by (auto split: option.splits)
qed

subsection \<open>Sums over the values of a finite map\<close>

definition fmsum :: "('v \<Rightarrow> nat) \<Rightarrow> ('k, 'v) fmap \<Rightarrow> nat" where
  "fmsum g m = (\<Sum>k\<in>fset (fmdom m). case fmlookup m k of None \<Rightarrow> 0 | Some v \<Rightarrow> g v)"

lemma fmsum_empty [simp]: "fmsum g fmempty = 0"
  by (simp add: fmsum_def)

lemma fmsum_drop:
  assumes "fmlookup m k = Some v"
  shows "fmsum g m = g v + fmsum g (fmdrop k m)"
proof -
  let ?h = "\<lambda>m k. case fmlookup m k of None \<Rightarrow> 0 | Some v \<Rightarrow> g v"
  have "k \<in> fset (fmdom m)" using assms by simp
  then have "fmsum g m = ?h m k + (\<Sum>x\<in>fset (fmdom m) - {k}. ?h m x)"
    by (simp add: fmsum_def sum.remove)
  also have "(\<Sum>x\<in>fset (fmdom m) - {k}. ?h m x) = fmsum g (fmdrop k m)"
    unfolding fmsum_def by (rule sum.cong) auto
  finally show ?thesis using assms by simp
qed

lemma fmsum_upd: "fmsum g (fmupd k v m) = g v + fmsum g (fmdrop k m)"
  using fmsum_drop [of "fmupd k v m" k v g] by (simp add: fmdrop_fmupd_same)

lemma fmsum_drop_absent: "fmlookup m k = None \<Longrightarrow> fmdrop k m = m"
  by (rule fmap_eqI) auto

subsection \<open>Lists\<close>

text \<open>Removing the first element that satisfies a test, as \<open>append(q[:i], q[i+1:]...)\<close> does.\<close>

fun remove_first :: "('a \<Rightarrow> bool) \<Rightarrow> 'a list \<Rightarrow> 'a list" where
  "remove_first P [] = []"
| "remove_first P (x # xs) = (if P x then xs else x # remove_first P xs)"

lemma map_idI_map: "(\<And>x. x \<in> set xs \<Longrightarrow> h (g x) = x) \<Longrightarrow> map h (map g xs) = xs"
  by (simp add: map_idI)

lemma remove_first_none: "\<forall>x\<in>set xs. \<not> P x \<Longrightarrow> remove_first P xs = xs"
  by (induction xs) auto

lemma set_remove_first_subset: "set (remove_first P xs) \<subseteq> set xs"
  by (induction xs) auto

lemma map_remove_first:
  "map g (remove_first (\<lambda>x. g x = c) xs) = remove1 c (map g xs)"
  by (induction xs) auto

lemma length_remove_first:
  "length (remove_first P xs) = (if \<exists>x\<in>set xs. P x then length xs - 1 else length xs)"
proof (induction xs)
  case Nil
  then show ?case by simp
next
  case (Cons x xs)
  then show ?case by (cases xs) auto
qed

lemma distinct_remove_first: "distinct (map g xs) \<Longrightarrow> distinct (map g (remove_first P xs))"
proof (induction xs)
  case Nil
  then show ?case by simp
next
  case (Cons x xs)
  then show ?case using set_remove_first_subset [of P xs] by auto
qed

lemma sorted_wrt_remove_first: "sorted_wrt R xs \<Longrightarrow> sorted_wrt R (remove_first P xs)"
proof (induction xs)
  case Nil
  then show ?case by simp
next
  case (Cons x xs)
  then show ?case using set_remove_first_subset [of P xs] by auto
qed

subsection \<open>Words\<close>

lemma unat_plus_one_u64: "unat (w :: u64) + 1 < 2 ^ 64 \<Longrightarrow> unat (w + 1) = unat w + 1"
  by (simp add: unat_word_ariths)

lemma unat_lt_u64 [simp]: "unat (w :: u64) < 2 ^ 64"
  using unsigned_less [of w] by simp

lemma of_nat_u32_inj:
  assumes "n < 2 ^ 32" and "m < 2 ^ 32"
  shows "(of_nat n :: u32) = of_nat m \<longleftrightarrow> n = m"
  using assms by (simp add: word_of_nat_eq_iff take_bit_nat_eq_self)

end
