(* ===== verification/Keypath.thy ===== *)
theory Keypath
  imports Zuul_Prelude
begin

text \<open>
  Resource paths, \<^verbatim>\<open>internal/auth/keypath\<close>. A key is \<open>/<user>/<dir.../><name>\<close>. Strings are byte
  lists, so the length bounds count bytes as Go's \<^verbatim>\<open>len\<close> does. \<^verbatim>\<open>validateSegment\<close> ranges over runes;
  every byte of a multi-byte or malformed rune is at least 128, none of which is allowed, so testing
  each byte accepts the same segments.
\<close>

datatype path_error =
    EmptyKey | KeyTooLong | NoLeadingSlash | TrailingSlash | TooFewSegments
  | EmptySegment | DotSegment | SegmentTooLong | InvalidCharacter

definition maxSegmentLen :: nat where "maxSegmentLen = 255"
definition maxPathLen :: nat where "maxPathLen = 1024"

definition slash :: char where "slash = CHR ''/''"

subsection \<open>The string functions of the standard library the package uses\<close>

fun strings_Split :: "string \<Rightarrow> string list" where
  "strings_Split [] = [[]]"
| "strings_Split (c # cs) =
     (if c = slash then [] # strings_Split cs
      else (case strings_Split cs of [] \<Rightarrow> [[c]] | s # ss \<Rightarrow> (c # s) # ss))"

definition strings_HasPrefix :: "string \<Rightarrow> string \<Rightarrow> bool" where
  "strings_HasPrefix s p \<longleftrightarrow> length p \<le> length s \<and> take (length p) s = p"

definition strings_TrimSuffix_slash :: "string \<Rightarrow> string" where
  "strings_TrimSuffix_slash s = (if s \<noteq> [] \<and> last s = slash then butlast s else s)"

subsection \<open>The package\<close>

definition isSegmentRune :: "char \<Rightarrow> bool" where
  "isSegmentRune r \<longleftrightarrow>
     (CHR ''a'' \<le> r \<and> r \<le> CHR ''z'') \<or> (CHR ''A'' \<le> r \<and> r \<le> CHR ''Z'')
   \<or> (CHR ''0'' \<le> r \<and> r \<le> CHR ''9'')
   \<or> r = CHR ''.'' \<or> r = CHR ''_'' \<or> r = CHR ''@'' \<or> r = CHR ''-''"

definition validateSegment :: "string \<Rightarrow> path_error option" where
  "validateSegment s =
     (if s = [] then Some EmptySegment
      else if s = ''.'' \<or> s = ''..'' then Some DotSegment
      else if maxSegmentLen < length s then Some SegmentTooLong
      else if list_all isSegmentRune s then None
      else Some InvalidCharacter)"

text \<open>The loop over the segments returns the first error.\<close>

fun validateSegments :: "string list \<Rightarrow> path_error option" where
  "validateSegments [] = None"
| "validateSegments (s # ss) =
     (case validateSegment s of Some e \<Rightarrow> Some e | None \<Rightarrow> validateSegments ss)"

definition Validate :: "string \<Rightarrow> path_error option" where
  "Validate key =
     (if key = [] then Some EmptyKey
      else if maxPathLen < length key then Some KeyTooLong
      else if hd key \<noteq> slash then Some NoLeadingSlash
      else if last key = slash then Some TrailingSlash
      else let segs = strings_Split (tl key) in
        if length segs < 2 then Some TooFewSegments else validateSegments segs)"

definition HasPrefix :: "string \<Rightarrow> string \<Rightarrow> bool" where
  "HasPrefix prefix key \<longleftrightarrow>
     (if prefix = [] then True
      else let p = strings_TrimSuffix_slash prefix in
        key = p \<or> strings_HasPrefix key (p @ [slash]))"

text \<open>
  \<^verbatim>\<open>Owner\<close> takes the bytes of \<^verbatim>\<open>key[1:]\<close> before the first \<open>/\<close>, and all of them when there is none.
\<close>

definition Owner :: "string \<Rightarrow> path_error + string" where
  "Owner key =
     (case Validate key of
        Some e \<Rightarrow> Inl e
      | None \<Rightarrow> Inr (takeWhile (\<lambda>c. c \<noteq> slash) (tl key)))"

subsection \<open>Splitting and joining\<close>

text \<open>The path with the given segments.\<close>

definition join_path :: "string list \<Rightarrow> string" where
  "join_path segs = concat (map (\<lambda>s. slash # s) segs)"

lemma strings_Split_nonempty [simp]: "strings_Split s \<noteq> []"
  by (induction s) (auto split: list.splits)

lemma join_path_Split: "join_path (strings_Split s) = slash # s"
proof (induction s)
  case Nil
  then show ?case by (simp add: join_path_def)
next
  case (Cons c cs)
  then show ?case
    by (cases "strings_Split cs") (auto simp: join_path_def slash_def)
qed

lemma Split_no_slash: "s \<in> set (strings_Split t) \<Longrightarrow> slash \<notin> set s"
proof (induction t arbitrary: s)
  case Nil
  then show ?case by simp
next
  case (Cons c cs)
  obtain a b where ab: "strings_Split cs = a # b"
    using strings_Split_nonempty by (cases "strings_Split cs") auto
  with Cons.IH have "slash \<notin> set a" and "\<forall>s\<in>set b. slash \<notin> set s" by auto
  with Cons.prems ab show ?case by (auto split: if_splits)
qed

lemma Split_slash_append:
  "slash \<notin> set s \<Longrightarrow> strings_Split (s @ slash # t) = s # strings_Split t"
  by (induction s) auto

lemma Split_slash_free: "slash \<notin> set s \<Longrightarrow> strings_Split s = [s]"
  by (induction s) auto

lemma Split_join_path:
  "segs \<noteq> [] \<Longrightarrow> \<forall>s\<in>set segs. slash \<notin> set s \<Longrightarrow> strings_Split (tl (join_path segs)) = segs"
proof (induction segs)
  case Nil
  then show ?case by simp
next
  case (Cons a segs)
  show ?case
  proof (cases segs)
    case Nil
    with Cons.prems show ?thesis by (simp add: join_path_def Split_slash_free)
  next
    case (Cons b rest)
    with Cons.IH Cons.prems have "strings_Split (tl (join_path segs)) = segs" by auto
    moreover have "tl (join_path (a # segs)) = a @ slash # tl (join_path segs)"
      using Cons by (simp add: join_path_def)
    ultimately show ?thesis using Cons.prems by (simp add: Split_slash_append)
  qed
qed

lemma takeWhile_hd_Split: "takeWhile (\<lambda>c. c \<noteq> slash) s = hd (strings_Split s)"
proof (induction s)
  case Nil
  then show ?case by simp
next
  case (Cons c cs)
  then show ?case by (cases "strings_Split cs") auto
qed

subsection \<open>Canonical paths\<close>

lemma slash_not_segment_rune [simp]: "\<not> isSegmentRune slash"
  by code_simp

lemma validateSegment_None:
  "validateSegment s = None \<longleftrightarrow>
     s \<noteq> [] \<and> s \<noteq> ''.'' \<and> s \<noteq> ''..'' \<and> length s \<le> 255 \<and> list_all isSegmentRune s"
  by (simp add: validateSegment_def maxSegmentLen_def)

lemma validateSegments_None:
  "validateSegments segs = None \<longleftrightarrow> (\<forall>s\<in>set segs. validateSegment s = None)"
  by (induction segs) (auto split: option.splits)

lemma validSegment_no_slash: "validateSegment s = None \<Longrightarrow> slash \<notin> set s"
  using slash_not_segment_rune by (auto simp: validateSegment_None list_all_iff)

lemma Validate_None_split:
  assumes "Validate key = None"
  obtains segs where "key = join_path segs" and "segs = strings_Split (tl key)"
    and "2 \<le> length segs" and "\<forall>s\<in>set segs. validateSegment s = None" and "length key \<le> 1024"
proof -
  have k: "key \<noteq> []" "hd key = slash" "length key \<le> 1024"
    and s: "\<not> length (strings_Split (tl key)) < 2" "validateSegments (strings_Split (tl key)) = None"
    using assms by (auto simp: Validate_def maxPathLen_def Let_def split: if_splits)
  have "join_path (strings_Split (tl key)) = key"
    using k by (cases key) (auto simp: join_path_Split)
  with k s show ?thesis
    by (intro that [of "strings_Split (tl key)"]) (auto simp: validateSegments_None)
qed

lemma last_join_path:
  "segs \<noteq> [] \<Longrightarrow> last segs \<noteq> [] \<Longrightarrow> last (join_path segs) = last (last segs)"
proof (induction segs)
  case Nil
  then show ?case by simp
next
  case (Cons a segs)
  show ?case
  proof (cases segs)
    case Nil
    with Cons.prems show ?thesis by (simp add: join_path_def)
  next
    case (Cons b rest)
    then have "join_path segs \<noteq> []" by (simp add: join_path_def)
    moreover have "join_path (a # segs) = (slash # a) @ join_path segs" by (simp add: join_path_def)
    ultimately show ?thesis using Cons.IH Cons.prems Cons by (simp del: append_Cons)
  qed
qed


lemma Validate_join_path:
  assumes "2 \<le> length segs" and v: "\<forall>s\<in>set segs. validateSegment s = None"
    and "length (join_path segs) \<le> 1024"
  shows "Validate (join_path segs) = None"
proof -
  have ne: "segs \<noteq> []" using assms(1) by auto
  then have l: "last segs \<in> set segs" by simp
  with v have "validateSegment (last segs) = None" by blast
  then have "last segs \<noteq> []" and ns: "slash \<notin> set (last segs)"
    by (simp_all add: validSegment_no_slash) (simp add: validateSegment_None)
  then have "last (last segs) \<noteq> slash" using last_in_set by metis
  then have "last (join_path segs) \<noteq> slash"
    using last_join_path [OF ne \<open>last segs \<noteq> []\<close>] by simp
  moreover have "strings_Split (tl (join_path segs)) = segs"
    using ne v by (auto intro: Split_join_path dest: validSegment_no_slash)
  moreover have "join_path segs \<noteq> []" "hd (join_path segs) = slash"
    using ne by (cases segs; simp add: join_path_def)+
  ultimately show ?thesis
    using assms by (simp add: Validate_def maxPathLen_def validateSegments_None)
qed

text \<open>C17. Validation decides exactly the documented grammar: a key passes iff it is the path of at least
  two segments, each non-empty, at most 255 bytes long, neither "." nor "..", over the allowed
  characters, with at most 1024 bytes in all.
\<close>
theorem Validate_iff_canonical:
  "Validate key = None \<longleftrightarrow>
     (\<exists>segs. key = join_path segs \<and> 2 \<le> length segs \<and> length key \<le> 1024 \<and>
        list_all (\<lambda>s. s \<noteq> [] \<and> s \<noteq> ''.'' \<and> s \<noteq> ''..'' \<and> length s \<le> 255 \<and>
          list_all isSegmentRune s) segs)"
proof
  assume "Validate key = None"
  then obtain segs where "key = join_path segs" "2 \<le> length segs"
    "\<forall>s\<in>set segs. validateSegment s = None" "length key \<le> 1024"
    by (rule Validate_None_split)
  then show "\<exists>segs. key = join_path segs \<and> 2 \<le> length segs \<and> length key \<le> 1024 \<and>
        list_all (\<lambda>s. s \<noteq> [] \<and> s \<noteq> ''.'' \<and> s \<noteq> ''..'' \<and> length s \<le> 255 \<and>
          list_all isSegmentRune s) segs"
    by (intro exI [of _ segs]) (simp add: list_all_iff [of _ segs] validateSegment_None)
next
  assume "\<exists>segs. key = join_path segs \<and> 2 \<le> length segs \<and> length key \<le> 1024 \<and>
        list_all (\<lambda>s. s \<noteq> [] \<and> s \<noteq> ''.'' \<and> s \<noteq> ''..'' \<and> length s \<le> 255 \<and>
          list_all isSegmentRune s) segs"
  then obtain segs where k: "key = join_path segs" "2 \<le> length segs" "length key \<le> 1024"
    and "\<forall>s\<in>set segs. s \<noteq> [] \<and> s \<noteq> ''.'' \<and> s \<noteq> ''..'' \<and> length s \<le> 255 \<and> list_all isSegmentRune s"
    by (auto simp only: list_all_iff [of _ "_ :: string list"])
  then have "\<forall>s\<in>set segs. validateSegment s = None" by (simp only: validateSegment_None simp_thms)
  with k show "Validate key = None" by (simp only: Validate_join_path)
qed

lemma Owner_Inr:
  "Owner key = Inr u \<longleftrightarrow> Validate key = None \<and> u = hd (strings_Split (tl key))"
  by (auto simp: Owner_def takeWhile_hd_Split split: option.splits)

lemma Owner_join_path:
  assumes "Validate (join_path (u # segs)) = None" and "\<forall>s\<in>set (u # segs). slash \<notin> set s"
  shows "Owner (join_path (u # segs)) = Inr u"
  using assms by (simp add: Owner_Inr Split_join_path)

subsection \<open>Prefix matching on path boundaries\<close>

lemma Split_join_path_append:
  "segs \<noteq> [] \<Longrightarrow> \<forall>s\<in>set segs. slash \<notin> set s \<Longrightarrow>
   strings_Split (tl (join_path segs @ slash # t)) = segs @ strings_Split t"
proof (induction segs)
  case Nil
  then show ?case by simp
next
  case (Cons a segs)
  show ?case
  proof (cases segs)
    case Nil
    with Cons.prems show ?thesis by (simp add: join_path_def Split_slash_append)
  next
    case (Cons b rest)
    with Cons.IH Cons.prems have "strings_Split (tl (join_path segs @ slash # t)) = segs @ strings_Split t"
      by auto
    moreover have "tl (join_path (a # segs) @ slash # t) = a @ slash # tl (join_path segs @ slash # t)"
      using Cons by (simp add: join_path_def)
    ultimately show ?thesis using Cons.prems by (simp add: Split_slash_append)
  qed
qed

lemma join_path_append: "join_path (xs @ ys) = join_path xs @ join_path ys"
  by (simp add: join_path_def)

lemma strings_HasPrefix_iff: "strings_HasPrefix s p \<longleftrightarrow> (\<exists>t. s = p @ t)"
proof
  assume "strings_HasPrefix s p"
  then have "s = p @ drop (length p) s"
    unfolding strings_HasPrefix_def by (metis append_take_drop_id)
  then show "\<exists>t. s = p @ t" ..
qed (auto simp: strings_HasPrefix_def)

lemma join_path_inj:
  assumes "xs \<noteq> []" "ys \<noteq> []" "\<forall>s\<in>set xs. slash \<notin> set s" "\<forall>s\<in>set ys. slash \<notin> set s"
  shows "join_path xs = join_path ys \<longleftrightarrow> xs = ys"
proof
  assume "join_path xs = join_path ys"
  then have "strings_Split (tl (join_path xs)) = strings_Split (tl (join_path ys))" by (rule arg_cong)
  then show "xs = ys" unfolding Split_join_path [OF assms(1,3)] Split_join_path [OF assms(2,4)] .
qed (rule arg_cong)

lemma join_path_extends:
  assumes "ps \<noteq> []" "ks \<noteq> []" "\<forall>s\<in>set ps. slash \<notin> set s" "\<forall>s\<in>set ks. slash \<notin> set s"
  shows "(\<exists>t. join_path ks = join_path ps @ slash # t) \<longleftrightarrow> (\<exists>rest. rest \<noteq> [] \<and> ks = ps @ rest)"
proof
  assume "\<exists>t. join_path ks = join_path ps @ slash # t"
  then obtain t where t: "join_path ks = join_path ps @ slash # t" by blast
  have "ks = ps @ strings_Split t"
    using Split_join_path [OF assms(2,4)] Split_join_path_append [OF assms(1,3), of t] t by simp
  then show "\<exists>rest. rest \<noteq> [] \<and> ks = ps @ rest" by (intro exI [of _ "strings_Split t"]) simp
next
  assume "\<exists>rest. rest \<noteq> [] \<and> ks = ps @ rest"
  then obtain rest where "rest \<noteq> []" "ks = ps @ rest" by blast
  then obtain r rs where "ks = ps @ r # rs" by (cases rest) auto
  then show "\<exists>t. join_path ks = join_path ps @ slash # t"
    by (intro exI [of _ "r @ join_path rs"]) (simp add: join_path_append join_path_def)
qed

lemma HasPrefix_no_trailing:
  "p \<noteq> [] \<Longrightarrow> last p \<noteq> slash \<Longrightarrow> HasPrefix p key \<longleftrightarrow> key = p \<or> (\<exists>t. key = p @ slash # t)"
  by (auto simp: HasPrefix_def strings_TrimSuffix_slash_def strings_HasPrefix_iff)

lemma HasPrefix_trailing_slash: "p \<noteq> [] \<Longrightarrow> last p \<noteq> slash \<Longrightarrow> HasPrefix (p @ [slash]) key = HasPrefix p key"
  by (simp add: HasPrefix_def strings_TrimSuffix_slash_def)

text \<open>C18. Prefix matching is on path boundaries: a rule for the path of the segments \<open>ps\<close>, with or without
  a trailing slash, covers the path of the segments \<open>ks\<close> iff \<open>ps\<close> is an initial sublist of \<open>ks\<close>; so a
  prefix never covers a sibling whose name merely extends its last segment.
\<close>
theorem HasPrefix_path_boundary:
  assumes "ps \<noteq> []" "last ps \<noteq> []" "ks \<noteq> []"
    and ps: "\<forall>s\<in>set ps. slash \<notin> set s" and ks: "\<forall>s\<in>set ks. slash \<notin> set s"
  shows "(HasPrefix (join_path ps) (join_path ks) \<longleftrightarrow> take (length ps) ks = ps) \<and>
    (HasPrefix (join_path ps @ [slash]) (join_path ks) \<longleftrightarrow> take (length ps) ks = ps)"
proof -
  have ne: "join_path ps \<noteq> []" using assms(1) by (cases ps) (auto simp: join_path_def)
  have nl: "last (join_path ps) \<noteq> slash"
    using last_join_path [OF assms(1,2)] ps last_in_set [OF assms(1)] last_in_set [OF assms(2)] by auto
  have "HasPrefix (join_path ps) (join_path ks) \<longleftrightarrow> ks = ps \<or> (\<exists>rest. rest \<noteq> [] \<and> ks = ps @ rest)"
    using HasPrefix_no_trailing [OF ne nl] join_path_inj [OF assms(3,1) ks ps]
      join_path_extends [OF assms(1,3) ps ks] by simp
  also have "\<dots> \<longleftrightarrow> take (length ps) ks = ps"
  proof
    assume "take (length ps) ks = ps"
    then have "ks = ps @ drop (length ps) ks" by (metis append_take_drop_id)
    then obtain rest where "ks = ps @ rest" ..
    then show "ks = ps \<or> (\<exists>rest. rest \<noteq> [] \<and> ks = ps @ rest)" by (cases "rest = []") auto
  qed auto
  finally have *: "HasPrefix (join_path ps) (join_path ks) \<longleftrightarrow> take (length ps) ks = ps" .
  then show ?thesis
    using HasPrefix_trailing_slash [OF ne nl] by simp
qed

theorem HasPrefix_path_boundary_witness:
  "HasPrefix ''/a/b/'' ''/a/b/x'' \<and> \<not> HasPrefix ''/a/b'' ''/a/b-x''"
proof -
  have j: "join_path [''a'', ''b''] = ''/a/b''" "join_path [''a'', ''b'', ''x''] = ''/a/b/x''"
    "join_path [''a'', ''b-x''] = ''/a/b-x''" "''/a/b'' @ [slash] = ''/a/b/''"
    by (simp_all add: join_path_def slash_def)
  have s: "\<forall>s\<in>set [''a'', ''b'']. slash \<notin> set s" "\<forall>s\<in>set [''a'', ''b'', ''x'']. slash \<notin> set s"
    "\<forall>s\<in>set [''a'', ''b-x'']. slash \<notin> set s"
    by (simp_all add: slash_def)
  have "HasPrefix ''/a/b/'' ''/a/b/x''"
    using HasPrefix_path_boundary [of "[''a'', ''b'']" "[''a'', ''b'', ''x'']", OF _ _ _ s(1,2), unfolded j]
    by simp
  moreover have "\<not> HasPrefix ''/a/b'' ''/a/b-x''"
    using HasPrefix_path_boundary [of "[''a'', ''b'']" "[''a'', ''b-x'']", OF _ _ _ s(1,3), unfolded j]
    by simp
  ultimately show ?thesis ..
qed

end
