(* ===== verification/Fsm.thy ===== *)
theory Fsm
  imports Keypath
begin

text \<open>
  The per-shard replicated state machine of \<^verbatim>\<open>internal/raft/fsm\<close>: locks, leases, FIFO wait
  queues and fencing tokens. This theory is the model; the invariant, the fencing argument, the
  snapshot round trip and the abstract specification are in the theories that import it.

  Pointers. \<^verbatim>\<open>FSM.locks\<close> and \<^verbatim>\<open>FSM.leases\<close> hold pointers, and \<^verbatim>\<open>promote\<close>, \<^verbatim>\<open>grant\<close> and
  \<^verbatim>\<open>dropLease\<close> write through a \<^verbatim>\<open>*lock\<close> or \<^verbatim>\<open>*lease\<close> they were handed. Each such object is
  reachable from exactly one map entry, the one under its own \<^verbatim>\<open>name\<close> or \<^verbatim>\<open>clientID\<close>, so a write
  through the pointer is an update of that entry.

  The notifier. \<open>notifier\<close> is \<^const>\<open>None\<close> for a nil \<^verbatim>\<open>Notifier\<close>; otherwise it holds the events
  passed to \<^verbatim>\<open>Notify\<close> so far, oldest first.
\<close>

subsection \<open>Data\<close>

record event =
  ev_Key :: string
  ev_Holder :: string
  ev_Token :: u64
  ev_Value :: bytes
  ev_Revision :: u64

record waiter =
  w_clientID :: string
  w_seq :: u64
  w_value :: bytes

record lock =
  lk_name :: string
  lk_holder :: string
  lk_token :: u64
  lk_value :: bytes
  lk_queue :: "waiter list"

record lease =
  ls_clientID :: string
  ls_ttlMS :: i64
  ls_expireAt :: i64
  ls_held :: "string fset"
  ls_waiting :: "string fset"

record fsm =
  locks :: "(string, lock) fmap"
  leases :: "(string, lease) fmap"
  seq :: u64
  revision :: u64
  notifier :: "event list option"

definition New :: "event list option \<Rightarrow> fsm" where
  "New n = \<lparr>locks = fmempty, leases = fmempty, seq = 0, revision = 0, notifier = n\<rparr>"

datatype outcome =
    OUTCOME_UNKNOWN | OUTCOME_GRANTED | OUTCOME_QUEUED | OUTCOME_NOT_ACQUIRED
  | OUTCOME_RELEASED | OUTCOME_NOT_HOLDER | OUTCOME_STALE_TOKEN | OUTCOME_NO_LEASE
  | OUTCOME_LEASE_GRANTED | OUTCOME_LEASE_RENEWED | OUTCOME_LEASE_REVOKED
  | OUTCOME_LEASE_EXPIRED | OUTCOME_VALUE_UPDATED | OUTCOME_NOT_FOUND | OUTCOME_NOOP

text \<open>The \<^verbatim>\<open>oneof\<close> of \<^verbatim>\<open>fsmpb.Command\<close>; \<open>Cmd_Unset\<close> is a command whose \<^verbatim>\<open>oneof\<close> is not set.\<close>

datatype command =
    AcquireLock string string bool
  | ReleaseLock string string u64
  | CancelWait string string
  | LeaseGrant string i64 i64
  | LeaseKeepAlive string i64
  | LeaseRevoke string
  | LeaseExpire string i64
  | Campaign string string bytes
  | Proclaim string string u64 bytes
  | Resign string string u64
  | Cmd_Unset

record command_result =
  res_Outcome :: outcome
  res_Revision :: u64
  res_FencingToken :: u64
  res_LockKey :: string
  res_QueuePosition :: u32
  res_CurrentHolder :: string
  res_LeaseDeadlineUnixNano :: i64
  res_Value :: bytes

datatype apply_error = NilCommand | UnknownCommandType

subsection \<open>Results and events\<close>

definition result :: "fsm \<Rightarrow> outcome \<Rightarrow> command_result" where
  "result f oc = \<lparr>res_Outcome = oc, res_Revision = revision f, res_FencingToken = 0,
     res_LockKey = [], res_QueuePosition = 0, res_CurrentHolder = [],
     res_LeaseDeadlineUnixNano = 0, res_Value = None\<rparr>"

definition resultKey :: "fsm \<Rightarrow> outcome \<Rightarrow> string \<Rightarrow> command_result" where
  "resultKey f oc key = (result f oc)\<lparr>res_LockKey := key\<rparr>"

definition emit :: "fsm \<Rightarrow> string \<Rightarrow> string \<Rightarrow> u64 \<Rightarrow> bytes \<Rightarrow> fsm" where
  "emit f key holder token value =
     (case notifier f of
        None \<Rightarrow> f
      | Some es \<Rightarrow> f\<lparr>notifier := Some (es @ [\<lparr>ev_Key = key, ev_Holder = holder,
          ev_Token = token, ev_Value = value, ev_Revision = revision f\<rparr>])\<rparr>)"

definition leaseDeadline :: "i64 \<Rightarrow> i64 \<Rightarrow> i64" where
  "leaseDeadline now ttlMS = now + ttlMS * 1000000"

subsection \<open>Locks and elections\<close>

text \<open>\<^verbatim>\<open>queuePos\<close>: the loop carries the index it has reached.\<close>

fun queuePos_from :: "nat \<Rightarrow> waiter list \<Rightarrow> string \<Rightarrow> u32" where
  "queuePos_from i [] clientID = 0"
| "queuePos_from i (w # q) clientID =
     (if w_clientID w = clientID then of_nat (i + 1) else queuePos_from (i + 1) q clientID)"

definition queuePos :: "lock \<Rightarrow> string \<Rightarrow> u32" where
  "queuePos lk clientID = queuePos_from 0 (lk_queue lk) clientID"

definition grant :: "fsm \<Rightarrow> string \<Rightarrow> lease \<Rightarrow> bytes \<Rightarrow> fsm \<times> command_result" where
  "grant f name ls value =
     (let lk = (case fmlookup (locks f) name of
                  None \<Rightarrow> \<lparr>lk_name = name, lk_holder = [], lk_token = 0, lk_value = None, lk_queue = []\<rparr>
                | Some lk \<Rightarrow> lk);
          sq = seq f + 1;
          lk' = lk\<lparr>lk_holder := ls_clientID ls, lk_token := sq, lk_value := value\<rparr>;
          ls' = ls\<lparr>ls_held := finsert name (ls_held ls), ls_waiting := ls_waiting ls - {|name|}\<rparr>;
          f1 = f\<lparr>seq := sq, locks := fmupd name lk' (locks f),
                 leases := fmupd (ls_clientID ls) ls' (leases f)\<rparr>;
          f2 = emit f1 name (lk_holder lk') (lk_token lk') (lk_value lk')
      in (f2, (resultKey f2 OUTCOME_GRANTED name)
                \<lparr>res_FencingToken := lk_token lk', res_Value := lk_value lk'\<rparr>))"

definition acquire ::
  "fsm \<Rightarrow> string \<Rightarrow> string \<Rightarrow> bytes \<Rightarrow> bool \<Rightarrow> fsm \<times> command_result" where
  "acquire f name clientID value try =
     (case fmlookup (leases f) clientID of
        None \<Rightarrow> (f, resultKey f OUTCOME_NO_LEASE name)
      | Some ls \<Rightarrow>
        (case fmlookup (locks f) name of
           None \<Rightarrow> grant f name ls value
         | Some lk \<Rightarrow>
           if lk_holder lk = [] then grant f name ls value
           else if lk_holder lk = clientID then
             (f, (resultKey f OUTCOME_GRANTED name)
                   \<lparr>res_FencingToken := lk_token lk, res_Value := lk_value lk\<rparr>)
           else if try then
             (f, (resultKey f OUTCOME_NOT_ACQUIRED name)\<lparr>res_CurrentHolder := lk_holder lk\<rparr>)
           else if name |\<in>| ls_waiting ls then
             (f, (resultKey f OUTCOME_QUEUED name)\<lparr>res_QueuePosition := queuePos lk clientID\<rparr>)
           else
             (let sq = seq f + 1;
                  lk' = lk\<lparr>lk_queue := lk_queue lk @
                          [\<lparr>w_clientID = clientID, w_seq = sq, w_value = value\<rparr>]\<rparr>;
                  ls' = ls\<lparr>ls_waiting := finsert name (ls_waiting ls)\<rparr>;
                  f' = f\<lparr>seq := sq, locks := fmupd name lk' (locks f),
                         leases := fmupd clientID ls' (leases f)\<rparr>
              in (f', (resultKey f' OUTCOME_QUEUED name)
                        \<lparr>res_QueuePosition := of_nat (length (lk_queue lk'))\<rparr>))))"

text \<open>
  The loop of \<^verbatim>\<open>promote\<close>: the third argument is what is left of \<^verbatim>\<open>lk.queue\<close>. It returns at the
  first waiter with a lease and falls out of the loop when the queue is used up.
\<close>

fun promote_loop :: "fsm \<Rightarrow> lock \<Rightarrow> waiter list \<Rightarrow> fsm" where
  "promote_loop f lk [] =
     emit (f\<lparr>locks := fmdrop (lk_name lk) (locks f)\<rparr>) (lk_name lk) [] 0 None"
| "promote_loop f lk (w # q) =
     (case fmlookup (leases f) (w_clientID w) of
        None \<Rightarrow> promote_loop f lk q
      | Some ls \<Rightarrow>
        (let sq = seq f + 1;
             lk' = lk\<lparr>lk_queue := q, lk_holder := w_clientID w, lk_token := sq,
                      lk_value := w_value w\<rparr>;
             ls' = ls\<lparr>ls_waiting := ls_waiting ls - {|lk_name lk|},
                      ls_held := finsert (lk_name lk) (ls_held ls)\<rparr>;
             f1 = f\<lparr>seq := sq, locks := fmupd (lk_name lk) lk' (locks f),
                    leases := fmupd (w_clientID w) ls' (leases f)\<rparr>
         in emit f1 (lk_name lk) (lk_holder lk') (lk_token lk') (lk_value lk')))"

definition promote :: "fsm \<Rightarrow> lock \<Rightarrow> fsm" where
  "promote f lk = promote_loop f lk (lk_queue lk)"

definition release :: "fsm \<Rightarrow> string \<Rightarrow> string \<Rightarrow> u64 \<Rightarrow> fsm \<times> command_result" where
  "release f name clientID token =
     (case fmlookup (locks f) name of
        None \<Rightarrow> (f, resultKey f OUTCOME_NOT_HOLDER name)
      | Some lk \<Rightarrow>
        if lk_holder lk = [] \<or> lk_holder lk \<noteq> clientID
        then (f, resultKey f OUTCOME_NOT_HOLDER name)
        else if lk_token lk \<noteq> token then (f, resultKey f OUTCOME_STALE_TOKEN name)
        else
          (let f1 = (case fmlookup (leases f) clientID of
                       None \<Rightarrow> f
                     | Some ls \<Rightarrow> f\<lparr>leases := fmupd clientID
                         (ls\<lparr>ls_held := ls_held ls - {|name|}\<rparr>) (leases f)\<rparr>);
               f2 = promote f1 lk
           in (f2, resultKey f2 OUTCOME_RELEASED name)))"

definition cancelWait :: "fsm \<Rightarrow> string \<Rightarrow> string \<Rightarrow> fsm \<times> command_result" where
  "cancelWait f name clientID =
     (case fmlookup (locks f) name of
        None \<Rightarrow> (f, resultKey f OUTCOME_NOOP name)
      | Some lk \<Rightarrow>
        if list_ex (\<lambda>w. w_clientID w = clientID) (lk_queue lk) then
          (let lk' = lk\<lparr>lk_queue := remove_first (\<lambda>w. w_clientID w = clientID) (lk_queue lk)\<rparr>;
               f1 = f\<lparr>locks := fmupd name lk' (locks f)\<rparr>;
               f2 = (case fmlookup (leases f1) clientID of
                       None \<Rightarrow> f1
                     | Some ls \<Rightarrow> f1\<lparr>leases := fmupd clientID
                         (ls\<lparr>ls_waiting := ls_waiting ls - {|name|}\<rparr>) (leases f1)\<rparr>)
           in (f2, resultKey f2 OUTCOME_RELEASED name))
        else (f, resultKey f OUTCOME_NOOP name))"

definition proclaim :: "fsm \<Rightarrow> string \<Rightarrow> string \<Rightarrow> u64 \<Rightarrow> bytes \<Rightarrow> fsm \<times> command_result" where
  "proclaim f name clientID token value =
     (case fmlookup (locks f) name of
        None \<Rightarrow> (f, resultKey f OUTCOME_NOT_HOLDER name)
      | Some lk \<Rightarrow>
        if lk_holder lk = [] \<or> lk_holder lk \<noteq> clientID
        then (f, resultKey f OUTCOME_NOT_HOLDER name)
        else if lk_token lk \<noteq> token then (f, resultKey f OUTCOME_STALE_TOKEN name)
        else
          (let lk' = lk\<lparr>lk_value := value\<rparr>;
               f1 = f\<lparr>locks := fmupd name lk' (locks f)\<rparr>;
               f2 = emit f1 name (lk_holder lk') (lk_token lk') (lk_value lk')
           in (f2, (resultKey f2 OUTCOME_VALUE_UPDATED name)
                     \<lparr>res_FencingToken := lk_token lk', res_Value := value\<rparr>)))"

subsection \<open>Leases\<close>

definition leaseGrant :: "fsm \<Rightarrow> string \<Rightarrow> i64 \<Rightarrow> i64 \<Rightarrow> fsm \<times> command_result" where
  "leaseGrant f clientID ttlMS now =
     (let ls = (case fmlookup (leases f) clientID of
                  None \<Rightarrow> \<lparr>ls_clientID = clientID, ls_ttlMS = 0, ls_expireAt = 0,
                           ls_held = {||}, ls_waiting = {||}\<rparr>
                | Some ls \<Rightarrow> ls);
          ls' = ls\<lparr>ls_ttlMS := ttlMS, ls_expireAt := leaseDeadline now ttlMS\<rparr>;
          f' = f\<lparr>leases := fmupd clientID ls' (leases f)\<rparr>
      in (f', (result f' OUTCOME_LEASE_GRANTED)\<lparr>res_LeaseDeadlineUnixNano := ls_expireAt ls'\<rparr>))"

definition leaseKeepAlive :: "fsm \<Rightarrow> string \<Rightarrow> i64 \<Rightarrow> fsm \<times> command_result" where
  "leaseKeepAlive f clientID now =
     (case fmlookup (leases f) clientID of
        None \<Rightarrow> (f, result f OUTCOME_NOT_FOUND)
      | Some ls \<Rightarrow>
        (let ls' = ls\<lparr>ls_expireAt := leaseDeadline now (ls_ttlMS ls)\<rparr>;
             f' = f\<lparr>leases := fmupd clientID ls' (leases f)\<rparr>
         in (f', (result f' OUTCOME_LEASE_RENEWED)\<lparr>res_LeaseDeadlineUnixNano := ls_expireAt ls'\<rparr>)))"

text \<open>
  The two loops of \<^verbatim>\<open>dropLease\<close>, over lists of keys that are read off the lease before each loop
  starts. The lease object is still the one in the map when the second list is read.
\<close>

definition dropLease_held :: "string \<Rightarrow> string \<Rightarrow> fsm \<Rightarrow> fsm" where
  "dropLease_held clientID name f =
     (case fmlookup (locks f) name of
        None \<Rightarrow> f
      | Some lk \<Rightarrow> if lk_holder lk \<noteq> clientID then f else promote f lk)"

definition dropLease_waiting :: "string \<Rightarrow> string \<Rightarrow> fsm \<Rightarrow> fsm" where
  "dropLease_waiting clientID name f =
     (case fmlookup (locks f) name of
        None \<Rightarrow> f
      | Some lk \<Rightarrow> f\<lparr>locks := fmupd name
          (lk\<lparr>lk_queue := remove_first (\<lambda>w. w_clientID w = clientID) (lk_queue lk)\<rparr>) (locks f)\<rparr>)"

definition dropLease :: "fsm \<Rightarrow> lease \<Rightarrow> fsm" where
  "dropLease f ls =
     (let f1 = fold (dropLease_held (ls_clientID ls)) (sorted_list_of_fset (ls_held ls)) f;
          waiting = (case fmlookup (leases f1) (ls_clientID ls) of
                       None \<Rightarrow> ls_waiting ls | Some ls1 \<Rightarrow> ls_waiting ls1);
          f2 = fold (dropLease_waiting (ls_clientID ls)) (sorted_list_of_fset waiting) f1
      in f2\<lparr>leases := fmdrop (ls_clientID ls) (leases f2)\<rparr>)"

definition leaseRevoke :: "fsm \<Rightarrow> string \<Rightarrow> fsm \<times> command_result" where
  "leaseRevoke f clientID =
     (case fmlookup (leases f) clientID of
        None \<Rightarrow> (f, result f OUTCOME_NOT_FOUND)
      | Some ls \<Rightarrow> (let f' = dropLease f ls in (f', result f' OUTCOME_LEASE_REVOKED)))"

definition leaseExpire :: "fsm \<Rightarrow> string \<Rightarrow> i64 \<Rightarrow> fsm \<times> command_result" where
  "leaseExpire f clientID now =
     (case fmlookup (leases f) clientID of
        None \<Rightarrow> (f, result f OUTCOME_NOT_FOUND)
      | Some ls \<Rightarrow>
        if now <s ls_expireAt ls then (f, result f OUTCOME_NOOP)
        else (let f' = dropLease f ls in (f', result f' OUTCOME_LEASE_EXPIRED)))"

subsection \<open>Apply\<close>

text \<open>
  \<^verbatim>\<open>Apply\<close> bumps the revision and dispatches. A nil command is rejected before the revision moves,
  an unset \<^verbatim>\<open>oneof\<close> after.
\<close>

fun exec_command :: "fsm \<Rightarrow> command \<Rightarrow> fsm \<times> (apply_error + command_result)" where
  "exec_command f (AcquireLock name clientID try) = apsnd Inr (acquire f name clientID None try)"
| "exec_command f (Campaign name clientID value) = apsnd Inr (acquire f name clientID value False)"
| "exec_command f (ReleaseLock name clientID token) = apsnd Inr (release f name clientID token)"
| "exec_command f (Resign name clientID token) = apsnd Inr (release f name clientID token)"
| "exec_command f (CancelWait name clientID) = apsnd Inr (cancelWait f name clientID)"
| "exec_command f (Proclaim name clientID token value) =
     apsnd Inr (proclaim f name clientID token value)"
| "exec_command f (LeaseGrant clientID ttlMS now) = apsnd Inr (leaseGrant f clientID ttlMS now)"
| "exec_command f (LeaseKeepAlive clientID now) = apsnd Inr (leaseKeepAlive f clientID now)"
| "exec_command f (LeaseRevoke clientID) = apsnd Inr (leaseRevoke f clientID)"
| "exec_command f (LeaseExpire clientID now) = apsnd Inr (leaseExpire f clientID now)"
| "exec_command f Cmd_Unset = (f, Inl UnknownCommandType)"

definition Apply :: "fsm \<Rightarrow> command option \<Rightarrow> fsm \<times> (apply_error + command_result)" where
  "Apply f cmd =
     (case cmd of
        None \<Rightarrow> (f, Inl NilCommand)
      | Some c \<Rightarrow> exec_command (f\<lparr>revision := revision f + 1\<rparr>) c)"

text \<open>The state after one committed command, and after a log of them.\<close>

definition step :: "command \<Rightarrow> fsm \<Rightarrow> fsm" where
  "step c f = fst (Apply f (Some c))"

definition run :: "command list \<Rightarrow> fsm \<Rightarrow> fsm" where
  "run cs f = fold step cs f"

subsection \<open>Queries\<close>

record status_answer =
  st_Held :: bool
  st_Holder :: string
  st_Token :: u64
  st_Value :: bytes
  st_QueueDepth :: u32
  st_Revision :: u64

record lease_info =
  li_Exists :: bool
  li_TTLMillis :: i64
  li_ExpireAtUnixNano :: i64
  li_HeldKeys :: "string list"
  li_Revision :: u64

record lock_summary =
  sm_Name :: string
  sm_Held :: bool
  sm_Holder :: string
  sm_Token :: u64
  sm_HasValue :: bool
  sm_QueueDepth :: u32

record waiter_info =
  wi_ClientID :: string
  wi_Seq :: u64
  wi_Position :: u32

record waiters_answer =
  wa_Held :: bool
  wa_Holder :: string
  wa_Token :: u64
  wa_Value :: bytes
  wa_Entries :: "waiter_info list"
  wa_Revision :: u64

datatype query =
    StatusQuery string | LeaseQuery string | DueLeasesQuery i64
  | ListLocksQuery string | WaitersQuery string | UnknownQuery

datatype answer =
    StatusAnswer status_answer | LeaseAnswer lease_info | DueLeasesAnswer "string list"
  | LockSummaries "lock_summary list" u64 | WaitersAnswer waiters_answer

definition status :: "fsm \<Rightarrow> string \<Rightarrow> status_answer" where
  "status f name =
     (let absent = \<lparr>st_Held = False, st_Holder = [], st_Token = 0, st_Value = None,
                    st_QueueDepth = 0, st_Revision = revision f\<rparr>
      in case fmlookup (locks f) name of
           None \<Rightarrow> absent
         | Some lk \<Rightarrow>
           if lk_holder lk = [] then absent
           else \<lparr>st_Held = True, st_Holder = lk_holder lk, st_Token = lk_token lk,
                 st_Value = lk_value lk, st_QueueDepth = of_nat (length (lk_queue lk)),
                 st_Revision = revision f\<rparr>)"

definition waiters :: "fsm \<Rightarrow> string \<Rightarrow> waiters_answer" where
  "waiters f name =
     (let absent = \<lparr>wa_Held = False, wa_Holder = [], wa_Token = 0, wa_Value = None,
                    wa_Entries = [], wa_Revision = revision f\<rparr>
      in case fmlookup (locks f) name of
           None \<Rightarrow> absent
         | Some lk \<Rightarrow>
           if lk_holder lk = [] then absent
           else \<lparr>wa_Held = True, wa_Holder = lk_holder lk, wa_Token = lk_token lk,
                 wa_Value = lk_value lk,
                 wa_Entries = map (\<lambda>(i, w). \<lparr>wi_ClientID = w_clientID w, wi_Seq = w_seq w,
                   wi_Position = of_nat (i + 1)\<rparr>) (enumerate 0 (lk_queue lk)),
                 wa_Revision = revision f\<rparr>)"

definition dueLeases :: "fsm \<Rightarrow> i64 \<Rightarrow> string list" where
  "dueLeases f now = map fst (filter (\<lambda>(c, ls). ls_expireAt ls \<le>s now) (sorted_bindings (leases f)))"

definition leaseInfo :: "fsm \<Rightarrow> string \<Rightarrow> lease_info" where
  "leaseInfo f clientID =
     (case fmlookup (leases f) clientID of
        None \<Rightarrow> \<lparr>li_Exists = False, li_TTLMillis = 0, li_ExpireAtUnixNano = 0, li_HeldKeys = [],
                 li_Revision = revision f\<rparr>
      | Some ls \<Rightarrow> \<lparr>li_Exists = True, li_TTLMillis = ls_ttlMS ls, li_ExpireAtUnixNano = ls_expireAt ls,
                    li_HeldKeys = sorted_list_of_fset (ls_held ls), li_Revision = revision f\<rparr>)"

definition listLocks :: "fsm \<Rightarrow> string \<Rightarrow> lock_summary list" where
  "listLocks f prefix =
     map (\<lambda>(name, lk). \<lparr>sm_Name = name, sm_Held = True, sm_Holder = lk_holder lk,
            sm_Token = lk_token lk, sm_HasValue = (lk_value lk \<noteq> None),
            sm_QueueDepth = of_nat (length (lk_queue lk))\<rparr>)
       (filter (\<lambda>(name, lk). lk_holder lk \<noteq> [] \<and> HasPrefix prefix name) (sorted_bindings (locks f)))"

definition Query :: "fsm \<Rightarrow> query \<Rightarrow> unit + answer" where
  "Query f q =
     (case q of
        StatusQuery name \<Rightarrow> Inr (StatusAnswer (status f name))
      | LeaseQuery clientID \<Rightarrow> Inr (LeaseAnswer (leaseInfo f clientID))
      | DueLeasesQuery now \<Rightarrow> Inr (DueLeasesAnswer (dueLeases f now))
      | ListLocksQuery prefix \<Rightarrow> Inr (LockSummaries (listLocks f prefix) (revision f))
      | WaitersQuery name \<Rightarrow> Inr (WaitersAnswer (waiters f name))
      | UnknownQuery \<Rightarrow> Inl ())"

end
