(* ===== verification/Fsm_Invariant.thy ===== *)
theory Fsm_Invariant
  imports Fsm
begin

text \<open>
  The well-formedness invariant of a shard's state machine and that every command keeps it.

  The invariant is stated over the \<^emph>\<open>line\<close> of a key: its holder followed by its waiters in queue order
  (the empty list for a free key). It says that no client stands twice in a line, that everyone in a
  line has a lease, and that the \<open>held\<close> and \<open>waiting\<close> indexes of each lease are exactly the keys
  whose line the client heads, and stands behind the head of. \<open>indexed X\<close> leaves the \<open>held\<close> index of
  the clients in \<open>X\<close> open: it describes the states inside \<^const>\<open>release\<close> and \<^const>\<open>dropLease\<close>.
\<close>

definition lock_line :: "lock \<Rightarrow> string list" where
  "lock_line lk = lk_holder lk # map w_clientID (lk_queue lk)"

definition line :: "fsm \<Rightarrow> string \<Rightarrow> string list" where
  "line f k = (case fmlookup (locks f) k of None \<Rightarrow> [] | Some lk \<Rightarrow> lock_line lk)"

definition named :: "fsm \<Rightarrow> bool" where
  "named f \<longleftrightarrow> (\<forall>k lk. fmlookup (locks f) k = Some lk \<longrightarrow> lk_name lk = k)"

definition heads :: "(string \<Rightarrow> string list) \<Rightarrow> string \<Rightarrow> string set" where
  "heads L c = {k. \<exists>rest. L k = c # rest}"

definition stands_behind :: "(string \<Rightarrow> string list) \<Rightarrow> string \<Rightarrow> string set" where
  "stands_behind L c = {k. c \<in> set (tl (L k))}"

definition indexed ::
  "string set \<Rightarrow> (string \<Rightarrow> string list) \<Rightarrow> (string, lease) fmap \<Rightarrow> bool" where
  "indexed X L M \<longleftrightarrow>
     (\<forall>k. distinct (L k) \<and> set (L k) \<subseteq> fset (fmdom M)) \<and>
     (\<forall>c ls. fmlookup M c = Some ls \<longrightarrow>
        ls_clientID ls = c \<and> c \<noteq> [] \<and> fset (ls_waiting ls) = stands_behind L c \<and>
        (c \<notin> X \<longrightarrow> fset (ls_held ls) = heads L c))"

definition fsm_wf :: "fsm \<Rightarrow> bool" where
  "fsm_wf f \<longleftrightarrow> named f \<and> indexed {} (line f) (leases f)"

text \<open>
  The one condition on commands: leases are granted to named clients. \<^verbatim>\<open>KeepAlive\<close> of the server never
  opens a session for an empty client id, and all leases are granted to clients with a session.
\<close>

fun valid_command :: "command \<Rightarrow> bool" where
  "valid_command (LeaseGrant clientID ttlMS now) = (clientID \<noteq> [])"
| "valid_command _ = True"

subsection \<open>Frame lemmas\<close>

lemma emit_frame [simp]:
  "locks (emit f k h t v) = locks f" "leases (emit f k h t v) = leases f"
  "seq (emit f k h t v) = seq f" "revision (emit f k h t v) = revision f"
  by (simp_all add: emit_def split: option.splits)

lemma line_emit [simp]: "line (emit f k h t v) = line f"
  by (simp add: line_def fun_eq_iff)

lemma line_upd_simps [simp]:
  "line (f\<lparr>locks := fmupd k lk (locks g)\<rparr>) = (line g)(k := lock_line lk)"
  "line (f\<lparr>locks := fmdrop k (locks g)\<rparr>) = (line g)(k := [])"
  "line (f\<lparr>leases := M\<rparr>) = line f" "line (f\<lparr>seq := n\<rparr>) = line f"
  "line (f\<lparr>revision := n\<rparr>) = line f" "line (f\<lparr>notifier := es\<rparr>) = line f"
  by (auto simp: line_def fun_eq_iff)

lemma line_None [simp]: "fmlookup (locks f) k = None \<Longrightarrow> line f k = []"
  by (simp add: line_def)

lemma line_Some: "fmlookup (locks f) k = Some lk \<Longrightarrow> line f k = lock_line lk"
  by (simp add: line_def)

lemma line_eq_Nil [simp]: "line f k = [] \<longleftrightarrow> fmlookup (locks f) k = None"
  by (simp add: line_def lock_line_def split: option.splits)

lemma named_frame [simp]:
  "named (f\<lparr>leases := M\<rparr>) = named f" "named (f\<lparr>seq := n\<rparr>) = named f"
  "named (f\<lparr>revision := n\<rparr>) = named f" "named (emit f k h t v) = named f"
  by (simp_all add: named_def)

lemma named_fmupd:
  "named g \<Longrightarrow> lk_name lk = k \<Longrightarrow> named (f\<lparr>locks := fmupd k lk (locks g)\<rparr>)"
  by (simp add: named_def)

lemma named_fmdrop: "named g \<Longrightarrow> named (f\<lparr>locks := fmdrop k (locks g)\<rparr>)"
  by (auto simp: named_def)

lemma named_name: "named f \<Longrightarrow> fmlookup (locks f) k = Some lk \<Longrightarrow> lk_name lk = k"
  by (simp add: named_def)

lemma fsm_wf_frame [simp]: "fsm_wf (f\<lparr>revision := n\<rparr>) = fsm_wf f" "fsm_wf (emit f k h t v) = fsm_wf f"
  by (simp_all add: fsm_wf_def)

subsection \<open>The index relation under the elementary changes of a line\<close>

lemma indexedD:
  assumes "indexed X L M"
  shows "distinct (L k)" and "c \<in> set (L k) \<Longrightarrow> c |\<in>| fmdom M"
    and "fmlookup M c = Some ls \<Longrightarrow> ls_clientID ls = c"
    and "fmlookup M c = Some ls \<Longrightarrow> c \<noteq> []"
    and "fmlookup M c = Some ls \<Longrightarrow> fset (ls_waiting ls) = stands_behind L c"
    and "fmlookup M c = Some ls \<Longrightarrow> c \<notin> X \<Longrightarrow> fset (ls_held ls) = heads L c"
  using assms unfolding indexed_def by blast+

lemma indexedI:
  assumes "\<And>k. distinct (L k)" and "\<And>c k. c \<in> set (L k) \<Longrightarrow> c |\<in>| fmdom M"
    and "\<And>c ls. fmlookup M c = Some ls \<Longrightarrow> ls_clientID ls = c"
    and "\<And>c ls. fmlookup M c = Some ls \<Longrightarrow> c \<noteq> []"
    and "\<And>c ls. fmlookup M c = Some ls \<Longrightarrow> fset (ls_waiting ls) = stands_behind L c"
    and "\<And>c ls. fmlookup M c = Some ls \<Longrightarrow> c \<notin> X \<Longrightarrow> fset (ls_held ls) = heads L c"
  shows "indexed X L M"
  unfolding indexed_def using assms by (intro conjI allI impI subsetI) auto

lemma indexed_member_lease:
  assumes "indexed X L M" and "c \<in> set (L k)"
  obtains ls where "fmlookup M c = Some ls"
  using indexedD(2) [OF assms] by (auto simp: fmlookup_dom_iff)

lemma indexed_nonempty: "indexed X L M \<Longrightarrow> [] \<notin> set (L k)"
  using indexedD(4) indexed_member_lease by metis

lemma indexed_mono: "indexed X L M \<Longrightarrow> X \<subseteq> Y \<Longrightarrow> indexed Y L M"
  by (rule indexedI) (auto dest: indexedD)

lemma indexed_close:
  assumes "indexed {c} L M" and "\<And>ls. fmlookup M c = Some ls \<Longrightarrow> fset (ls_held ls) = heads L c"
  shows "indexed {} L M"
proof (rule indexedI)
  fix d ls assume "fmlookup M d = Some ls"
  then show "fset (ls_held ls) = heads L d"
    using assms(2) indexedD(6) [OF assms(1)] by (cases "d = c") auto
qed (use indexedD [OF assms(1)] in blast)+

text \<open>A free key is granted.\<close>

lemma indexed_grant:
  assumes i: "indexed {} L M" and free: "L k = []" and c: "fmlookup M c = Some ls"
  shows "indexed {} (L(k := [c]))
    (fmupd c (ls\<lparr>ls_held := finsert k (ls_held ls), ls_waiting := ls_waiting ls - {|k|}\<rparr>) M)"
proof -
  have h: "heads (L(k := [c])) x = (if x = c then insert k (heads L x) else heads L x)" for x
    using free by (auto simp: heads_def)
  have b: "stands_behind (L(k := [c])) x = stands_behind L x" for x
    using free by (auto simp: stands_behind_def)
  have nk: "k \<notin> stands_behind L c" using free by (simp add: stands_behind_def)
  note D = indexedD [OF i]
  show ?thesis
    by (rule indexedI) (use D c nk in \<open>auto simp: h b split: if_splits\<close>)
qed

text \<open>A client joins the end of a line.\<close>

lemma indexed_enqueue:
  assumes i: "indexed {} L M" and "L k \<noteq> []" and "c \<notin> set (L k)" and c: "fmlookup M c = Some ls"
  shows "indexed {} (L(k := L k @ [c])) (fmupd c (ls\<lparr>ls_waiting := finsert k (ls_waiting ls)\<rparr>) M)"
proof -
  have h: "heads (L(k := L k @ [c])) x = heads L x" for x
    using assms(2) by (cases "L k") (auto simp: heads_def)
  have b: "stands_behind (L(k := L k @ [c])) x =
      (if x = c then insert k (stands_behind L x) else stands_behind L x)" for x
    using assms(2) by (auto simp: stands_behind_def)
  note D = indexedD [OF i]
  show ?thesis
    by (rule indexedI) (use D assms(3) c in \<open>auto simp: h b split: if_splits\<close>)
qed

text \<open>A waiter leaves a line.\<close>

lemma indexed_dequeue:
  assumes i: "indexed {} L M" and k: "L k = h # q" and "c \<in> set q" and c: "fmlookup M c = Some ls"
  shows "indexed {} (L(k := h # remove1 c q)) (fmupd c (ls\<lparr>ls_waiting := ls_waiting ls - {|k|}\<rparr>) M)"
proof -
  have d: "distinct (h # q)" using indexedD(1) [OF i, of k] k by simp
  have h: "heads (L(k := h # remove1 c q)) x = heads L x" for x
    using k by (auto simp: heads_def)
  have b: "stands_behind (L(k := h # remove1 c q)) x =
      (if x = c then stands_behind L x - {k} else stands_behind L x)" for x
    using k d by (auto simp: stands_behind_def)
  note D = indexedD [OF i]
  have sub: "h |\<in>| fmdom M" "x \<in> set q \<Longrightarrow> x |\<in>| fmdom M" for x
    using D(2) [of _ k] k by auto
  show ?thesis
    by (rule indexedI) (use D d c sub in \<open>auto simp: h b split: if_splits\<close>)
qed

text \<open>
  The head of a line leaves and the next in line takes over: what \<^const>\<open>promote\<close> does to the
  leases when the line behind the head is \<open>rest\<close>.
\<close>

definition promote_leases :: "string \<Rightarrow> string list \<Rightarrow> (string, lease) fmap \<Rightarrow> (string, lease) fmap" where
  "promote_leases k rest M =
     (case rest of
        [] \<Rightarrow> M
      | c # _ \<Rightarrow> (case fmlookup M c of
           None \<Rightarrow> M
         | Some ls \<Rightarrow> fmupd c (ls\<lparr>ls_waiting := ls_waiting ls - {|k|},
                                  ls_held := finsert k (ls_held ls)\<rparr>) M))"

lemma promote_leases_other:
  "c \<notin> set rest \<Longrightarrow> fmlookup (promote_leases k rest M) c = fmlookup M c"
  by (auto simp: promote_leases_def split: list.splits option.splits)

lemma promote_leases_dom [simp]: "fmdom (promote_leases k rest M) = fmdom M"
  by (auto simp: promote_leases_def finsert_absorb split: list.splits option.splits)

lemma indexed_promote:
  assumes i: "indexed X L M" and k: "L k = c # rest" and "c \<in> X"
  shows "indexed X (L(k := rest)) (promote_leases k rest M)"
proof (cases rest)
  case Nil
  have b: "stands_behind (L(k := [])) x = stands_behind L x" for x
    using k Nil by (auto simp: stands_behind_def)
  have h: "x \<noteq> c \<Longrightarrow> heads (L(k := [])) x = heads L x" for x
    using k Nil by (auto simp: heads_def)
  note D = indexedD [OF i]
  have "indexed X (L(k := [])) M"
  proof (rule indexedI)
    fix x ls assume "fmlookup M x = Some ls" "x \<notin> X"
    with h D(6) assms(3) show "fset (ls_held ls) = heads (L(k := [])) x" by metis
  qed (use D in \<open>auto simp: b split: if_splits\<close>)
  with Nil show ?thesis by (simp add: promote_leases_def)
next
  case (Cons d q)
  have dist: "distinct (c # d # q)" using indexedD(1) [OF i, of k] k Cons by simp
  obtain ls where ls: "fmlookup M d = Some ls"
    using indexed_member_lease [OF i, of d k] k Cons by auto
  have b: "stands_behind (L(k := rest)) x =
      (if x = d then stands_behind L x - {k} else stands_behind L x)" for x
    using k Cons dist by (auto simp: stands_behind_def)
  have h: "x \<noteq> c \<Longrightarrow> heads (L(k := rest)) x = (if x = d then insert k (heads L x) else heads L x)" for x
    using k Cons dist by (auto simp: heads_def)
  note D = indexedD [OF i]
  have sub: "distinct rest" "x \<in> set rest \<Longrightarrow> x |\<in>| fmdom M" for x
    using D(2) [of _ k] k Cons dist by auto
  have p: "fmlookup (promote_leases k rest M) x = (if x = d then Some (ls\<lparr>ls_waiting :=
      ls_waiting ls - {|k|}, ls_held := finsert k (ls_held ls)\<rparr>) else fmlookup M x)" for x
    using ls Cons by (simp add: promote_leases_def)
  show ?thesis
  proof (rule indexedI)
    fix x ls' assume "fmlookup (promote_leases k rest M) x = Some ls'" "x \<notin> X"
    moreover from this assms(3) have "x \<noteq> c" by blast
    ultimately show "fset (ls_held ls') = heads (L(k := rest)) x"
      using D(6) ls by (auto simp: p h split: if_splits)
  qed (use D sub ls in \<open>auto simp: p b split: if_splits\<close>)
qed

subsection \<open>Consequences of well-formedness\<close>

lemma fsm_wfD:
  assumes "fsm_wf f"
  shows "named f" and "indexed {} (line f) (leases f)"
  using assms by (simp_all add: fsm_wf_def)

lemma lock_holder_nonempty:
  assumes "indexed X (line f) (leases f)" and "fmlookup (locks f) k = Some lk"
  shows "lk_holder lk \<noteq> []"
proof -
  have "lk_holder lk \<in> set (line f k)" using assms(2) by (simp add: line_def lock_line_def)
  then show ?thesis using indexed_nonempty [OF assms(1)] by metis
qed

lemma waiting_iff:
  assumes "indexed X (line f) (leases f)" and "fmlookup (leases f) c = Some ls"
    and "fmlookup (locks f) k = Some lk"
  shows "k |\<in>| ls_waiting ls \<longleftrightarrow> c \<in> w_clientID ` set (lk_queue lk)"
  using indexedD(5) [OF assms(1,2)] assms(3) by (auto simp: stands_behind_def line_def lock_line_def)

lemma fsm_wf_New [simp]: "fsm_wf (New n)"
  by (simp add: fsm_wf_def named_def New_def line_def indexed_def)

subsection \<open>Promotion\<close>

lemma promote_line:
  assumes n: "named f" and i: "indexed X (line f) (leases f)" and k: "fmlookup (locks f) k = Some lk"
  shows "line (promote f lk) = (line f)(k := tl (line f k))"
    and "leases (promote f lk) = promote_leases k (tl (line f k)) (leases f)"
    and "named (promote f lk)"
proof -
  have nm: "lk_name lk = k" using named_name [OF n k] .
  have l: "line f k = lk_holder lk # map w_clientID (lk_queue lk)"
    using k by (simp add: line_def lock_line_def)
  have "line (promote f lk) = (line f)(k := tl (line f k)) \<and>
    leases (promote f lk) = promote_leases k (tl (line f k)) (leases f) \<and> named (promote f lk)"
  proof (cases "lk_queue lk")
    case Nil
    then show ?thesis
      using nm l n by (simp add: promote_def promote_leases_def named_fmdrop)
  next
    case (Cons w q)
    then obtain ls where "fmlookup (leases f) (w_clientID w) = Some ls"
      using indexed_member_lease [OF i, of "w_clientID w" k] l by auto
    with Cons show ?thesis
      using nm l n by (simp add: promote_def promote_leases_def Let_def lock_line_def named_fmupd)
  qed
  then show "line (promote f lk) = (line f)(k := tl (line f k))"
    "leases (promote f lk) = promote_leases k (tl (line f k)) (leases f)" "named (promote f lk)"
    by simp_all
qed

subsection \<open>Lock commands\<close>

lemma grant_line:
  assumes w: "fsm_wf f" and free: "fmlookup (locks f) name = None" and c: "fmlookup (leases f) c = Some ls"
  shows "line (fst (grant f name ls v)) = (line f)(name := [c])" and "fsm_wf (fst (grant f name ls v))"
proof -
  have id: "ls_clientID ls = c" using indexedD(3) [OF fsm_wfD(2) [OF w] c] .
  show l: "line (fst (grant f name ls v)) = (line f)(name := [c])"
    using free id by (simp add: grant_def Let_def lock_line_def)
  have "indexed {} ((line f)(name := [c])) (leases (fst (grant f name ls v)))"
    using indexed_grant [OF fsm_wfD(2) [OF w], of name c ls] free c id by (simp add: grant_def Let_def)
  moreover have "named (fst (grant f name ls v))"
    using free fsm_wfD(1) [OF w] by (simp add: grant_def Let_def named_fmupd)
  ultimately show "fsm_wf (fst (grant f name ls v))" by (simp add: fsm_wf_def l)
qed

text \<open>\<^const>\<open>acquire\<close> on every branch, in a well-formed state.\<close>

lemma acquire_line:
  assumes w: "fsm_wf f"
  shows "line (fst (acquire f name c v try)) =
     (if c |\<notin>| fmdom (leases f) \<or> c \<in> set (line f name) \<or> try \<and> line f name \<noteq> [] then line f
      else (line f)(name := line f name @ [c]))"
    and "fsm_wf (fst (acquire f name c v try))"
proof -
  note i = fsm_wfD(2) [OF w]
  have "line (fst (acquire f name c v try)) =
     (if c |\<notin>| fmdom (leases f) \<or> c \<in> set (line f name) \<or> try \<and> line f name \<noteq> [] then line f
      else (line f)(name := line f name @ [c])) \<and> fsm_wf (fst (acquire f name c v try))"
  proof (cases "fmlookup (leases f) c")
    case None
    then show ?thesis using w by (simp add: acquire_def fmlookup_dom_iff)
  next
    case (Some ls)
    note ls = this
    show ?thesis
    proof (cases "fmlookup (locks f) name")
      case None
      then show ?thesis using grant_line [OF w None ls] ls by (simp add: acquire_def)
    next
      case (Some lk)
      have nonempty: "lk_holder lk \<noteq> []" by (rule lock_holder_nonempty [OF i Some])
      have wait: "name |\<in>| ls_waiting ls \<longleftrightarrow> c \<in> w_clientID ` set (lk_queue lk)"
        by (rule waiting_iff [OF i ls Some])
      have l: "line f name = lk_holder lk # map w_clientID (lk_queue lk)"
        using Some by (simp add: line_def lock_line_def)
      have id: "ls_clientID ls = c" using indexedD(3) [OF i ls] .
      show ?thesis
      proof (cases "try \<or> c \<in> set (line f name)")
        case True
        with nonempty wait l ls Some w show ?thesis by (auto simp: acquire_def)
      next
        case False
        then have "fst (acquire f name c v try) = f\<lparr>seq := seq f + 1,
            locks := fmupd name (lk\<lparr>lk_queue := lk_queue lk @
                          [\<lparr>w_clientID = c, w_seq = seq f + 1, w_value = v\<rparr>]\<rparr>) (locks f),
            leases := fmupd c (ls\<lparr>ls_waiting := finsert name (ls_waiting ls)\<rparr>) (leases f)\<rparr>"
          using nonempty wait l ls Some by (auto simp: acquire_def Let_def)
        with False show ?thesis
          using indexed_enqueue [OF i _ _ ls, of name] l ls Some w named_name [OF fsm_wfD(1) [OF w] Some]
          by (simp add: fsm_wf_def lock_line_def named_fmupd)
      qed
    qed
  qed
  then show "line (fst (acquire f name c v try)) =
     (if c |\<notin>| fmdom (leases f) \<or> c \<in> set (line f name) \<or> try \<and> line f name \<noteq> [] then line f
      else (line f)(name := line f name @ [c]))" "fsm_wf (fst (acquire f name c v try))"
    by simp_all
qed

text \<open>A release or resignation is accepted exactly from the holder with its current token.\<close>

definition holds_with :: "fsm \<Rightarrow> string \<Rightarrow> string \<Rightarrow> u64 \<Rightarrow> bool" where
  "holds_with f name c t \<longleftrightarrow>
     (case fmlookup (locks f) name of
        None \<Rightarrow> False | Some lk \<Rightarrow> lk_holder lk = c \<and> lk_token lk = t)"

lemma release_accepted:
  assumes w: "fsm_wf f" and h: "holds_with f name c t"
  obtains lk ls where "fmlookup (locks f) name = Some lk" and "fmlookup (leases f) c = Some ls"
    and "lk_holder lk = c"
    and "fst (release f name c t) =
      promote (f\<lparr>leases := fmupd c (ls\<lparr>ls_held := ls_held ls - {|name|}\<rparr>) (leases f)\<rparr>) lk"
proof -
  obtain lk where lk: "fmlookup (locks f) name = Some lk" "lk_holder lk = c" "lk_token lk = t"
    using h by (auto simp: holds_with_def split: option.splits)
  have "c \<in> set (line f name)" using lk by (simp add: line_def lock_line_def)
  then obtain ls where ls: "fmlookup (leases f) c = Some ls"
    using indexed_member_lease [OF fsm_wfD(2) [OF w]] by blast
  have "c \<noteq> []" using lock_holder_nonempty [OF fsm_wfD(2) [OF w] lk(1)] lk(2) by simp
  then show ?thesis
    using that [OF lk(1) ls lk(2)] lk ls by (simp add: release_def Let_def)
qed

lemma release_rejected:
  "fsm_wf f \<Longrightarrow> \<not> holds_with f name c t \<Longrightarrow> fst (release f name c t) = f"
  by (auto simp: release_def holds_with_def split: option.splits)

lemma release_line:
  assumes w: "fsm_wf f"
  shows "line (fst (release f name c t)) =
     (if holds_with f name c t then (line f)(name := tl (line f name)) else line f)"
    and "fsm_wf (fst (release f name c t))"
proof -
  have "line (fst (release f name c t)) =
     (if holds_with f name c t then (line f)(name := tl (line f name)) else line f) \<and>
     fsm_wf (fst (release f name c t))"
  proof (cases "holds_with f name c t")
    case False
    with w show ?thesis by (simp add: release_rejected)
  next
    case True
    then obtain lk ls where lk: "fmlookup (locks f) name = Some lk" and ls: "fmlookup (leases f) c = Some ls"
      and c: "lk_holder lk = c" and r: "fst (release f name c t) =
        promote (f\<lparr>leases := fmupd c (ls\<lparr>ls_held := ls_held ls - {|name|}\<rparr>) (leases f)\<rparr>) lk"
      by (rule release_accepted [OF w])
    let ?f = "f\<lparr>leases := fmupd c (ls\<lparr>ls_held := ls_held ls - {|name|}\<rparr>) (leases f)\<rparr>"
    let ?rest = "map w_clientID (lk_queue lk)"
    have l: "line f name = c # ?rest" using lk c by (simp add: line_def lock_line_def)
    note i = fsm_wfD(2) [OF w]
    have i1: "indexed {c} (line f) (leases ?f)"
      by (rule indexedI) (use indexedD [OF i] ls in \<open>auto split: if_splits\<close>)
    have p: "line (promote ?f lk) = (line f)(name := ?rest)"
      "leases (promote ?f lk) = promote_leases name ?rest (leases ?f)" "named (promote ?f lk)"
      using promote_line [of ?f "{c}" name lk] i1 lk l fsm_wfD(1) [OF w] by simp_all
    have "c \<notin> set ?rest" using indexedD(1) [OF i, of name] l by simp
    then have held: "fmlookup (leases (promote ?f lk)) c = Some (ls\<lparr>ls_held := ls_held ls - {|name|}\<rparr>)"
      and hd: "heads ((line f)(name := ?rest)) c = heads (line f) c - {name}"
      using p by (auto simp: promote_leases_other heads_def)
    have "indexed {c} ((line f)(name := ?rest)) (leases (promote ?f lk))"
      using indexed_promote [OF i1 l] p by simp
    then have "indexed {} ((line f)(name := ?rest)) (leases (promote ?f lk))"
      by (rule indexed_close) (use held hd indexedD(6) [OF i ls] in auto)
    with p r l True show ?thesis by (simp add: fsm_wf_def)
  qed
  then show "line (fst (release f name c t)) =
     (if holds_with f name c t then (line f)(name := tl (line f name)) else line f)"
    "fsm_wf (fst (release f name c t))"
    by simp_all
qed

lemma cancelWait_line:
  assumes w: "fsm_wf f"
  shows "line (fst (cancelWait f name c)) =
     (if c \<in> set (tl (line f name)) then (line f)(name := remove1 c (line f name)) else line f)"
    and "fsm_wf (fst (cancelWait f name c))"
proof -
  note i = fsm_wfD(2) [OF w]
  have "line (fst (cancelWait f name c)) =
     (if c \<in> set (tl (line f name)) then (line f)(name := remove1 c (line f name)) else line f) \<and>
     fsm_wf (fst (cancelWait f name c))"
  proof (cases "fmlookup (locks f) name")
    case None
    then show ?thesis using w by (simp add: cancelWait_def)
  next
    case (Some lk)
    let ?q = "map w_clientID (lk_queue lk)"
    have l: "line f name = lk_holder lk # ?q" using Some by (simp add: line_def lock_line_def)
    show ?thesis
    proof (cases "c \<in> set ?q")
      case False
      then show ?thesis using Some w l by (auto simp: cancelWait_def list_ex_iff)
    next
      case True
      then obtain ls where ls: "fmlookup (leases f) c = Some ls"
        using indexed_member_lease [OF i, of c name] l by auto
      have "fst (cancelWait f name c) = f\<lparr>locks := fmupd name (lk\<lparr>lk_queue :=
            remove_first (\<lambda>w. w_clientID w = c) (lk_queue lk)\<rparr>) (locks f),
          leases := fmupd c (ls\<lparr>ls_waiting := ls_waiting ls - {|name|}\<rparr>) (leases f)\<rparr>"
        using True Some ls by (auto simp: cancelWait_def list_ex_iff Let_def)
      moreover have "lk_holder lk \<notin> set ?q" using indexedD(1) [OF i, of name] l by simp
      with True have "c \<noteq> lk_holder lk" by blast
      moreover have "indexed {} ((line f)(name := lk_holder lk # remove1 c ?q))
          (fmupd c (ls\<lparr>ls_waiting := ls_waiting ls - {|name|}\<rparr>) (leases f))"
        by (rule indexed_dequeue [OF i l True ls])
      ultimately show ?thesis
        using True l w named_name [OF fsm_wfD(1) [OF w] Some]
        by (simp add: fsm_wf_def lock_line_def map_remove_first named_fmupd)
    qed
  qed
  then show "line (fst (cancelWait f name c)) =
     (if c \<in> set (tl (line f name)) then (line f)(name := remove1 c (line f name)) else line f)"
    "fsm_wf (fst (cancelWait f name c))"
    by simp_all
qed

lemma proclaim_line:
  assumes w: "fsm_wf f"
  shows "line (fst (proclaim f name c t v)) = line f" and "fsm_wf (fst (proclaim f name c t v))"
proof -
  have "line (fst (proclaim f name c t v)) = line f \<and> leases (fst (proclaim f name c t v)) = leases f
    \<and> named (fst (proclaim f name c t v))"
  proof (cases "fmlookup (locks f) name")
    case None
    then show ?thesis using fsm_wfD(1) [OF w] by (simp add: proclaim_def)
  next
    case (Some lk)
    then show ?thesis
      using fsm_wfD(1) [OF w] named_name [OF fsm_wfD(1) [OF w] Some]
      by (auto simp: proclaim_def Let_def lock_line_def line_Some fun_upd_idem named_fmupd)
  qed
  with w show "line (fst (proclaim f name c t v)) = line f" "fsm_wf (fst (proclaim f name c t v))"
    by (simp_all add: fsm_wf_def)
qed

subsection \<open>Lease commands\<close>

lemma fmlookup_line_empty_lease:
  assumes "indexed {} L M" and "fmlookup M c = None"
  shows "heads L c = {}" and "stands_behind L c = {}"
proof -
  have "c \<notin> set (L k)" for k using indexedD(2) [OF assms(1), of c k] assms(2) by (auto simp: fmlookup_dom_iff)
  then show "heads L c = {}" "stands_behind L c = {}"
    by (auto simp: heads_def stands_behind_def) (metis list.set_intros(1), metis list.set_sel(2) list.sel(2))
qed

text \<open>Replacing a lease by one with the same owner and indexes.\<close>

lemma indexed_refresh:
  assumes i: "indexed {} L M" and c: "fmlookup M c = Some ls"
    and "ls_clientID ls' = ls_clientID ls" "ls_held ls' = ls_held ls" "ls_waiting ls' = ls_waiting ls"
  shows "indexed {} L (fmupd c ls' M)"
  by (rule indexedI) (use indexedD [OF i] assms(2-) in \<open>auto split: if_splits\<close>)

lemma leaseGrant_line:
  assumes w: "fsm_wf f" and "c \<noteq> []"
  shows "line (fst (leaseGrant f c ttl now)) = line f" and "fsm_wf (fst (leaseGrant f c ttl now))"
proof -
  note i = fsm_wfD(2) [OF w]
  have "indexed {} (line f) (leases (fst (leaseGrant f c ttl now)))"
  proof (cases "fmlookup (leases f) c")
    case None
    show ?thesis
      by (rule indexedI)
        (use indexedD [OF i] fmlookup_line_empty_lease [OF i None] assms(2) None
          in \<open>auto simp: leaseGrant_def Let_def split: if_splits\<close>)
  next
    case (Some ls)
    then show ?thesis
      using indexed_refresh [OF i Some] by (simp add: leaseGrant_def Let_def)
  qed
  with w show "line (fst (leaseGrant f c ttl now)) = line f" "fsm_wf (fst (leaseGrant f c ttl now))"
    by (simp_all add: fsm_wf_def leaseGrant_def Let_def)
qed

lemma leaseKeepAlive_line:
  assumes w: "fsm_wf f"
  shows "line (fst (leaseKeepAlive f c now)) = line f" and "fsm_wf (fst (leaseKeepAlive f c now))"
  using indexed_refresh [OF fsm_wfD(2) [OF w]] w
  by (auto simp: leaseKeepAlive_def Let_def fsm_wf_def split: option.splits)

subsubsection \<open>Dropping a lease\<close>

definition strip_head :: "string \<Rightarrow> string list \<Rightarrow> string list" where
  "strip_head c l = (case l of [] \<Rightarrow> [] | x # r \<Rightarrow> if x = c then r else l)"

definition strip_tail :: "string \<Rightarrow> string list \<Rightarrow> string list" where
  "strip_tail c l = (case l of [] \<Rightarrow> [] | x # r \<Rightarrow> x # remove1 c r)"

lemma dropLease_held_line:
  assumes n: "named f" and i: "indexed {c} (line f) (leases f)"
  shows "line (dropLease_held c k f) = (line f)(k := strip_head c (line f k))"
    and "named (dropLease_held c k f)"
    and "indexed {c} (line (dropLease_held c k f)) (leases (dropLease_held c k f))"
    and "fmlookup (leases (dropLease_held c k f)) c = fmlookup (leases f) c"
    and "fmdom (leases (dropLease_held c k f)) = fmdom (leases f)"
proof -
  have "line (dropLease_held c k f) = (line f)(k := strip_head c (line f k)) \<and>
    named (dropLease_held c k f) \<and>
    indexed {c} (line (dropLease_held c k f)) (leases (dropLease_held c k f)) \<and>
    fmlookup (leases (dropLease_held c k f)) c = fmlookup (leases f) c \<and>
    fmdom (leases (dropLease_held c k f)) = fmdom (leases f)"
  proof (cases "\<exists>lk. fmlookup (locks f) k = Some lk \<and> lk_holder lk = c")
    case True
    then obtain lk where lk: "fmlookup (locks f) k = Some lk" and "lk_holder lk = c" by blast
    let ?rest = "map w_clientID (lk_queue lk)"
    have l: "line f k = c # ?rest" using lk \<open>lk_holder lk = c\<close> by (simp add: line_def lock_line_def)
    have d: "dropLease_held c k f = promote f lk" using lk \<open>lk_holder lk = c\<close> by (simp add: dropLease_held_def)
    have "c \<notin> set ?rest" using indexedD(1) [OF i, of k] l by simp
    then show ?thesis
      using promote_line [OF n i lk] indexed_promote [OF i l] l d
      by (simp add: strip_head_def promote_leases_other)
  next
    case False
    then have "dropLease_held c k f = f" by (auto simp: dropLease_held_def split: option.splits)
    moreover have "strip_head c (line f k) = line f k"
      using False by (auto simp: strip_head_def line_def lock_line_def split: list.splits option.splits)
    ultimately show ?thesis using n i by simp
  qed
  then show "line (dropLease_held c k f) = (line f)(k := strip_head c (line f k))"
    "named (dropLease_held c k f)"
    "indexed {c} (line (dropLease_held c k f)) (leases (dropLease_held c k f))"
    "fmlookup (leases (dropLease_held c k f)) c = fmlookup (leases f) c"
    "fmdom (leases (dropLease_held c k f)) = fmdom (leases f)"
    by blast+
qed

lemma fold_dropLease_held:
  assumes "named f" "indexed {c} (line f) (leases f)" "distinct ks"
  shows "line (fold (dropLease_held c) ks f) =
      (\<lambda>k. if k \<in> set ks then strip_head c (line f k) else line f k) \<and>
    named (fold (dropLease_held c) ks f) \<and>
    indexed {c} (line (fold (dropLease_held c) ks f)) (leases (fold (dropLease_held c) ks f)) \<and>
    fmlookup (leases (fold (dropLease_held c) ks f)) c = fmlookup (leases f) c \<and>
    fmdom (leases (fold (dropLease_held c) ks f)) = fmdom (leases f)"
  using assms
proof (induction ks arbitrary: f)
  case Nil
  then show ?case by simp
next
  case (Cons k ks)
  note d = dropLease_held_line [OF Cons.prems(1,2), of k]
  have "distinct ks" "k \<notin> set ks" using Cons.prems(3) by auto
  note IH = Cons.IH [OF d(2,3) \<open>distinct ks\<close>]
  have "line (fold (dropLease_held c) (k # ks) f) =
      (\<lambda>x. if x \<in> set (k # ks) then strip_head c (line f x) else line f x)"
    using IH [THEN conjunct1] d(1) \<open>k \<notin> set ks\<close> by (auto simp: fun_eq_iff)
  moreover have "fold (dropLease_held c) (k # ks) f = fold (dropLease_held c) ks (dropLease_held c k f)"
    by simp
  ultimately show ?case using IH [THEN conjunct2] d(4,5) by metis
qed

lemma dropLease_waiting_frame [simp]:
  "leases (dropLease_waiting c k f) = leases f" "seq (dropLease_waiting c k f) = seq f"
  "revision (dropLease_waiting c k f) = revision f" "notifier (dropLease_waiting c k f) = notifier f"
  by (simp_all add: dropLease_waiting_def split: option.splits)

lemma dropLease_waiting_line:
  "line (dropLease_waiting c k f) = (line f)(k := strip_tail c (line f k))"
  by (auto simp: dropLease_waiting_def strip_tail_def line_Some lock_line_def map_remove_first
      fun_eq_iff split: option.splits list.splits)

lemma dropLease_waiting_named: "named f \<Longrightarrow> named (dropLease_waiting c k f)"
  by (auto simp: dropLease_waiting_def named_def split: option.splits)

lemma fold_dropLease_waiting:
  assumes "distinct ks"
  shows "line (fold (dropLease_waiting c) ks f) =
      (\<lambda>k. if k \<in> set ks then strip_tail c (line f k) else line f k) \<and>
    leases (fold (dropLease_waiting c) ks f) = leases f \<and>
    (named f \<longrightarrow> named (fold (dropLease_waiting c) ks f))"
  using assms
  by (induction ks arbitrary: f) (auto simp: dropLease_waiting_line dropLease_waiting_named fun_eq_iff)

lemma strip_tail_strip_head:
  "distinct l \<Longrightarrow> strip_tail c (strip_head c l) = remove1 c l"
proof (cases l)
  case (Cons x r)
  assume "distinct l"
  then show ?thesis
    using Cons by (cases r) (auto simp: strip_tail_def strip_head_def remove1_idem)
qed (simp add: strip_tail_def strip_head_def)

lemma strip_tail_Cons: "(\<exists>rest. strip_tail c l = x # rest) \<longleftrightarrow> (\<exists>rest. l = x # rest)"
  by (cases l) (auto simp: strip_tail_def)

lemma set_tl_strip_tail: "x \<noteq> c \<Longrightarrow> x \<in> set (tl (strip_tail c l)) \<longleftrightarrow> x \<in> set (tl l)"
  by (cases l) (auto simp: strip_tail_def)

lemma heads_strip_tail: "heads (\<lambda>k. strip_tail c (L k)) x = heads L x"
  by (simp add: heads_def strip_tail_Cons)

lemma behind_strip_tail: "x \<noteq> c \<Longrightarrow> stands_behind (\<lambda>k. strip_tail c (L k)) x = stands_behind L x"
  by (simp add: stands_behind_def set_tl_strip_tail)

text \<open>
  Dropping the lease of \<open>c\<close> takes \<open>c\<close> out of every line, whether it stood at the head or behind it,
  and out of the lease table; nobody else moves relative to the others.
\<close>

lemma dropLease_line:
  assumes w: "fsm_wf f" and c: "fmlookup (leases f) c = Some ls"
  shows "line (dropLease f ls) = (\<lambda>k. remove1 c (line f k))"
    and "fsm_wf (dropLease f ls)"
    and "fmdom (leases (dropLease f ls)) = fmdom (leases f) - {|c|}"
proof -
  note i = fsm_wfD(2) [OF w]
  have id: "ls_clientID ls = c" using indexedD(3) [OF i c] .
  define f1 where "f1 = fold (dropLease_held c) (sorted_list_of_fset (ls_held ls)) f"
  define f2 where "f2 = fold (dropLease_waiting c) (sorted_list_of_fset (ls_waiting ls)) f1"
  have i1: "indexed {c} (line f) (leases f)" using indexed_mono [OF i] by blast
  note F1 = fold_dropLease_held [OF fsm_wfD(1) [OF w] i1, of "sorted_list_of_fset (ls_held ls)", folded f1_def]
  have l1: "line f1 = (\<lambda>k. strip_head c (line f k))"
    using F1 indexedD(6) [OF i c]
    by (auto simp: fun_eq_iff heads_def strip_head_def split: list.splits)
  have c1: "fmlookup (leases f1) c = Some ls" and ix1: "indexed {c} (line f1) (leases f1)"
    and n1: "named f1" and dom1: "fmdom (leases f1) = fmdom (leases f)"
    using F1 [OF distinct_sorted_list_of_fset, THEN conjunct2] c by simp_all
  note F2 = fold_dropLease_waiting [of "sorted_list_of_fset (ls_waiting ls)" c f1, folded f2_def]
  have l2: "line f2 = (\<lambda>k. strip_tail c (line f1 k))"
    using F2 indexedD(5) [OF ix1 c1]
    by (auto simp: fun_eq_iff stands_behind_def strip_tail_def remove1_idem split: list.splits)
  have drop: "dropLease f ls = f2\<lparr>leases := fmdrop c (leases f2)\<rparr>"
    by (simp add: dropLease_def id f1_def [symmetric] c1 f2_def Let_def)
  have m2: "leases f2 = leases f1" "named f2" using F2 n1 by simp_all
  have hd2: "heads (line f2) x = heads (line f1) x" for x by (simp add: l2 heads_strip_tail)
  have bd2: "x \<noteq> c \<Longrightarrow> stands_behind (line f2) x = stands_behind (line f1) x" for x
    by (simp add: l2 behind_strip_tail)
  have lf: "line f2 = (\<lambda>k. remove1 c (line f k))"
    using indexedD(1) [OF i] by (simp add: l2 l1 strip_tail_strip_head)
  show "line (dropLease f ls) = (\<lambda>k. remove1 c (line f k))" by (simp add: drop lf)
  show "fmdom (leases (dropLease f ls)) = fmdom (leases f) - {|c|}" by (simp add: drop m2 dom1)
  have "indexed {} (line f2) (fmdrop c (leases f1))"
  proof (rule indexedI)
    fix k show "distinct (line f2 k)" using indexedD(1) [OF i, of k] by (simp add: lf)
  next
    fix x k assume "x \<in> set (line f2 k)"
    then show "x |\<in>| fmdom (fmdrop c (leases f1))"
      using indexedD(1,2) [OF i, where k = k] by (auto simp: lf dom1)
  qed (use indexedD [OF ix1] in \<open>auto simp: hd2 bd2 split: if_splits\<close>)
  then show "fsm_wf (dropLease f ls)" by (simp add: fsm_wf_def drop m2)
qed

lemma leaseRevoke_line:
  assumes "fsm_wf f"
  shows "line (fst (leaseRevoke f c)) = (\<lambda>k. remove1 c (line f k))" and "fsm_wf (fst (leaseRevoke f c))"
proof -
  have "c \<notin> set (line f k)" if "fmlookup (leases f) c = None" for k
    using indexedD(2) [OF fsm_wfD(2) [OF assms], of c k] that by (auto simp: fmlookup_dom_iff)
  then show "line (fst (leaseRevoke f c)) = (\<lambda>k. remove1 c (line f k))" "fsm_wf (fst (leaseRevoke f c))"
    using dropLease_line [OF assms] assms
    by (auto simp: leaseRevoke_def Let_def remove1_idem split: option.splits)
qed

lemma leaseExpire_eq:
  "fst (leaseExpire f c now) =
     (case fmlookup (leases f) c of
        None \<Rightarrow> f | Some ls \<Rightarrow> if now <s ls_expireAt ls then f else fst (leaseRevoke f c))"
  by (simp add: leaseExpire_def leaseRevoke_def Let_def split: option.splits)

subsection \<open>Every command keeps the invariant\<close>

lemma exec_command_wf:
  assumes "fsm_wf f" and "valid_command c"
  shows "fsm_wf (fst (exec_command f c))"
  using assms
  by (cases c) (auto simp: acquire_line release_line cancelWait_line proclaim_line leaseGrant_line
      leaseKeepAlive_line leaseRevoke_line leaseExpire_eq split: option.splits)

lemma step_wf: "fsm_wf f \<Longrightarrow> valid_command c \<Longrightarrow> fsm_wf (step c f)"
  by (simp add: step_def Apply_def exec_command_wf)

lemma run_simps [simp]: "run [] f = f" "run (c # cs) f = run cs (step c f)"
  "run (cs @ ds) f = run ds (run cs f)"
  by (simp_all add: run_def)

lemma run_wf: "fsm_wf f \<Longrightarrow> list_all valid_command cs \<Longrightarrow> fsm_wf (run cs f)"
  by (induction cs arbitrary: f) (auto simp: step_wf)

end
