(* ===== verification/Fsm_Fencing.thy ===== *)
theory Fsm_Fencing
  imports Fsm_Invariant
begin

text \<open>
  Fencing tokens and enqueue order. Both come from the counter \<open>seq\<close>, a \<^verbatim>\<open>uint64\<close>, so the argument
  has to rule out wrap-around. A promotion takes one waiter off a queue for the number it uses, and a
  waiter can only be in a queue because an earlier command put it there: the potential
  \<open>seq + number of waiters\<close> grows by at most two per command, however many keys a lease drop
  promotes. \<open>advances d f g\<close> collects what the argument needs of a transition from \<open>f\<close> to \<open>g\<close> that
  may raise the potential by \<open>d\<close>.
\<close>

definition total_waiters :: "fsm \<Rightarrow> nat" where
  "total_waiters f = fmsum (\<lambda>lk. length (lk_queue lk)) (locks f)"

definition potential :: "fsm \<Rightarrow> nat" where
  "potential f = unat (seq f) + total_waiters f"

text \<open>Issued numbers are at most \<open>seq\<close>, and the waiters of a queue are in enqueue order.\<close>

definition numbered_lock :: "u64 \<Rightarrow> lock \<Rightarrow> bool" where
  "numbered_lock n lk \<longleftrightarrow> lk_token lk \<le> n \<and> list_all (\<lambda>w. w_seq w \<le> n) (lk_queue lk) \<and>
     sorted_wrt (\<lambda>w w'. w_seq w < w_seq w') (lk_queue lk)"

definition numbered :: "fsm \<Rightarrow> bool" where
  "numbered f \<longleftrightarrow> (\<forall>k lk. fmlookup (locks f) k = Some lk \<longrightarrow> numbered_lock (seq f) lk)"

definition fresh_tokens :: "fsm \<Rightarrow> fsm \<Rightarrow> bool" where
  "fresh_tokens f g \<longleftrightarrow>
     (\<forall>k lk'. fmlookup (locks g) k = Some lk' \<longrightarrow>
        (\<exists>lk. fmlookup (locks f) k = Some lk \<and> lk_holder lk = lk_holder lk' \<and> lk_token lk = lk_token lk')
        \<or> seq f < lk_token lk')"

definition advances :: "nat \<Rightarrow> fsm \<Rightarrow> fsm \<Rightarrow> bool" where
  "advances d f g \<longleftrightarrow> seq f \<le> seq g \<and> potential g \<le> potential f + d \<and>
     fresh_tokens f g \<and> (numbered f \<longrightarrow> numbered g)"

lemma advances_refl [simp]: "advances d f f"
  by (auto simp: advances_def fresh_tokens_def)

lemma fresh_tokens_trans:
  assumes "fresh_tokens f g" "fresh_tokens g h" "seq f \<le> seq g"
  shows "fresh_tokens f h"
  unfolding fresh_tokens_def
proof (intro allI impI)
  fix k lk' assume "fmlookup (locks h) k = Some lk'"
  then consider (old) lk where "fmlookup (locks g) k = Some lk"
      "lk_holder lk = lk_holder lk'" "lk_token lk = lk_token lk'" | (new) "seq g < lk_token lk'"
    using assms(2) unfolding fresh_tokens_def by blast
  then show "(\<exists>lk. fmlookup (locks f) k = Some lk \<and> lk_holder lk = lk_holder lk' \<and>
      lk_token lk = lk_token lk') \<or> seq f < lk_token lk'"
  proof cases
    case old
    then show ?thesis using assms(1) unfolding fresh_tokens_def by metis
  next
    case new
    then show ?thesis using assms(3) by auto
  qed
qed

lemma advances_trans: "advances d f g \<Longrightarrow> advances e g h \<Longrightarrow> advances (d + e) f h"
  unfolding advances_def using fresh_tokens_trans by (metis add.assoc add.commute add_mono_thms_linordered_semiring(3) order_trans)

lemma advances_mono: "advances d f g \<Longrightarrow> d \<le> e \<Longrightarrow> advances e f g"
  by (auto simp: advances_def)

text \<open>Only the locks and the counter matter.\<close>

lemma advances_cong:
  "locks f = locks f' \<Longrightarrow> seq f = seq f' \<Longrightarrow> locks g = locks g' \<Longrightarrow> seq g = seq g' \<Longrightarrow>
   advances d f g = advances d f' g'"
  by (simp add: advances_def potential_def total_waiters_def fresh_tokens_def numbered_def)

subsection \<open>Elementary changes\<close>

lemma total_waiters_upd:
  "fmlookup (locks f) k = Some lk \<Longrightarrow>
   fmsum (\<lambda>lk. length (lk_queue lk)) (fmupd k lk' (locks f)) + length (lk_queue lk) =
     total_waiters f + length (lk_queue lk')"
  by (simp add: total_waiters_def fmsum_upd fmsum_drop)

lemma total_waiters_new:
  "fmlookup (locks f) k = None \<Longrightarrow>
   fmsum (\<lambda>lk. length (lk_queue lk)) (fmupd k lk' (locks f)) = total_waiters f + length (lk_queue lk')"
  by (simp add: total_waiters_def fmsum_upd fmsum_drop_absent)

lemma numbered_lock_mono: "numbered_lock n lk \<Longrightarrow> n \<le> m \<Longrightarrow> numbered_lock m lk"
  by (auto simp: numbered_lock_def list_all_iff intro: order_trans)

lemma numbered_upd:
  assumes "numbered f" "numbered_lock n lk" "seq f \<le> n" "locks g = fmupd k lk (locks f)" "seq g = n"
  shows "numbered g"
  using assms unfolding numbered_def by (auto intro: numbered_lock_mono split: if_splits)

lemma numbered_drop: "numbered f \<Longrightarrow> locks g = fmdrop k (locks f) \<Longrightarrow> seq g = seq f \<Longrightarrow> numbered g"
  by (auto simp: numbered_def)

lemma seq_succ:
  assumes "unat (s :: u64) + 1 < 2 ^ 64"
  shows "unat (s + 1) = unat s + 1" and "s < s + 1" and "s \<le> s + 1"
  using unat_plus_one_u64 [OF assms] by (simp_all add: word_less_nat_alt word_le_nat_alt)

text \<open>A key that is held or free gets a new holder and the next number; its queue is \<open>q\<close>.\<close>

lemma advances_retoken:
  assumes k: "fmlookup (locks f) k = Some lk"
    and g: "locks g = fmupd k lk' (locks f)" "seq g = seq f + 1" "lk_token lk' = seq f + 1"
    and q: "lk_queue lk = q1 @ w # lk_queue lk'"
    and b: "potential f < 2 ^ 64"
  shows "advances 0 f g"
proof -
  have l: "length (lk_queue lk') + 1 \<le> length (lk_queue lk)" using q by simp
  have "length (lk_queue lk) \<le> total_waiters f"
    unfolding total_waiters_def using fmsum_drop [OF k, of "\<lambda>lk. length (lk_queue lk)"] by simp
  with l b have r: "unat (seq f) + 1 < 2 ^ 64" by (simp add: potential_def)
  note s = seq_succ [OF r]
  have "total_waiters g + length (lk_queue lk) = total_waiters f + length (lk_queue lk')"
    using total_waiters_upd [OF k, of lk'] g(1) by (simp add: total_waiters_def)
  with l s have "potential g \<le> potential f" by (simp add: potential_def g(2))
  moreover have "numbered g" if n: "numbered f"
  proof (rule numbered_upd [OF n _ s(3) g(1,2)])
    have "numbered_lock (seq f) lk" using n k by (simp add: numbered_def)
    then have "numbered_lock (seq f + 1) lk" using s(3) by (rule numbered_lock_mono)
    then show "numbered_lock (seq f + 1) lk'" using q g(3) by (simp add: numbered_lock_def sorted_wrt_append)
  qed
  moreover have "fresh_tokens f g" using g s(2) by (auto simp: fresh_tokens_def)
  ultimately show ?thesis using s(3) by (simp add: advances_def g(2))
qed

text \<open>A lock changes in place, keeping its holder and its token, and its queue only shrinks.\<close>

lemma advances_same_holder:
  assumes k: "fmlookup (locks f) k = Some lk"
    and g: "locks g = fmupd k lk' (locks f)" "seq g = seq f"
    and lk': "lk_holder lk' = lk_holder lk" "lk_token lk' = lk_token lk"
    and q: "lk_queue lk' = lk_queue lk \<or> lk_queue lk' = remove_first P (lk_queue lk)"
  shows "advances 0 f g"
proof -
  have "length (lk_queue lk') \<le> length (lk_queue lk)" using q by (auto simp: length_remove_first)
  then have "potential g \<le> potential f"
    using total_waiters_upd [OF k, of lk'] g by (simp add: potential_def total_waiters_def)
  moreover have "numbered g" if n: "numbered f"
  proof (rule numbered_upd [OF n _ _ g])
    have "numbered_lock (seq f) lk" using n k by (simp add: numbered_def)
    then show "numbered_lock (seq f) lk'"
      using q lk' set_remove_first_subset [of P "lk_queue lk"]
      by (auto simp: numbered_lock_def list_all_iff sorted_wrt_remove_first)
  qed simp
  moreover have "fresh_tokens f g" using k g lk' by (auto simp: fresh_tokens_def)
  ultimately show ?thesis by (simp add: advances_def g)
qed

lemma advances_drop:
  assumes g: "locks g = fmdrop k (locks f)" "seq g = seq f"
  shows "advances 0 f g"
proof -
  have "total_waiters g \<le> total_waiters f"
  proof (cases "fmlookup (locks f) k")
    case None
    then show ?thesis by (simp add: total_waiters_def g fmsum_drop_absent)
  next
    case (Some lk)
    then show ?thesis
      using fmsum_drop [OF Some, of "\<lambda>lk. length (lk_queue lk)"] by (simp add: total_waiters_def g)
  qed
  then show ?thesis
    using numbered_drop [OF _ g] g by (auto simp: advances_def potential_def fresh_tokens_def)
qed

subsection \<open>Operations\<close>

lemma promote_loop_cases:
  obtains (free) "promote_loop f lk q =
      emit (f\<lparr>locks := fmdrop (lk_name lk) (locks f)\<rparr>) (lk_name lk) [] 0 None"
  | (next_waiter) q1 w q2 ls where "q = q1 @ w # q2" and "fmlookup (leases f) (w_clientID w) = Some ls"
      and "promote_loop f lk q = emit (f\<lparr>seq := seq f + 1,
          locks := fmupd (lk_name lk) (lk\<lparr>lk_queue := q2, lk_holder := w_clientID w,
            lk_token := seq f + 1, lk_value := w_value w\<rparr>) (locks f),
          leases := fmupd (w_clientID w) (ls\<lparr>ls_waiting := ls_waiting ls - {|lk_name lk|},
            ls_held := finsert (lk_name lk) (ls_held ls)\<rparr>) (leases f)\<rparr>)
          (lk_name lk) (w_clientID w) (seq f + 1) (w_value w)"
proof (induction q)
  case Nil
  from Nil(1) show ?case by simp
next
  case (Cons w q)
  show ?case
  proof (cases "fmlookup (leases f) (w_clientID w)")
    case None
    show ?thesis
    proof (rule Cons.IH)
      assume "promote_loop f lk q =
        emit (f\<lparr>locks := fmdrop (lk_name lk) (locks f)\<rparr>) (lk_name lk) [] 0 None"
      then show ?thesis using None by (intro Cons.prems(1)) simp
    next
      fix q1 w' q2 ls
      assume *: "q = q1 @ w' # q2" "fmlookup (leases f) (w_clientID w') = Some ls"
        "promote_loop f lk q = emit (f\<lparr>seq := seq f + 1,
          locks := fmupd (lk_name lk) (lk\<lparr>lk_queue := q2, lk_holder := w_clientID w',
            lk_token := seq f + 1, lk_value := w_value w'\<rparr>) (locks f),
          leases := fmupd (w_clientID w') (ls\<lparr>ls_waiting := ls_waiting ls - {|lk_name lk|},
            ls_held := finsert (lk_name lk) (ls_held ls)\<rparr>) (leases f)\<rparr>)
          (lk_name lk) (w_clientID w') (seq f + 1) (w_value w')"
      then show ?thesis using None by (intro Cons.prems(2) [of "w # q1" w' q2 ls]) simp_all
    qed
  next
    case (Some ls)
    then show ?thesis by (intro Cons.prems(2) [of "[]" w q ls]) (simp_all add: Let_def)
  qed
qed

lemma promote_advances:
  assumes "named f" and k: "fmlookup (locks f) k = Some lk" and "potential f < 2 ^ 64"
  shows "advances 0 f (promote f lk)"
proof -
  have nm: "lk_name lk = k" using named_name [OF assms(1) k] .
  show ?thesis
  proof (cases rule: promote_loop_cases [of f lk "lk_queue lk"])
    case free
    then show ?thesis using nm by (simp add: promote_def advances_drop)
  next
    case (next_waiter q1 w q2 ls)
    show ?thesis
      by (rule advances_retoken [OF k, of _ "lk\<lparr>lk_queue := q2, lk_holder := w_clientID w,
            lk_token := seq f + 1, lk_value := w_value w\<rparr>" q1 w])
        (use next_waiter nm assms(3) in \<open>simp_all add: promote_def\<close>)
  qed
qed

lemma promote_named: "named f \<Longrightarrow> fmlookup (locks f) k = Some lk \<Longrightarrow> named (promote f lk)"
  by (cases rule: promote_loop_cases [of f lk "lk_queue lk"])
    (simp_all add: promote_def named_fmdrop named_fmupd)

lemma grant_advances:
  assumes b: "potential f + 1 < 2 ^ 64"
  shows "advances 1 f (fst (grant f name ls v))"
proof -
  have r: "unat (seq f) + 1 < 2 ^ 64" using b by (simp add: potential_def)
  note s = seq_succ [OF r]
  define lk where "lk = (case fmlookup (locks f) name of
      None \<Rightarrow> \<lparr>lk_name = name, lk_holder = [], lk_token = 0, lk_value = None, lk_queue = []\<rparr>
    | Some lk \<Rightarrow> lk)"
  define lk' where "lk' = lk\<lparr>lk_holder := ls_clientID ls, lk_token := seq f + 1, lk_value := v\<rparr>"
  let ?g = "fst (grant f name ls v)"
  have g: "locks ?g = fmupd name lk' (locks f)" "seq ?g = seq f + 1"
    by (simp_all add: grant_def Let_def lk_def lk'_def)
  have "total_waiters ?g = total_waiters f"
    using total_waiters_upd [of f name _ lk'] total_waiters_new [of f name lk']
    by (cases "fmlookup (locks f) name") (simp_all add: total_waiters_def g lk'_def lk_def)
  then have "potential ?g \<le> potential f + 1" by (simp add: potential_def g s)
  moreover have "numbered ?g" if n: "numbered f"
  proof (rule numbered_upd [OF n _ s(3) g])
    have "numbered_lock (seq f) lk"
      using n by (auto simp: lk_def numbered_def numbered_lock_def split: option.splits)
    then have "numbered_lock (seq f + 1) lk" using s(3) by (rule numbered_lock_mono)
    then show "numbered_lock (seq f + 1) lk'" by (simp add: numbered_lock_def lk'_def)
  qed
  moreover have "fresh_tokens f ?g" using g s(2) by (auto simp: fresh_tokens_def lk'_def)
  ultimately show ?thesis using s(3) by (simp add: advances_def g)
qed

lemma enqueue_advances:
  assumes k: "fmlookup (locks f) k = Some lk" and b: "potential f + 2 < 2 ^ 64"
    and g: "locks g = fmupd k (lk\<lparr>lk_queue := lk_queue lk @ [w]\<rparr>) (locks f)" "seq g = seq f + 1"
    and w: "w_seq w = seq f + 1"
  shows "advances 2 f g"
proof -
  have r: "unat (seq f) + 1 < 2 ^ 64" using b by (simp add: potential_def)
  note s = seq_succ [OF r]
  have "potential g \<le> potential f + 2"
    using total_waiters_upd [OF k, of "lk\<lparr>lk_queue := lk_queue lk @ [w]\<rparr>"] g(1)
    by (simp add: potential_def total_waiters_def g(2) s)
  moreover have "numbered g" if n: "numbered f"
  proof (rule numbered_upd [OF n _ s(3) g])
    have o: "numbered_lock (seq f) lk" using n k by (simp add: numbered_def)
    then have "numbered_lock (seq f + 1) lk" using s(3) by (rule numbered_lock_mono)
    moreover have "\<forall>x\<in>set (lk_queue lk). w_seq x < w_seq w"
      using o s(2) w by (auto simp: numbered_lock_def list_all_iff)
    ultimately show "numbered_lock (seq f + 1) (lk\<lparr>lk_queue := lk_queue lk @ [w]\<rparr>)"
      using w by (simp add: numbered_lock_def sorted_wrt_append)
  qed
  moreover have "fresh_tokens f g" using k g by (auto simp: fresh_tokens_def)
  ultimately show ?thesis using s(3) by (simp add: advances_def g)
qed

lemma acquire_advances:
  assumes "potential f + 2 < 2 ^ 64"
  shows "advances 2 f (fst (acquire f name c v try))"
proof -
  have "advances 2 f (fst (grant f name ls v))" for ls
    using assms by (intro advances_mono [OF grant_advances]) simp_all
  moreover have "advances 2 f (f\<lparr>seq := seq f + 1, locks := fmupd name (lk\<lparr>lk_queue := lk_queue lk @
      [\<lparr>w_clientID = c, w_seq = seq f + 1, w_value = v\<rparr>]\<rparr>) (locks f), leases := M\<rparr>)"
    if "fmlookup (locks f) name = Some lk" for lk M
    by (rule enqueue_advances [OF that assms,
          where w = "\<lparr>w_clientID = c, w_seq = seq f + 1, w_value = v\<rparr>"]) auto
  ultimately show ?thesis by (auto simp: acquire_def Let_def split: option.splits)
qed

lemma release_advances:
  assumes "named f" "potential f < 2 ^ 64"
  shows "advances 0 f (fst (release f name c t))" and "named (fst (release f name c t))"
proof -
  have p: "advances 0 f (promote (f\<lparr>leases := M\<rparr>) lk) \<and> named (promote (f\<lparr>leases := M\<rparr>) lk)"
    if "fmlookup (locks f) name = Some lk" for lk M
  proof -
    have "advances 0 (f\<lparr>leases := M\<rparr>) (promote (f\<lparr>leases := M\<rparr>) lk)"
      by (rule promote_advances) (use that assms in \<open>simp_all add: potential_def total_waiters_def\<close>)
    moreover have "named (promote (f\<lparr>leases := M\<rparr>) lk)"
      by (rule promote_named) (use that assms in simp_all)
    ultimately show ?thesis
      using advances_cong [of f "f\<lparr>leases := M\<rparr>" "promote (f\<lparr>leases := M\<rparr>) lk" _ 0] by simp
  qed
  show "advances 0 f (fst (release f name c t))"
  proof (cases "fmlookup (locks f) name")
    case (Some lk)
    with p [OF Some, of "leases f"] p [OF Some] show ?thesis
      by (cases "fmlookup (leases f) c") (simp_all add: release_def Let_def)
  qed (simp add: release_def)
  show "named (fst (release f name c t))"
  proof (cases "fmlookup (locks f) name")
    case (Some lk)
    with p [OF Some, of "leases f"] p [OF Some] assms(1) show ?thesis
      by (cases "fmlookup (leases f) c") (simp_all add: release_def Let_def)
  qed (simp add: release_def assms(1))
qed

text \<open>The two in-place changes of the operations, with the lease table left open.\<close>

lemma advances_remove_waiter:
  "fmlookup (locks f) k = Some lk \<Longrightarrow>
   advances 0 f (f\<lparr>locks := fmupd k (lk\<lparr>lk_queue := remove_first P (lk_queue lk)\<rparr>) (locks f)\<rparr>)"
  "fmlookup (locks f) k = Some lk \<Longrightarrow>
   advances 0 f (f\<lparr>locks := fmupd k (lk\<lparr>lk_queue := remove_first P (lk_queue lk)\<rparr>) (locks f),
     leases := M\<rparr>)"
  by (erule advances_same_holder [where P = P and lk' = "lk\<lparr>lk_queue := remove_first P (lk_queue lk)\<rparr>"],
      simp_all)+

lemma advances_set_value:
  "fmlookup (locks f) k = Some lk \<Longrightarrow>
   advances 0 f (emit (f\<lparr>locks := fmupd k (lk\<lparr>lk_value := v\<rparr>) (locks f)\<rparr>) n h t v)"
  by (erule advances_same_holder [where lk' = "lk\<lparr>lk_value := v\<rparr>"]) simp_all

lemma cancelWait_advances: "advances 0 f (fst (cancelWait f name c))"
  by (simp add: cancelWait_def Let_def advances_remove_waiter split: option.splits)

lemma proclaim_advances: "advances 0 f (fst (proclaim f name c t v))"
  by (simp add: proclaim_def Let_def advances_set_value split: option.splits)

lemma advances_potential: "advances 0 f g \<Longrightarrow> potential f < 2 ^ 64 \<Longrightarrow> potential g < 2 ^ 64"
  by (simp add: advances_def)

lemma fold_dropLease_held_advances:
  "named f \<Longrightarrow> potential f < 2 ^ 64 \<Longrightarrow>
   advances 0 f (fold (dropLease_held c) ks f) \<and> named (fold (dropLease_held c) ks f)"
proof (induction ks arbitrary: f)
  case Nil
  then show ?case by simp
next
  case (Cons k ks)
  have s: "advances 0 f (dropLease_held c k f)" "named (dropLease_held c k f)"
    using Cons.prems promote_advances promote_named
    by (auto simp: dropLease_held_def split: option.splits)
  with Cons.IH [OF s(2) advances_potential [OF s(1) Cons.prems(2)]] show ?case
    using advances_trans [OF s(1), of 0] by simp
qed

lemma fold_dropLease_waiting_advances:
  "named f \<Longrightarrow> advances 0 f (fold (dropLease_waiting c) ks f)"
proof (induction ks arbitrary: f)
  case Nil
  then show ?case by simp
next
  case (Cons k ks)
  have "advances 0 f (dropLease_waiting c k f)"
    by (simp add: dropLease_waiting_def advances_remove_waiter split: option.splits)
  then show ?case
    using Cons.IH [OF dropLease_waiting_named [OF Cons.prems]] advances_trans [of 0 f _ 0] by simp
qed

lemma dropLease_advances:
  assumes "named f" "potential f < 2 ^ 64"
  shows "advances 0 f (dropLease f ls)" and "named (dropLease f ls)"
proof -
  define f1 where "f1 = fold (dropLease_held (ls_clientID ls)) (sorted_list_of_fset (ls_held ls)) f"
  have 1: "advances 0 f f1" "named f1" using fold_dropLease_held_advances [OF assms] by (simp_all add: f1_def)
  define ks where "ks = sorted_list_of_fset (case fmlookup (leases f1) (ls_clientID ls) of
      None \<Rightarrow> ls_waiting ls | Some ls1 \<Rightarrow> ls_waiting ls1)"
  have d: "distinct ks" by (simp add: ks_def)
  have *: "dropLease f ls = (fold (dropLease_waiting (ls_clientID ls)) ks f1)
        \<lparr>leases := fmdrop (ls_clientID ls) (leases (fold (dropLease_waiting (ls_clientID ls)) ks f1))\<rparr>"
    by (simp only: dropLease_def f1_def [symmetric] ks_def Let_def)
  have "advances 0 f1 (dropLease f ls)"
    using fold_dropLease_waiting_advances [OF 1(2), of "ls_clientID ls" ks]
    by (subst advances_cong [of f1 f1 _ "fold (dropLease_waiting (ls_clientID ls)) ks f1"]) (simp_all add: *)
  with 1(1) show "advances 0 f (dropLease f ls)" using advances_trans [of 0 f f1 0] by simp
  show "named (dropLease f ls)" using fold_dropLease_waiting [OF d] 1(2) by (simp add: *)
qed

text \<open>One command raises the potential by at most two.\<close>

lemma advances_leases [simp]: "advances d f (f\<lparr>leases := M\<rparr>)"
  by (rule advances_cong [THEN iffD1, OF refl refl _ _ advances_refl]) simp_all

lemma acquire_named:
  "named f \<Longrightarrow> named (fst (acquire f name c v try))"
  by (auto simp: acquire_def grant_def Let_def named_def split: option.splits)

lemma cancelWait_named: "named f \<Longrightarrow> named (fst (cancelWait f name c))"
  by (auto simp: cancelWait_def Let_def named_def split: option.splits)

lemma proclaim_named: "named f \<Longrightarrow> named (fst (proclaim f name c t v))"
  by (auto simp: proclaim_def Let_def named_def split: option.splits)

lemma lease_command_advances:
  assumes "named f" "potential f < 2 ^ 64"
  shows "advances 0 f (fst (leaseGrant f c ttl now))" "named (fst (leaseGrant f c ttl now))"
    "advances 0 f (fst (leaseKeepAlive f c now))" "named (fst (leaseKeepAlive f c now))"
    "advances 0 f (fst (leaseRevoke f c))" "named (fst (leaseRevoke f c))"
    "advances 0 f (fst (leaseExpire f c now))" "named (fst (leaseExpire f c now))"
  using assms dropLease_advances [OF assms]
  by (auto simp: leaseGrant_def leaseKeepAlive_def leaseRevoke_def leaseExpire_def Let_def
      split: option.splits)

lemma exec_command_advances:
  assumes n: "named f" and b: "potential f + 2 < 2 ^ 64"
  shows "advances 2 f (fst (exec_command f c))" and "named (fst (exec_command f c))"
proof -
  have b0: "potential f < 2 ^ 64" using b by simp
  have m: "advances 0 f g \<Longrightarrow> advances 2 f g" for g using advances_mono [of 0 f g 2] by simp
  show "advances 2 f (fst (exec_command f c))"
    by (cases c) (simp_all add: acquire_advances [OF b] m release_advances [OF n b0]
      cancelWait_advances proclaim_advances lease_command_advances [OF n b0])
  show "named (fst (exec_command f c))"
    by (cases c) (simp_all add: acquire_named cancelWait_named proclaim_named n
      release_advances [OF n b0] lease_command_advances [OF n b0])
qed

lemma step_advances:
  assumes "named f" "potential f + 2 < 2 ^ 64"
  shows "advances 2 f (step c f)" and "named (step c f)"
proof -
  let ?f = "f\<lparr>revision := revision f + 1\<rparr>"
  have e: "step c f = fst (exec_command ?f c)" by (simp add: step_def Apply_def)
  have "named ?f" "potential ?f + 2 < 2 ^ 64"
    using assms by (simp_all add: potential_def total_waiters_def)
  note x = exec_command_advances [OF this, of c]
  show "advances 2 f (step c f)" using x(1) advances_cong [of f ?f "step c f" "step c f" 2] by (simp add: e)
  show "named (step c f)" using x(2) by (simp add: e)
qed

lemma run_advances:
  assumes "named f" "potential f + 2 * length cs < 2 ^ 64"
  shows "advances (2 * length cs) f (run cs f) \<and> named (run cs f)"
  using assms
proof (induction cs arbitrary: f)
  case Nil
  then show ?case by simp
next
  case (Cons c cs)
  have s: "advances 2 f (step c f)" "named (step c f)"
    using step_advances [of f c] Cons.prems by simp_all
  then have "potential (step c f) + 2 * length cs < 2 ^ 64" using Cons.prems(2) by (simp add: advances_def)
  from Cons.IH [OF s(2) this] show ?case using advances_trans [OF s(1)] by (auto simp: algebra_simps)
qed

end
