(* ===== verification/Fsm_Spec.thy ===== *)
theory Fsm_Spec
  imports Fsm_Fencing "HOL-Library.Sublist"
begin

text \<open>
  What a shard promises its clients. The abstract service keeps one line of clients per key (the
  head holds the key) and one deadline per leased client; \<open>service_line\<close> and \<open>service_lease\<close> say what
  each command does to them. The state machine refines it: the lines and leases of the concrete state
  after a command are the abstract ones. The properties of holders, queues and fencing tokens follow.
\<close>

type_synonym lease_table = "string \<Rightarrow> (i64 \<times> i64) option"
type_synonym lines = "string \<Rightarrow> string list"

definition lease_of :: "fsm \<Rightarrow> lease_table" where
  "lease_of f c = map_option (\<lambda>ls. (ls_ttlMS ls, ls_expireAt ls)) (fmlookup (leases f) c)"

definition token_of :: "fsm \<Rightarrow> string \<Rightarrow> u64" where
  "token_of f k = (case fmlookup (locks f) k of None \<Rightarrow> 0 | Some lk \<Rightarrow> lk_token lk)"

subsection \<open>The abstract service\<close>

definition join_line :: "lease_table \<Rightarrow> string \<Rightarrow> string \<Rightarrow> bool \<Rightarrow> lines \<Rightarrow> lines" where
  "join_line D k c try L =
     (if D c = None \<or> c \<in> set (L k) \<or> try \<and> L k \<noteq> [] then L else L(k := L k @ [c]))"

definition leave_head :: "(string \<Rightarrow> u64) \<Rightarrow> string \<Rightarrow> string \<Rightarrow> u64 \<Rightarrow> lines \<Rightarrow> lines" where
  "leave_head T k c t L = (if L k \<noteq> [] \<and> hd (L k) = c \<and> T k = t then L(k := tl (L k)) else L)"

fun service_line :: "(string \<Rightarrow> u64) \<Rightarrow> lease_table \<Rightarrow> command \<Rightarrow> lines \<Rightarrow> lines" where
  "service_line T D (AcquireLock k c try) L = join_line D k c try L"
| "service_line T D (Campaign k c v) L = join_line D k c False L"
| "service_line T D (ReleaseLock k c t) L = leave_head T k c t L"
| "service_line T D (Resign k c t) L = leave_head T k c t L"
| "service_line T D (CancelWait k c) L =
     (if c \<in> set (tl (L k)) then L(k := remove1 c (L k)) else L)"
| "service_line T D (LeaseRevoke c) L = (\<lambda>k. remove1 c (L k))"
| "service_line T D (LeaseExpire c now) L =
     (case D c of
        None \<Rightarrow> L
      | Some (ttl, deadline) \<Rightarrow> if now <s deadline then L else (\<lambda>k. remove1 c (L k)))"
| "service_line T D _ L = L"

fun service_lease :: "command \<Rightarrow> lease_table \<Rightarrow> lease_table" where
  "service_lease (LeaseGrant c ttl now) D = D(c \<mapsto> (ttl, now + ttl * 1000000))"
| "service_lease (LeaseKeepAlive c now) D =
     (case D c of None \<Rightarrow> D | Some (ttl, _) \<Rightarrow> D(c \<mapsto> (ttl, now + ttl * 1000000)))"
| "service_lease (LeaseRevoke c) D = D(c := None)"
| "service_lease (LeaseExpire c now) D =
     (case D c of
        None \<Rightarrow> D | Some (_, deadline) \<Rightarrow> if now <s deadline then D else D(c := None))"
| "service_lease _ D = D"

subsection \<open>Refinement\<close>

lemma lease_of_frame [simp]:
  "lease_of (f\<lparr>locks := M\<rparr>) = lease_of f" "lease_of (f\<lparr>seq := n\<rparr>) = lease_of f"
  "lease_of (f\<lparr>revision := n\<rparr>) = lease_of f" "lease_of (emit f k h t v) = lease_of f"
  by (simp_all add: lease_of_def fun_eq_iff)

lemma lease_of_upd [simp]:
  "lease_of (f\<lparr>leases := fmupd c ls (leases g)\<rparr>) = (lease_of g)(c \<mapsto> (ls_ttlMS ls, ls_expireAt ls))"
  "lease_of (f\<lparr>leases := fmdrop c (leases g)\<rparr>) = (lease_of g)(c := None)"
  by (auto simp: lease_of_def fun_eq_iff)

lemma lease_of_Some: "fmlookup (leases f) c = Some ls \<Longrightarrow> lease_of f c = Some (ls_ttlMS ls, ls_expireAt ls)"
  by (simp add: lease_of_def)

lemma lease_of_absent: "fmlookup (leases f) c = None \<Longrightarrow> lease_of f c = None"
  by (simp add: lease_of_def)

lemma lease_of_None [simp]: "lease_of f c = None \<longleftrightarrow> c |\<notin>| fmdom (leases f)"
  by (auto simp: lease_of_def fmlookup_dom_iff)

lemma lease_of_idem [simp]:
  "fmlookup (leases f) c = Some ls \<Longrightarrow> (lease_of f)(c \<mapsto> (ls_ttlMS ls, ls_expireAt ls)) = lease_of f"
  by (simp add: lease_of_Some fun_upd_idem)

lemma promote_lease_of: "lease_of (promote f lk) = lease_of f"
  by (cases rule: promote_loop_cases [of f lk "lk_queue lk"]) (simp_all add: promote_def)

lemma lock_command_lease_of:
  assumes "fsm_wf f"
  shows "lease_of (fst (acquire f name c v try)) = lease_of f"
    "lease_of (fst (release f name c t)) = lease_of f"
    "lease_of (fst (cancelWait f name c)) = lease_of f"
    "lease_of (fst (proclaim f name c t v)) = lease_of f"
proof -
  have id: "fmlookup (leases f) c = Some ls \<Longrightarrow> ls_clientID ls = c" for ls
    using indexedD(3) [OF fsm_wfD(2) [OF assms]] .
  show "lease_of (fst (acquire f name c v try)) = lease_of f"
    using id by (auto simp: acquire_def grant_def Let_def split: option.splits)
  show "lease_of (fst (release f name c t)) = lease_of f"
    by (auto simp: release_def Let_def promote_lease_of split: option.splits)
  show "lease_of (fst (cancelWait f name c)) = lease_of f"
    by (auto simp: cancelWait_def Let_def split: option.splits)
  show "lease_of (fst (proclaim f name c t v)) = lease_of f"
    by (auto simp: proclaim_def Let_def split: option.splits)
qed

lemma fold_lease_of:
  "lease_of (fold (dropLease_held c) ks f) = lease_of f"
  "lease_of (fold (dropLease_waiting c) ks f) = lease_of f"
  by (induction ks arbitrary: f)
    (auto simp: dropLease_held_def dropLease_waiting_def promote_lease_of split: option.splits)

lemma dropLease_lease_of:
  "lease_of (dropLease f ls) = (lease_of f)(ls_clientID ls := None)"
  by (simp add: dropLease_def Let_def fold_lease_of)

lemma holds_with_line:
  "holds_with f k c t \<longleftrightarrow> line f k \<noteq> [] \<and> hd (line f k) = c \<and> token_of f k = t"
  by (auto simp: holds_with_def line_def lock_line_def token_of_def split: option.splits)

lemma exec_refines_line:
  assumes w: "fsm_wf f" and "valid_command c"
  shows "line (fst (exec_command f c)) = service_line (token_of f) (lease_of f) c (line f)"
proof (cases c)
  case (LeaseExpire d now)
  then show ?thesis
    using leaseRevoke_line(1) [OF w]
    by (auto simp: leaseExpire_eq lease_of_def split: option.splits)
qed (use assms in \<open>simp_all add: acquire_line join_line_def release_line leave_head_def holds_with_line
      cancelWait_line proclaim_line leaseGrant_line leaseKeepAlive_line leaseRevoke_line\<close>)

lemma exec_refines_lease:
  assumes w: "fsm_wf f"
  shows "lease_of (fst (exec_command f c)) = service_lease c (lease_of f)"
proof -
  have id: "fmlookup (leases f) d = Some ls \<Longrightarrow> ls_clientID ls = d" for d ls
    using indexedD(3) [OF fsm_wfD(2) [OF w]] .
  show ?thesis
    by (cases c) (auto simp: lock_command_lease_of [OF w] leaseGrant_def leaseKeepAlive_def leaseRevoke_def
        leaseExpire_def leaseDeadline_def Let_def dropLease_lease_of id lease_of_Some
        lease_of_absent fun_upd_idem simp del: lease_of_None split: option.splits)
qed

lemma token_of_revision [simp]: "token_of (f\<lparr>revision := n\<rparr>) = token_of f"
  by (simp add: token_of_def fun_eq_iff)

lemma step_refines:
  assumes "fsm_wf f" and "valid_command c"
  shows "line (step c f) = service_line (token_of f) (lease_of f) c (line f)"
    and "lease_of (step c f) = service_lease c (lease_of f)"
  using exec_refines_line [of "f\<lparr>revision := revision f + 1\<rparr>" c]
    exec_refines_lease [of "f\<lparr>revision := revision f + 1\<rparr>" c] assms
  by (simp_all add: step_def Apply_def)

subsection \<open>Tenures\<close>

text \<open>A tenure is a holder with the token it was granted; it lasts as long as the holder does.\<close>

definition tenure :: "fsm \<Rightarrow> string \<Rightarrow> (string \<times> u64) option" where
  "tenure f k = map_option (\<lambda>lk. (lk_holder lk, lk_token lk)) (fmlookup (locks f) k)"

lemma tenure_frame [simp]:
  "tenure (f\<lparr>leases := M\<rparr>) = tenure f" "tenure (f\<lparr>seq := n\<rparr>) = tenure f"
  "tenure (f\<lparr>revision := n\<rparr>) = tenure f" "tenure (emit f k h t v) = tenure f"
  by (simp_all add: tenure_def fun_eq_iff)

lemma tenure_upd [simp]:
  "tenure (f\<lparr>locks := fmupd k lk (locks g)\<rparr>) = (tenure g)(k \<mapsto> (lk_holder lk, lk_token lk))"
  "tenure (f\<lparr>locks := fmdrop k (locks g)\<rparr>) = (tenure g)(k := None)"
  by (auto simp: tenure_def fun_eq_iff)

lemma tenure_Some: "fmlookup (locks f) k = Some lk \<Longrightarrow> tenure f k = Some (lk_holder lk, lk_token lk)"
  by (simp add: tenure_def)

lemma tenure_line: "tenure f k = Some (h, t) \<longleftrightarrow> (\<exists>q. line f k = h # q) \<and> token_of f k = t"
  by (auto simp: tenure_def line_def lock_line_def token_of_def split: option.splits)

lemma tenure_None: "tenure f k = None \<longleftrightarrow> line f k = []"
  by (simp add: tenure_def)

lemma promote_tenure:
  "named f \<Longrightarrow> fmlookup (locks f) name = Some lk \<Longrightarrow> k \<noteq> name \<Longrightarrow> tenure (promote f lk) k = tenure f k"
  using named_name [of f name lk]
  by (cases rule: promote_loop_cases [of f lk "lk_queue lk"]) (simp_all add: promote_def)

lemma acquire_tenure:
  assumes "fsm_wf f" "tenure f k = Some x"
  shows "tenure (fst (acquire f name c v try)) k = Some x"
  using assms lock_holder_nonempty [OF fsm_wfD(2) [OF assms(1)], of name]
  by (auto simp: acquire_def grant_def Let_def tenure_Some split: option.splits)
    (auto simp: tenure_def)

lemma release_tenure:
  assumes "fsm_wf f" and "k \<noteq> name \<or> \<not> holds_with f name c t"
  shows "tenure (fst (release f name c t)) k = tenure f k"
proof (cases "holds_with f name c t")
  case False
  with assms(1) show ?thesis by (simp add: release_rejected)
next
  case True
  then obtain lk ls where "fmlookup (locks f) name = Some lk" and "fst (release f name c t) =
      promote (f\<lparr>leases := fmupd c (ls\<lparr>ls_held := ls_held ls - {|name|}\<rparr>) (leases f)\<rparr>) lk"
    by (rule release_accepted [OF assms(1)])
  then show ?thesis using True assms fsm_wfD(1) by (simp add: promote_tenure)
qed

lemma queue_command_tenure:
  "tenure (fst (cancelWait f name c)) = tenure f"
  "tenure (fst (proclaim f name c t v)) = tenure f"
  by (auto simp: cancelWait_def proclaim_def Let_def tenure_def fun_eq_iff split: option.splits)

lemma fold_dropLease_held_tenure:
  assumes "named f" and "tenure f k = Some (h, t)" and "h \<noteq> c"
  shows "tenure (fold (dropLease_held c) ks f) k = Some (h, t)"
  using assms
proof (induction ks arbitrary: f)
  case Nil
  then show ?case by simp
next
  case (Cons n ks)
  have "named (dropLease_held c n f)"
    using Cons.prems(1) by (auto simp: dropLease_held_def promote_named split: option.splits)
  moreover have "tenure (dropLease_held c n f) k = Some (h, t)"
  proof (cases "\<exists>lk. fmlookup (locks f) n = Some lk \<and> lk_holder lk = c")
    case True
    then obtain lk where lk: "fmlookup (locks f) n = Some lk" "lk_holder lk = c" by blast
    then have "k \<noteq> n" using Cons.prems(2,3) by (auto simp: tenure_def)
    then show ?thesis using lk promote_tenure [OF Cons.prems(1) lk(1)] Cons.prems(2)
      by (simp add: dropLease_held_def)
  qed (use Cons.prems in \<open>auto simp: dropLease_held_def split: option.splits\<close>)
  ultimately show ?case using Cons.IH Cons.prems(3) by simp
qed

lemma fold_dropLease_waiting_tenure: "tenure (fold (dropLease_waiting c) ks f) = tenure f"
proof (induction ks arbitrary: f)
  case (Cons n ks)
  then show ?case
    by (auto simp: dropLease_waiting_def tenure_def fun_eq_iff split: option.splits)
qed simp

lemma dropLease_tenure:
  "named f \<Longrightarrow> tenure f k = Some (h, t) \<Longrightarrow> h \<noteq> ls_clientID ls \<Longrightarrow>
   tenure (dropLease f ls) k = Some (h, t)"
  by (simp add: dropLease_def Let_def fold_dropLease_waiting_tenure fold_dropLease_held_tenure)

text \<open>A tenure ends only when its holder leaves the head of the line.\<close>

lemma leaseRevoke_tenure:
  assumes w: "fsm_wf f" and "tenure f k = Some (h, t)" and "h \<noteq> c"
  shows "tenure (fst (leaseRevoke f c)) k = Some (h, t)"
  using assms dropLease_tenure [OF fsm_wfD(1) [OF w]] indexedD(3) [OF fsm_wfD(2) [OF w]]
  by (auto simp: leaseRevoke_def Let_def split: option.splits)

lemma exec_tenure:
  assumes w: "fsm_wf f" and v: "valid_command c" and t: "tenure f k = Some (h, t)"
    and same: "hd (line (fst (exec_command f c)) k) = h" "line (fst (exec_command f c)) k \<noteq> []"
  shows "tenure (fst (exec_command f c)) k = Some (h, t)"
proof -
  from t obtain q where l: "line f k = h # q" by (auto simp: tenure_line)
  have d: "h \<notin> set q" using indexedD(1) [OF fsm_wfD(2) [OF w], of k] l by simp
  have rel: ?thesis if e: "fst (exec_command f c) = fst (release f n d u)" for n d u
  proof (cases "k \<noteq> n \<or> \<not> holds_with f n d u")
    case True
    then show ?thesis using release_tenure [OF w True] t e by simp
  next
    case False
    then show ?thesis using release_line(1) [OF w, of n d u] same e l d by (cases q) auto
  qed
  have rev: ?thesis if e: "fst (exec_command f c) = fst (leaseRevoke f d)" for d
  proof (cases "h = d")
    case True
    then show ?thesis using leaseRevoke_line(1) [OF w, of d] same e l d by (cases q) auto
  next
    case False
    then show ?thesis using leaseRevoke_tenure [OF w t False] e by simp
  qed
  show ?thesis
  proof (cases c)
    case (ReleaseLock n d u)
    then show ?thesis using rel [of n d u] by simp
  next
    case (Resign n d u)
    then show ?thesis using rel [of n d u] by simp
  next
    case (LeaseRevoke d)
    then show ?thesis using rev [of d] by simp
  next
    case (LeaseExpire d now)
    then show ?thesis using t rev [of d] by (auto simp: leaseExpire_eq split: option.splits if_splits)
  qed (use t in \<open>auto simp: acquire_tenure [OF w] queue_command_tenure leaseGrant_def
        leaseKeepAlive_def Let_def split: option.splits\<close>)
qed

subsection \<open>The service as a step relation\<close>

text \<open>
  An abstract state also has the token of each line and a bound on the tokens issued so far. A step
  moves the lines and the leases as above; a line that keeps its head keeps its token, and a new head
  gets some token above every token issued before.
\<close>

record service =
  sv_line :: lines
  sv_token :: "string \<Rightarrow> u64"
  sv_lease :: lease_table
  sv_issued :: u64

definition service_of :: "fsm \<Rightarrow> service" where
  "service_of f = \<lparr>sv_line = line f, sv_token = token_of f, sv_lease = lease_of f, sv_issued = seq f\<rparr>"

definition token_step :: "service \<Rightarrow> service \<Rightarrow> string \<Rightarrow> bool" where
  "token_step s s' k \<longleftrightarrow>
     (if sv_line s k \<noteq> [] \<and> hd (sv_line s' k) = hd (sv_line s k)
      then sv_token s' k = sv_token s k
      else sv_issued s < sv_token s' k \<and> sv_token s' k \<le> sv_issued s')"

inductive service_step :: "command \<Rightarrow> service \<Rightarrow> service \<Rightarrow> bool" for c s s' where
  service_stepI:
    "sv_line s' = service_line (sv_token s) (sv_lease s) c (sv_line s) \<Longrightarrow>
     sv_lease s' = service_lease c (sv_lease s) \<Longrightarrow>
     sv_issued s \<le> sv_issued s' \<Longrightarrow>
     (\<And>k. sv_line s' k \<noteq> [] \<Longrightarrow> token_step s s' k) \<Longrightarrow>
     service_step c s s'"

inductive service_run :: "command list \<Rightarrow> service \<Rightarrow> service \<Rightarrow> bool" where
  service_run_Nil: "service_run [] s s"
| service_run_Cons: "service_step c s s' \<Longrightarrow> service_run cs s' s'' \<Longrightarrow> service_run (c # cs) s s''"

inductive_cases service_stepE: "service_step c s s'"
inductive_simps service_run_simps [simp]: "service_run [] s s'" "service_run (c # cs) s s'"

text \<open>A shard state the simulation applies to: well-formed, with numbers left for \<open>n\<close> commands.\<close>

definition in_service :: "nat \<Rightarrow> fsm \<Rightarrow> bool" where
  "in_service n f \<longleftrightarrow> fsm_wf f \<and> numbered f \<and> potential f + 2 * n < 2 ^ 64"

lemma in_service_New [simp]: "in_service n (New es) \<longleftrightarrow> n < 2 ^ 63"
  by (auto simp: in_service_def numbered_def potential_def total_waiters_def New_def
      fsm_wf_New [unfolded New_def] fmsum_empty)

lemma in_service_mono: "in_service n f \<Longrightarrow> m \<le> n \<Longrightarrow> in_service m f"
  by (auto simp: in_service_def)

lemma in_service_step:
  assumes "in_service (Suc n) f" "valid_command c"
  shows "in_service n (step c f)" and "advances 2 f (step c f)"
proof -
  have a: "advances 2 f (step c f)"
    using assms step_advances [of f c] fsm_wfD(1) [of f] by (simp add: in_service_def)
  show "advances 2 f (step c f)" by (rule a)
  show "in_service n (step c f)"
    using assms a step_wf by (auto simp: in_service_def advances_def)
qed

lemma in_service_run:
  "in_service (length cs + n) f \<Longrightarrow> list_all valid_command cs \<Longrightarrow> in_service n (run cs f)"
  by (induction cs arbitrary: f) (auto dest: in_service_step(1))

lemma step_tenure:
  assumes w: "fsm_wf f" and v: "valid_command c" and t: "tenure f k = Some (h, t)"
    and l: "line (step c f) k \<noteq> []" and h: "hd (line (step c f) k) = h"
  shows "tenure (step c f) k = Some (h, t)"
  unfolding step_def Apply_def option.case
  by (rule exec_tenure) (use assms in \<open>simp_all add: step_def Apply_def\<close>)

lemma fresh_tokens_new_holder:
  assumes "fresh_tokens f g" "fmlookup (locks g) k = Some lk'"
    and "\<And>lk. fmlookup (locks f) k = Some lk \<Longrightarrow> lk_holder lk \<noteq> lk_holder lk'"
  shows "seq f < lk_token lk'"
  using assms unfolding fresh_tokens_def by metis

lemma step_refines_service:
  assumes i: "in_service (Suc n) f" and v: "valid_command c"
  shows "service_step c (service_of f) (service_of (step c f))"
proof (rule service_stepI)
  have w: "fsm_wf f" using i by (simp add: in_service_def)
  note a = in_service_step [OF i v]
  show "sv_line (service_of (step c f)) = service_line (sv_token (service_of f))
      (sv_lease (service_of f)) c (sv_line (service_of f))"
    and "sv_lease (service_of (step c f)) = service_lease c (sv_lease (service_of f))"
    using step_refines [OF w v] by (simp_all add: service_of_def)
  show "sv_issued (service_of f) \<le> sv_issued (service_of (step c f))"
    using a(2) by (simp add: service_of_def advances_def)
  fix k assume "sv_line (service_of (step c f)) k \<noteq> []"
  then have l: "line (step c f) k \<noteq> []" by (simp add: service_of_def)
  then obtain lk' where lk': "fmlookup (locks (step c f)) k = Some lk'" by auto
  have hd': "hd (line (step c f) k) = lk_holder lk'" "token_of (step c f) k = lk_token lk'"
    using lk' by (simp_all add: line_def lock_line_def token_of_def)
  show "token_step (service_of f) (service_of (step c f)) k"
  proof (cases "line f k \<noteq> [] \<and> hd (line (step c f) k) = hd (line f k)")
    case True
    then obtain lk where lk: "fmlookup (locks f) k = Some lk" by auto
    have "tenure f k = Some (hd (line f k), token_of f k)"
      using lk by (simp add: tenure_def line_def lock_line_def token_of_def)
    from step_tenure [OF w v this l] True show ?thesis
      by (simp add: token_step_def service_of_def tenure_line)
  next
    case False
    have "seq f < lk_token lk'"
      by (rule fresh_tokens_new_holder [OF _ lk'])
        (use a(2) False hd' in \<open>auto simp: advances_def line_def lock_line_def\<close>)
    moreover have "lk_token lk' \<le> seq (step c f)"
      using a(1) lk' by (auto simp: in_service_def numbered_def numbered_lock_def)
    ultimately show ?thesis using False hd' by (auto simp: token_step_def service_of_def)
  qed
qed

lemma run_refines_service_from:
  assumes "in_service (length cs) f" "list_all valid_command cs"
  shows "service_run cs (service_of f) (service_of (run cs f))"
  using assms
proof (induction cs arbitrary: f)
  case (Cons c cs)
  then show ?case using step_refines_service [of "length cs" f c] in_service_step(1) [of "length cs" f c]
    by auto
qed simp

end
