(* ===== verification/Fsm_Correct.thy ===== *)
theory Fsm_Correct
  imports Fsm_Spec
begin

text \<open>
  The correctness properties of a shard's state machine, for every state a log of commands reaches
  from \<^const>\<open>New\<close>: the invariant, the refinement of the abstract service, fencing, the tenure of
  holders, the queue discipline, the answers given to clients, and lease expiry.
\<close>

lemma reachable_in_service:
  assumes "list_all valid_command cs" and "length cs + n < 2 ^ 63"
  shows "in_service n (run cs (New es))"
  by (rule in_service_run) (use assms in simp_all)

lemmas run_append = run_simps(3)

subsection \<open>Invariant and refinement\<close>

text \<open>C1. Every state reached from an empty shard by a log of commands, in which leases are granted to
  named clients only, is well-formed: each lock is filed under its own name, no client stands twice
  in a line, everyone in a line has a live lease, and the \<open>held\<close> and \<open>waiting\<close> index of every lease
  lists exactly the keys the client holds and waits for.\<close>

theorem reachable_wf: "list_all valid_command cs \<Longrightarrow> fsm_wf (run cs (New es))"
  by (simp add: run_wf)

theorem reachable_wf_witness:
  "fsm_wf (run [LeaseGrant ''a'' 1000 0, LeaseGrant ''b'' 1000 0, AcquireLock ''/k'' ''a'' False,
     AcquireLock ''/k'' ''b'' False, LeaseRevoke ''a''] (New None))"
  by (rule reachable_wf) simp

text \<open>C2. The state machine refines the abstract lock service. For any log of fewer than \<open>2^63\<close>
  commands, the lines, tokens and leases of the concrete states are a run of the service: every
  command moves lines and leases as the service says, a line that keeps its head keeps its token, and
  each new head gets a token above all tokens issued before it.\<close>

theorem run_refines_service:
  assumes "list_all valid_command cs" and "length cs < 2 ^ 63"
  shows "service_run cs (service_of (New es)) (service_of (run cs (New es)))"
  using run_refines_service_from [of cs "New es"] assms by simp

theorem run_refines_service_witness:
  "service_run [LeaseGrant ''a'' 1000 0, AcquireLock ''/k'' ''a'' False, ReleaseLock ''/k'' ''a'' 1]
     (service_of (New None))
     (service_of (run [LeaseGrant ''a'' 1000 0, AcquireLock ''/k'' ''a'' False, ReleaseLock ''/k'' ''a'' 1]
       (New None)))"
  by (rule run_refines_service) simp_all

subsection \<open>Fencing\<close>

lemma later_tenure:
  assumes v: "list_all valid_command (cs @ ds)" and n: "length (cs @ ds) < 2 ^ 63"
    and f: "fmlookup (locks (run cs (New es))) j = Some lk"
    and g: "fmlookup (locks (run (cs @ ds) (New es))) k = Some lk'"
  shows "tenure (run cs (New es)) k = Some (lk_holder lk', lk_token lk') \<or> lk_token lk < lk_token lk'"
proof -
  let ?f = "run cs (New es)"
  have i: "in_service (length ds) ?f" using reachable_in_service [of cs "length ds"] v n by simp
  then have "lk_token lk \<le> seq ?f" using f by (auto simp: in_service_def numbered_def numbered_lock_def)
  moreover have "fresh_tokens ?f (run ds ?f)"
    using run_advances [of ?f ds] i fsm_wfD(1) [of ?f] by (simp add: in_service_def advances_def)
  then have "tenure ?f k = Some (lk_holder lk', lk_token lk') \<or> seq ?f < lk_token lk'"
    using g unfolding fresh_tokens_def run_append tenure_def by fastforce
  ultimately show ?thesis by auto
qed

text \<open>C6. Fencing tokens. Take a shard after a log \<open>cs\<close>, and again after further commands \<open>ds\<close>, fewer
  than \<open>2^63\<close> in all. A key that is held at the later point is either still in the same tenure, with
  the same holder and token, or its token is larger than the token of every key at the earlier point.
  The bound leaves the \<open>uint64\<close> counter room for every promotion a dropped lease can cause.\<close>

theorem fencing_tokens_increase:
  assumes "list_all valid_command (cs @ ds)" and "length (cs @ ds) < 2 ^ 63"
    and "fmlookup (locks (run cs (New es))) j = Some lk"
    and "fmlookup (locks (run (cs @ ds) (New es))) k = Some lk'"
  shows "tenure (run cs (New es)) k = Some (lk_holder lk', lk_token lk') \<or> lk_token lk < lk_token lk'"
  by (rule later_tenure [OF assms])

definition demo_log :: "command list" where
  "demo_log = [LeaseGrant ''a'' 1000 0, LeaseGrant ''b'' 1000 0, AcquireLock ''/k'' ''a'' False,
     AcquireLock ''/k'' ''b'' False]"

definition demo_lock :: "string \<Rightarrow> u64 \<Rightarrow> waiter list \<Rightarrow> lock" where
  "demo_lock h t q = \<lparr>lk_name = ''/k'', lk_holder = h, lk_token = t, lk_value = None, lk_queue = q\<rparr>"

lemma demo_states:
  "fmlookup (locks (run demo_log (New None))) ''/k'' =
     Some (demo_lock ''a'' 1 [\<lparr>w_clientID = ''b'', w_seq = 2, w_value = None\<rparr>])"
  "fmlookup (locks (run (demo_log @ [LeaseExpire ''a'' 1000000000]) (New None))) ''/k'' =
     Some (demo_lock ''b'' 3 [])"
  by code_simp+

lemma demo_lease: "lease_of (run demo_log (New None)) ''a'' = Some (1000, 1000000000)"
  by code_simp

lemma demo_not_due: "\<not> (1000000000 :: i64) \<le>s 999999999"
  by code_simp

lemma demo_valid: "list_all valid_command demo_log" "length demo_log = 4"
  by (simp_all add: demo_log_def)

theorem fencing_tokens_increase_witness:
  "tenure (run demo_log (New None)) ''/k'' = Some (''b'', 3) \<or> (1 :: u64) < 3"
  using fencing_tokens_increase [of demo_log "[LeaseExpire ''a'' 1000000000]" None "''/k''"
      "demo_lock ''a'' 1 [\<lparr>w_clientID = ''b'', w_seq = 2, w_value = None\<rparr>]" "''/k''" "demo_lock ''b'' 3 []"]
  by (simp add: demo_states demo_valid demo_lock_def)

lemma token_mismatch_refused:
  assumes "fmlookup (locks g) k = None \<or> (\<exists>lk'. fmlookup (locks g) k = Some lk' \<and> lk_token lk' \<noteq> t)"
  shows "\<exists>r. release g k c t = (g, r) \<and> res_Outcome r \<in> {OUTCOME_NOT_HOLDER, OUTCOME_STALE_TOKEN}"
    and "\<exists>r. proclaim g k c t v = (g, r) \<and> res_Outcome r \<in> {OUTCOME_NOT_HOLDER, OUTCOME_STALE_TOKEN}"
  using assms by (auto simp: release_def proclaim_def resultKey_def result_def split: option.splits)

text \<open>C7. A client that lost a key cannot act on it with its old token. Once the tenure that had token
  \<open>t\<close> on a key is over, a release, a resignation and a proclamation with \<open>t\<close> are refused, whoever
  sends them and however many commands later, with \<open>NOT_HOLDER\<close> or \<open>STALE_TOKEN\<close>, and change nothing
  but the revision.\<close>

theorem ended_tenure_fenced:
  assumes v: "list_all valid_command (cs @ ds)" and n: "length (cs @ ds) < 2 ^ 63"
    and f: "tenure (run cs (New es)) k = Some (h, t)"
    and g: "tenure (run (cs @ ds) (New es)) k \<noteq> Some (h, t)"
    and c: "cmd = ReleaseLock k c t \<or> cmd = Resign k c t \<or> cmd = Proclaim k c t v"
  shows "\<exists>r. Apply (run (cs @ ds) (New es)) (Some cmd) =
      ((run (cs @ ds) (New es))\<lparr>revision := revision (run (cs @ ds) (New es)) + 1\<rparr>, Inr r) \<and>
      res_Outcome r \<in> {OUTCOME_NOT_HOLDER, OUTCOME_STALE_TOKEN}"
proof -
  let ?g = "run (cs @ ds) (New es)"
  obtain lk where lk: "fmlookup (locks (run cs (New es))) k = Some lk" "lk_token lk = t"
    using f by (auto simp: tenure_def)
  have "lk_token lk' \<noteq> t" if "fmlookup (locks ?g) k = Some lk'" for lk'
    using later_tenure [OF v n lk(1) that] lk(2) f g tenure_Some [OF that] by auto
  then have "fmlookup (locks (?g\<lparr>revision := revision ?g + 1\<rparr>)) k = None \<or>
      (\<exists>lk'. fmlookup (locks (?g\<lparr>revision := revision ?g + 1\<rparr>)) k = Some lk' \<and> lk_token lk' \<noteq> t)"
    by (cases "fmlookup (locks ?g) k") auto
  note r = token_mismatch_refused [OF this, of c]
  show ?thesis using c
  proof (elim disjE)
    assume "cmd = Proclaim k c t v"
    then show ?thesis using r(2) [of v] by (auto simp: Apply_def)
  qed (use r(1) in \<open>auto simp: Apply_def\<close>)
qed

theorem ended_tenure_fenced_witness:
  "\<exists>r. Apply (run (demo_log @ [LeaseExpire ''a'' 1000000000]) (New None)) (Some (Resign ''/k'' ''b'' 1)) =
      ((run (demo_log @ [LeaseExpire ''a'' 1000000000]) (New None))
         \<lparr>revision := revision (run (demo_log @ [LeaseExpire ''a'' 1000000000]) (New None)) + 1\<rparr>, Inr r) \<and>
      res_Outcome r \<in> {OUTCOME_NOT_HOLDER, OUTCOME_STALE_TOKEN}"
  by (rule ended_tenure_fenced [where h = "''a''" and t = 1 and k = "''/k''" and c = "''b''"])
    (simp_all add: demo_valid tenure_Some [OF demo_states(1)] tenure_Some [OF demo_states(2)] demo_lock_def
      del: run_append)

subsection \<open>Holders and queues\<close>

fun ends_tenure :: "fsm \<Rightarrow> string \<Rightarrow> string \<Rightarrow> u64 \<Rightarrow> command \<Rightarrow> bool" where
  "ends_tenure f k h t (ReleaseLock name c u) = (name = k \<and> c = h \<and> u = t)"
| "ends_tenure f k h t (Resign name c u) = (name = k \<and> c = h \<and> u = t)"
| "ends_tenure f k h t (LeaseRevoke c) = (c = h)"
| "ends_tenure f k h t (LeaseExpire c now) =
     (c = h \<and> (case lease_of f c of None \<Rightarrow> False | Some (_, deadline) \<Rightarrow> deadline \<le>s now))"
| "ends_tenure f k h t _ = False"

lemma service_line_head:
  assumes w: "fsm_wf f" and v: "valid_command c" and t: "tenure f k = Some (h, t)"
    and e: "\<not> ends_tenure f k h t c"
  shows "\<exists>q. line (step c f) k = h # q"
proof -
  from t obtain q where l: "line f k = h # q" "token_of f k = t" by (auto simp: tenure_line)
  have d: "h \<notin> set q" using indexedD(1) [OF fsm_wfD(2) [OF w], of k] l by simp
  show ?thesis
    unfolding step_refines(1) [OF w v] using l e d
    by (cases c) (auto simp: join_line_def leave_head_def word_sless_alt word_sle_eq not_less
        simp del: lease_of_None split: option.splits if_splits)
qed

text \<open>C8. A holder keeps its key. Whatever the command, a client that holds a key with token \<open>t\<close> still
  holds it with \<open>t\<close> afterwards, unless the command is its own release or resignation with \<open>t\<close>, the
  revocation of its lease, or the expiry of its lease at a time that is not before the deadline.\<close>

theorem holder_keeps_key:
  assumes "list_all valid_command (cs @ [c])" and "tenure (run cs (New es)) k = Some (h, t)"
    and "\<not> ends_tenure (run cs (New es)) k h t c"
  shows "tenure (run (cs @ [c]) (New es)) k = Some (h, t)"
proof -
  have w: "fsm_wf (run cs (New es))" and v: "valid_command c" using assms(1) run_wf by auto
  obtain q where "line (step c (run cs (New es))) k = h # q"
    using service_line_head [OF w v assms(2,3)] by blast
  then show ?thesis using step_tenure [OF w v assms(2)] by simp
qed

theorem holder_keeps_key_witness:
  "tenure (run (demo_log @ [LeaseExpire ''a'' 999999999]) (New None)) ''/k'' = Some (''a'', 1)"
  by (rule holder_keeps_key)
    (simp_all add: demo_valid tenure_Some [OF demo_states(1)] demo_lock_def demo_lease demo_not_due)

lemma subseq_remove1: "subseq (remove1 x l) l"
  by (induction l) (auto intro: subseq_Cons')

lemma subseq_tl: "subseq (tl l) l"
  by (cases l) (auto intro: subseq_Cons')

lemma service_line_subseq:
  "subseq (service_line T D c L k) (L k) \<or>
     (\<exists>x. x \<notin> set (L k) \<and> service_line T D c L k = L k @ [x])"
  by (cases c) (auto simp: join_line_def leave_head_def subseq_remove1 subseq_tl split: option.splits)

text \<open>C9. First come, first served. A command changes a line only by taking clients out of it, or by
  putting one client who was not in it at its end: nobody overtakes.\<close>

theorem line_fifo:
  assumes "list_all valid_command (cs @ [c])"
  shows "subseq (line (run (cs @ [c]) (New es)) k) (line (run cs (New es)) k) \<or>
    (\<exists>x. x \<notin> set (line (run cs (New es)) k) \<and>
       line (run (cs @ [c]) (New es)) k = line (run cs (New es)) k @ [x])"
proof -
  have "line (run (cs @ [c]) (New es)) =
      service_line (token_of (run cs (New es))) (lease_of (run cs (New es))) c (line (run cs (New es)))"
    using step_refines(1) [of "run cs (New es)" c] run_wf [of "New es" cs] assms by simp
  then show ?thesis using service_line_subseq by simp
qed

theorem line_fifo_witness:
  "subseq (line (run (demo_log @ [LeaseRevoke ''a'']) (New None)) ''/k'') (line (run demo_log (New None)) ''/k'') \<or>
    (\<exists>x. x \<notin> set (line (run demo_log (New None)) ''/k'') \<and>
       line (run (demo_log @ [LeaseRevoke ''a'']) (New None)) ''/k'' = line (run demo_log (New None)) ''/k'' @ [x])"
  by (rule line_fifo) (simp add: demo_valid)

text \<open>The first \<open>n\<close> holders of a key give it up in turn, each with its own token.\<close>

fun release_heads :: "nat \<Rightarrow> string \<Rightarrow> fsm \<Rightarrow> fsm" where
  "release_heads 0 k f = f"
| "release_heads (Suc n) k f =
     (case fmlookup (locks f) k of
        None \<Rightarrow> f
      | Some lk \<Rightarrow> release_heads n k (step (ReleaseLock k (lk_holder lk) (lk_token lk)) f))"

lemma release_heads_line:
  "fsm_wf f \<Longrightarrow> n \<le> length (line f k) \<Longrightarrow> line (release_heads n k f) k = drop n (line f k)"
proof (induction n arbitrary: f)
  case (Suc n)
  then obtain lk where lk: "fmlookup (locks f) k = Some lk" by (cases "fmlookup (locks f) k") auto
  let ?c = "ReleaseLock k (lk_holder lk) (lk_token lk)"
  have l: "line (step ?c f) k = tl (line f k)"
    using step_refines(1) [OF Suc.prems(1), of ?c] lk
    by (simp add: leave_head_def line_def lock_line_def token_of_def)
  have "fsm_wf (step ?c f)" using Suc.prems(1) by (simp add: step_wf)
  with Suc.IH [of "step ?c f"] Suc.prems(2) l lk show ?case by (simp add: drop_Suc)
qed simp

lemma status_line:
  "st_Holder (status f k) = (case line f k of [] \<Rightarrow> [] | h # _ \<Rightarrow> h)"
  "st_Held (status f k) = (case line f k of [] \<Rightarrow> False | h # _ \<Rightarrow> h \<noteq> [])"
  by (auto simp: status_def Let_def line_def lock_line_def split: option.splits)

text \<open>C10. Everyone in line is served. A client at position \<open>n\<close> of a key's line, holder included, is the
  holder after the \<open>n\<close> clients ahead of it have released the key in turn; when they all have, the key
  is free.\<close>

theorem waiter_is_served:
  assumes "list_all valid_command cs" and "n \<le> length (line (run cs (New es)) k)"
  shows "(if n < length (line (run cs (New es)) k)
          then st_Holder (status (release_heads n k (run cs (New es))) k) = line (run cs (New es)) k ! n
          else \<not> st_Held (status (release_heads n k (run cs (New es))) k))"
proof -
  have w: "fsm_wf (run cs (New es))" using run_wf assms(1) by simp
  let ?g = "release_heads n k (run cs (New es))"
  have l: "line ?g k = drop n (line (run cs (New es)) k)" by (rule release_heads_line [OF w assms(2)])
  show ?thesis
  proof (cases "drop n (line (run cs (New es)) k)")
    case Nil
    then show ?thesis unfolding status_line l by (simp add: drop_eq_Nil)
  next
    case (Cons h q)
    then have "n < length (line (run cs (New es)) k)" by (metis drop_all list.distinct(1) not_less)
    with Cons show ?thesis unfolding status_line l by (metis hd_drop_conv_nth list.sel(1) list.simps(5))
  qed
qed

theorem waiter_is_served_witness:
  "st_Holder (status (release_heads 1 ''/k'' (run demo_log (New None))) ''/k'') = ''b''"
  using waiter_is_served [of demo_log 1 None "''/k''"]
  by (simp add: demo_valid line_def demo_states demo_lock_def lock_line_def)

subsection \<open>Answers to clients\<close>

lemma queuePos_from_index:
  "c \<in> w_clientID ` set q \<Longrightarrow>
   \<exists>i<length q. w_clientID (q ! i) = c \<and> queuePos_from n q c = of_nat (n + i + 1)"
proof (induction q arbitrary: n)
  case (Cons w q)
  show ?case
  proof (cases "w_clientID w = c")
    case True
    then show ?thesis by (intro exI [of _ 0]) simp
  next
    case False
    with Cons.prems have "c \<in> w_clientID ` set q" by auto
    from Cons.IH [OF this, of "n + 1"] obtain i where
      "i < length q" "w_clientID (q ! i) = c" "queuePos_from (n + 1) q c = of_nat (n + 1 + i + 1)" by auto
    then show ?thesis using False by (intro exI [of _ "Suc i"]) simp
  qed
qed simp

definition acquire_answer :: "fsm \<Rightarrow> fsm \<Rightarrow> string \<Rightarrow> string \<Rightarrow> bool \<Rightarrow> command_result \<Rightarrow> bool" where
  "acquire_answer f g k c try r \<longleftrightarrow>
     (case res_Outcome r of
        OUTCOME_GRANTED \<Rightarrow> tenure g k = Some (c, res_FencingToken r)
      | OUTCOME_QUEUED \<Rightarrow> \<not> try \<and>
          (\<exists>i. 0 < i \<and> i < length (line g k) \<and> line g k ! i = c \<and> res_QueuePosition r = of_nat i)
      | OUTCOME_NOT_ACQUIRED \<Rightarrow> try \<and> line g = line f \<and>
          (\<exists>h q. line f k = h # q \<and> h \<noteq> c \<and> res_CurrentHolder r = h)
      | OUTCOME_NO_LEASE \<Rightarrow> lease_of f c = None \<and> line g = line f
      | _ \<Rightarrow> False)"

lemma acquire_answer_revision [simp]:
  "acquire_answer (f\<lparr>revision := n\<rparr>) g k c try r = acquire_answer f g k c try r"
  unfolding acquire_answer_def by (simp del: lease_of_None cong: outcome.case_cong)

lemma acquire_answered:
  assumes w: "fsm_wf f" and e: "acquire f k c v try = (g, r)"
  shows "acquire_answer f g k c try r"
proof (cases "fmlookup (leases f) c")
  case None
  with e show ?thesis
    by (auto simp: acquire_def acquire_answer_def resultKey_def result_def lease_of_absent simp del: lease_of_None)
next
  case (Some ls)
  note i = fsm_wfD(2) [OF w]
  have c: "ls_clientID ls = c" using indexedD(3) [OF i Some] .
  show ?thesis
  proof (cases "fmlookup (locks f) k")
    case None
    with e Some c show ?thesis
      by (auto simp: acquire_def grant_def Let_def acquire_answer_def resultKey_def result_def)
  next
    case lk: (Some lk)
    have l: "line f k = lk_holder lk # map w_clientID (lk_queue lk)" using lk by (simp add: line_def lock_line_def)
    note h = lock_holder_nonempty [OF i lk]
    show ?thesis
    proof (cases "lk_holder lk = c \<or> try")
      case True
      with e Some lk l h show ?thesis
        by (auto simp: acquire_def acquire_answer_def resultKey_def result_def tenure_Some split: if_splits)
    next
      case wait: False
      show ?thesis
      proof (cases "k |\<in>| ls_waiting ls")
        case True
        then have "c \<in> w_clientID ` set (lk_queue lk)" using waiting_iff [OF i Some lk] by simp
        from queuePos_from_index [OF this, of 0] obtain j where j: "j < length (lk_queue lk)"
          "w_clientID (lk_queue lk ! j) = c" "queuePos lk c = of_nat (j + 1)" by (auto simp: queuePos_def)
        then show ?thesis using e Some lk l h wait True
          by (auto simp: acquire_def acquire_answer_def resultKey_def result_def intro!: exI [of _ "j + 1"])
      next
        case False
        with e Some lk l h wait show ?thesis
          by (auto simp: acquire_def acquire_answer_def resultKey_def result_def Let_def lock_line_def
              nth_append intro!: exI [of _ "length (lk_queue lk) + 1"])
      qed
    qed
  qed
qed

text \<open>C11. The answer to an acquire or a campaign is true of the state it leaves. \<open>GRANTED\<close>: the client
  holds the key with the token it was given. \<open>QUEUED\<close>: it stands in the queue at the position it was
  given. \<open>NOT_ACQUIRED\<close> (only to a try): the named other client holds the key and nothing changed.
  \<open>NO_LEASE\<close>: the client had no lease and nothing changed. There is no other answer.\<close>

theorem acquire_answer_true:
  assumes "list_all valid_command cs"
    and "cmd = AcquireLock k c try \<or> cmd = Campaign k c v \<and> \<not> try"
  shows "\<exists>g r. Apply (run cs (New es)) (Some cmd) = (g, Inr r) \<and>
    res_LockKey r = k \<and> acquire_answer (run cs (New es)) g k c try r"
proof -
  let ?f = "(run cs (New es))\<lparr>revision := revision (run cs (New es)) + 1\<rparr>"
  have w: "fsm_wf ?f" using run_wf assms(1) by simp
  obtain u where u: "Apply (run cs (New es)) (Some cmd) = apsnd Inr (acquire ?f k c u try)"
    using assms(2) by (auto simp: Apply_def)
  obtain g r where e: "acquire ?f k c u try = (g, r)" by force
  have "acquire_answer (run cs (New es)) g k c try r"
    using acquire_answered [OF w e] by simp
  moreover have "res_LockKey r = k"
    using e by (auto simp: acquire_def grant_def Let_def resultKey_def split: option.splits if_splits)
  ultimately show ?thesis using u e by simp
qed

theorem acquire_answer_true_witness:
  "\<exists>g r. Apply (run demo_log (New None)) (Some (AcquireLock ''/k'' ''b'' True)) = (g, Inr r) \<and>
    res_LockKey r = ''/k'' \<and> acquire_answer (run demo_log (New None)) g ''/k'' ''b'' True r"
  by (rule acquire_answer_true) (simp_all add: demo_valid)

subsection \<open>Lease expiry\<close>

text \<open>The commands the expiry loop of a leader proposes at time \<open>now\<close>, one per due lease.\<close>

definition expire_due :: "i64 \<Rightarrow> fsm \<Rightarrow> command list" where
  "expire_due now f = map (\<lambda>c. LeaseExpire c now) (dueLeases f now)"

lemma set_dueLeases:
  "c \<in> set (dueLeases f now) \<longleftrightarrow> (\<exists>ttl d. lease_of f c = Some (ttl, d) \<and> d \<le>s now)"
  by (auto simp: dueLeases_def lease_of_def set_sorted_bindings image_iff split: option.splits)

lemma service_expire:
  assumes "D c = Some (ttl, d)" "d \<le>s now"
  shows "service_lease (LeaseExpire c now) D = D(c := None)"
    and "service_line T D (LeaseExpire c now) L = (\<lambda>k. remove1 c (L k))"
  using assms by (simp_all add: word_sless_alt word_sle_eq)

lemma run_expire:
  assumes "fsm_wf f" and "distinct xs" and "\<And>c. c \<in> set xs \<Longrightarrow> \<exists>ttl d. lease_of f c = Some (ttl, d) \<and> d \<le>s now"
  shows "lease_of (run (map (\<lambda>c. LeaseExpire c now) xs) f) = (\<lambda>c. if c \<in> set xs then None else lease_of f c) \<and>
    (\<forall>k. line (run (map (\<lambda>c. LeaseExpire c now) xs) f) k = filter (\<lambda>c. c \<notin> set xs) (line f k))"
  using assms
proof (induction xs arbitrary: f)
  case (Cons x xs)
  obtain ttl d where x: "lease_of f x = Some (ttl, d)" "d \<le>s now" using Cons.prems(3) [of x] by auto
  let ?g = "step (LeaseExpire x now) f"
  have w: "fsm_wf ?g" using Cons.prems(1) by (simp add: step_wf)
  have e: "lease_of ?g = (lease_of f)(x := None)" "line ?g = (\<lambda>k. remove1 x (line f k))"
    using step_refines [OF Cons.prems(1), of "LeaseExpire x now"] service_expire [of "lease_of f", OF x] by simp_all
  have r: "remove1 x (line f k) = filter (\<lambda>c. c \<noteq> x) (line f k)" for k
    using indexedD(1) [OF fsm_wfD(2) [OF Cons.prems(1)], of k] by (simp add: distinct_remove1_removeAll removeAll_filter_not_eq eq_commute)
  have "\<exists>ttl d. lease_of ?g c = Some (ttl, d) \<and> d \<le>s now" if "c \<in> set xs" for c
    using Cons.prems(2,3) that e by auto
  from Cons.IH [OF w _ this] Cons.prems(2) e r show ?case
    by (auto simp: fun_eq_iff conj_commute intro: filter_cong)
qed simp

text \<open>C12. One pass of the expiry loop is exact. Expiring every lease a \<open>DueLeasesQuery\<close> at time \<open>now\<close>
  returns leaves no lease due at \<open>now\<close>, takes the clients of the due leases out of every line (the next
  in line becomes the holder) and touches no other lease.\<close>

theorem expire_due_exact:
  assumes "list_all valid_command cs"
  shows "dueLeases (run (cs @ expire_due now (run cs (New es))) (New es)) now = [] \<and>
    lease_of (run (cs @ expire_due now (run cs (New es))) (New es)) =
      (\<lambda>c. if c \<in> set (dueLeases (run cs (New es)) now) then None else lease_of (run cs (New es)) c) \<and>
    (\<forall>k. line (run (cs @ expire_due now (run cs (New es))) (New es)) k =
      filter (\<lambda>c. c \<notin> set (dueLeases (run cs (New es)) now)) (line (run cs (New es)) k))"
proof -
  let ?f = "run cs (New es)"
  have "distinct (dueLeases ?f now)"
    by (simp add: dueLeases_def distinct_map_filter fst_sorted_bindings distinct_sorted_list_of_fset)
  note r = run_expire [OF run_wf [OF fsm_wf_New assms] this] 
  have "\<exists>ttl d. lease_of ?f c = Some (ttl, d) \<and> d \<le>s now" if "c \<in> set (dueLeases ?f now)" for c
    using that by (simp add: set_dueLeases)
  note r = r [OF this, unfolded expire_due_def [symmetric]]
  moreover from r have "set (dueLeases (run (expire_due now ?f) ?f) now) = {}"
    by (auto simp: set_dueLeases set_eq_iff split: if_splits)
  ultimately show ?thesis by simp
qed

theorem expire_due_exact_witness:
  "dueLeases (run (demo_log @ expire_due 1000000000 (run demo_log (New None))) (New None)) 1000000000 = []"
  using expire_due_exact [of demo_log 1000000000 None] by (simp add: demo_valid)

subsection \<open>Queries\<close>

lemma held_keys_iff:
  assumes i: "indexed {} (line f) (leases f)" and c: "c \<noteq> []"
  shows "k \<in> set (li_HeldKeys (leaseInfo f c)) \<longleftrightarrow> st_Holder (status f k) = c"
proof (cases "fmlookup (leases f) c")
  case None
  then have "c \<notin> set (line f k)" using indexedD(2) [OF i, of c k] by (auto simp: fmlookup_dom_iff)
  with None c show ?thesis by (auto simp: leaseInfo_def status_line split: list.splits)
next
  case (Some ls)
  then have "k \<in> set (li_HeldKeys (leaseInfo f c)) \<longleftrightarrow> k \<in> heads (line f) c"
    using indexedD(6) [OF i Some] by (simp add: leaseInfo_def)
  also have "\<dots> \<longleftrightarrow> st_Holder (status f k) = c"
    unfolding status_line heads_def using c by (cases "line f k") auto
  finally show ?thesis .
qed

lemma map_enumerate:
  "map (\<lambda>x. h (Suc (fst x))) (enumerate 0 q) = map h [1..<Suc (length q)]"
  "map (\<lambda>x. g (snd x)) (enumerate 0 q) = map g q"
proof -
  have "map (\<lambda>x. h (Suc (fst x))) (enumerate 0 q) = map (h \<circ> Suc) (map fst (enumerate 0 q))"
    by (simp add: comp_def del: map_fst_enumerate)
  also have "\<dots> = map h (map Suc [0..<length q])" by simp
  finally show "map (\<lambda>x. h (Suc (fst x))) (enumerate 0 q) = map h [1..<Suc (length q)]"
    unfolding map_Suc_upt by simp
  have "map (\<lambda>x. g (snd x)) (enumerate 0 q) = map g (map snd (enumerate 0 q))"
    by (simp add: comp_def del: map_snd_enumerate)
  then show "map (\<lambda>x. g (snd x)) (enumerate 0 q) = map g q" by simp
qed

lemma waiters_entries:
  assumes i: "indexed {} (line f) (leases f)"
  shows "map wi_ClientID (wa_Entries (waiters f k)) = tl (line f k)"
    and "map wi_Position (wa_Entries (waiters f k)) = map of_nat [1..<length (line f k)]"
proof -
  have "map wi_ClientID (wa_Entries (waiters f k)) = tl (line f k) \<and>
    map wi_Position (wa_Entries (waiters f k)) = map of_nat [1..<length (line f k)]"
  proof (cases "fmlookup (locks f) k")
    case None
    then show ?thesis by (simp add: waiters_def Let_def)
  next
    case (Some lk)
    then have e: "wa_Entries (waiters f k) = map (\<lambda>x. \<lparr>wi_ClientID = w_clientID (snd x),
        wi_Seq = w_seq (snd x), wi_Position = of_nat (Suc (fst x))\<rparr>) (enumerate 0 (lk_queue lk))"
      using lock_holder_nonempty [OF i Some] by (simp add: waiters_def Let_def case_prod_beta)
    have l: "line f k = lk_holder lk # map w_clientID (lk_queue lk)"
      using Some by (simp add: line_def lock_line_def)
    show ?thesis unfolding e l by (simp add: comp_def map_enumerate del: upt_Suc of_nat_Suc)
  qed
  then show "map wi_ClientID (wa_Entries (waiters f k)) = tl (line f k)"
    "map wi_Position (wa_Entries (waiters f k)) = map of_nat [1..<length (line f k)]" by simp_all
qed

lemma sorted_map_fst_filter: "sorted (map fst xs) \<Longrightarrow> sorted (map fst (filter P xs))"
  by (induction xs) auto

text \<open>C13. The read side agrees with the lines. In every reachable state, the keys a lease query lists for
  a client are those whose status names the client as holder, the waiters reported behind a key are
  its line without the head, in order, with positions counted from one, and a browse under a prefix
  lists exactly the held keys under it, once each and in ascending order.\<close>

theorem queries_agree:
  assumes "list_all valid_command cs" and "c \<noteq> []"
  shows "(k \<in> set (li_HeldKeys (leaseInfo (run cs (New es)) c)) \<longleftrightarrow> st_Holder (status (run cs (New es)) k) = c) \<and>
    map wi_ClientID (wa_Entries (waiters (run cs (New es)) k)) = tl (line (run cs (New es)) k) \<and>
    map wi_Position (wa_Entries (waiters (run cs (New es)) k)) =
      map of_nat [1..<length (line (run cs (New es)) k)] \<and>
    set (map sm_Name (listLocks (run cs (New es)) p)) =
      {n. st_Held (status (run cs (New es)) n) \<and> HasPrefix p n} \<and>
    sorted (map sm_Name (listLocks (run cs (New es)) p)) \<and>
    distinct (map sm_Name (listLocks (run cs (New es)) p))"
proof -
  let ?f = "run cs (New es)"
  have w: "fsm_wf ?f" using run_wf assms(1) by simp
  note i = fsm_wfD(2) [OF w]
  have names: "map sm_Name (listLocks ?f p) = map fst (filter (\<lambda>(name, lk). lk_holder lk \<noteq> [] \<and>
      HasPrefix p name) (sorted_bindings (locks ?f)))" by (simp add: listLocks_def comp_def case_prod_beta)
  show ?thesis
  proof (intro conjI)
    show "k \<in> set (li_HeldKeys (leaseInfo ?f c)) \<longleftrightarrow> st_Holder (status ?f k) = c"
      by (rule held_keys_iff [OF i assms(2)])
    show "map wi_ClientID (wa_Entries (waiters ?f k)) = tl (line ?f k)"
      "map wi_Position (wa_Entries (waiters ?f k)) = map of_nat [1..<length (line ?f k)]"
      using waiters_entries [OF i] by simp_all
    show "set (map sm_Name (listLocks ?f p)) = {n. st_Held (status ?f n) \<and> HasPrefix p n}"
      by (auto simp: listLocks_def status_def Let_def set_sorted_bindings image_iff split: option.splits)
    show "sorted (map sm_Name (listLocks ?f p))" "distinct (map sm_Name (listLocks ?f p))"
      unfolding names by (simp_all add: sorted_map_fst_filter distinct_map_filter)
  qed
qed

theorem queries_agree_witness:
  "''/k'' \<in> set (li_HeldKeys (leaseInfo (run demo_log (New None)) ''a'')) \<longleftrightarrow>
     st_Holder (status (run demo_log (New None)) ''/k'') = ''a''"
  by (rule queries_agree [OF demo_valid(1), THEN conjunct1]) simp

end
