(* ===== verification/Fsm_Events.thy ===== *)
theory Fsm_Events
  imports Fsm_Correct
begin

text \<open>
  The events a shard publishes. An observer that only ever sees the events learns the state of every
  key from them: the last event about a key names its current holder, token and value, and no event,
  or one with an empty holder, means the key is free. This is what the watch hub and the waiting
  handlers of the server rely on.
\<close>

type_synonym ownership = "(string \<times> u64 \<times> bytes) option"

definition ownership_of :: "fsm \<Rightarrow> string \<Rightarrow> ownership" where
  "ownership_of f k = map_option (\<lambda>lk. (lk_holder lk, lk_token lk, lk_value lk)) (fmlookup (locks f) k)"

definition event_ownership :: "event \<Rightarrow> ownership" where
  "event_ownership e = (if ev_Holder e = [] then None else Some (ev_Holder e, ev_Token e, ev_Value e))"

fun observed :: "event list \<Rightarrow> string \<Rightarrow> ownership" where
  "observed es k = fold (\<lambda>e v. if ev_Key e = k then event_ownership e else v) es None"

definition published :: "fsm \<Rightarrow> bool" where
  "published f \<longleftrightarrow> (\<forall>es. notifier f = Some es \<longrightarrow> observed es = ownership_of f)"

lemma observed_snoc [simp]:
  "observed (es @ [e]) = (observed es)(ev_Key e := event_ownership e)"
  by (auto simp: fun_eq_iff)

declare observed.simps [simp del]

lemma ownership_frame [simp]:
  "ownership_of (f\<lparr>leases := M\<rparr>) = ownership_of f" "ownership_of (f\<lparr>seq := n\<rparr>) = ownership_of f"
  "ownership_of (f\<lparr>revision := n\<rparr>) = ownership_of f" "ownership_of (emit f k h t v) = ownership_of f"
  by (simp_all add: ownership_of_def fun_eq_iff)

lemma ownership_upd [simp]:
  "ownership_of (f\<lparr>locks := fmupd k lk (locks g)\<rparr>) =
     (ownership_of g)(k \<mapsto> (lk_holder lk, lk_token lk, lk_value lk))"
  "ownership_of (f\<lparr>locks := fmdrop k (locks g)\<rparr>) = (ownership_of g)(k := None)"
  by (auto simp: ownership_of_def fun_eq_iff)

lemma published_cong:
  "ownership_of g = ownership_of f \<Longrightarrow> notifier g = notifier f \<Longrightarrow> published g = published f"
  by (simp add: published_def)

lemma notifier_emit [simp]:
  "notifier (emit f k h t v) = map_option (\<lambda>es. es @ [\<lparr>ev_Key = k, ev_Holder = h, ev_Token = t,
     ev_Value = v, ev_Revision = revision f\<rparr>]) (notifier f)"
  by (simp add: emit_def split: option.splits)

lemma published_emit:
  assumes "published f" "notifier g = notifier f"
    and "ownership_of g = (ownership_of f)(k := (if h = [] then None else Some (h, t, v)))"
  shows "published (emit g k h t v)"
  using assms by (auto simp: published_def event_ownership_def)

text \<open>No lease belongs to the empty client id, so an event with an empty holder means a free key.\<close>

definition named_clients :: "fsm \<Rightarrow> bool" where
  "named_clients f \<longleftrightarrow> [] |\<notin>| fmdom (leases f)"

lemma promote_published:
  assumes "published f" and "named_clients f"
  shows "published (promote f lk) \<and> named_clients (promote f lk)"
proof (cases rule: promote_loop_cases [of f lk "lk_queue lk"])
  case free
  then show ?thesis unfolding promote_def free using assms
    by (auto intro!: published_emit [of f] simp: named_clients_def)
next
  case (next_waiter q1 w q2 ls)
  have "w_clientID w \<noteq> []" using fmdomI [OF next_waiter(2)] assms(2) by (auto simp: named_clients_def)
  then show ?thesis unfolding promote_def next_waiter(3) using assms
    by (auto intro!: published_emit [of f] simp: named_clients_def)
qed

lemma acquire_published:
  assumes p: "published f" and w: "fsm_wf f"
  shows "published (fst (acquire f name c v try))"
proof (cases "fmlookup (leases f) c")
  case None
  then show ?thesis using p by (simp add: acquire_def)
next
  case (Some ls)
  have c: "ls_clientID ls = c" "c \<noteq> []" using indexedD(3,4) [OF fsm_wfD(2) [OF w] Some] by auto
  have g: "published (fst (grant f name ls v))" using c p
    by (auto simp: grant_def Let_def intro!: published_emit [of f])
  show ?thesis
  proof (cases "fmlookup (locks f) name")
    case lk: (Some lk)
    have "published (f\<lparr>seq := n, locks := fmupd name (lk\<lparr>lk_queue := q\<rparr>) (locks f), leases := M\<rparr>)" for n q M
      by (rule published_cong [THEN iffD2, OF _ _ p])
        (use lk in \<open>auto simp: ownership_of_def fun_eq_iff\<close>)
    with g p Some lk show ?thesis by (simp add: acquire_def Let_def)
  qed (use g Some in \<open>simp add: acquire_def\<close>)
qed

lemma proclaim_published: "published f \<Longrightarrow> published (fst (proclaim f name c t v))"
  by (auto simp: proclaim_def Let_def intro!: published_emit [of f] split: option.splits)

lemma published_requeue:
  assumes "published f" "fmlookup (locks f) name = Some lk"
  shows "published (f\<lparr>locks := fmupd name (lk\<lparr>lk_queue := q\<rparr>) (locks f)\<rparr>)"
  by (rule published_cong [THEN iffD2, OF _ _ assms(1)])
    (use assms(2) in \<open>auto simp: ownership_of_def fun_eq_iff\<close>)

lemma published_leases [simp]: "published (f\<lparr>leases := M\<rparr>) = published f"
  by (rule published_cong) simp_all

lemma cancelWait_published: "published f \<Longrightarrow> published (fst (cancelWait f name c))"
  by (auto simp: cancelWait_def Let_def published_requeue split: option.splits)

lemma release_published:
  assumes "published f" "named_clients f"
  shows "published (fst (release f name c t))"
  using assms promote_published
  by (auto simp: release_def Let_def named_clients_def fmdom_fmupd split: option.splits)

lemma dropLease_published:
  assumes "published f" "named_clients f"
  shows "published (dropLease f ls)"
proof -
  have "published (fold (dropLease_held c) ks g) \<and> named_clients (fold (dropLease_held c) ks g)"
    if "published g" "named_clients g" for c ks g
    using that
    by (induction ks arbitrary: g) (auto simp: dropLease_held_def promote_published split: option.splits)
  moreover have "published (fold (dropLease_waiting c) ks g)" if "published g" for c ks g
    using that
    by (induction ks arbitrary: g) (auto simp: dropLease_waiting_def published_requeue split: option.splits)
  ultimately show ?thesis using assms by (simp add: dropLease_def Let_def)
qed

lemma exec_published:
  assumes "published f" "fsm_wf f" "valid_command c"
  shows "published (fst (exec_command f c))"
proof -
  have "named_clients f"
    using indexedD(4) [OF fsm_wfD(2) [OF assms(2)]] unfolding named_clients_def fmlookup_dom_iff by blast
  with assms show ?thesis
    by (cases c) (auto simp: acquire_published release_published cancelWait_published proclaim_published
        leaseGrant_def leaseKeepAlive_def leaseRevoke_def leaseExpire_def Let_def dropLease_published
        split: option.splits)
qed

lemma step_published:
  "published f \<Longrightarrow> fsm_wf f \<Longrightarrow> valid_command c \<Longrightarrow> published (step c f)"
  using exec_published [of "f\<lparr>revision := revision f + 1\<rparr>" c]
  by (simp add: step_def Apply_def published_def)

lemma run_published:
  "published f \<Longrightarrow> fsm_wf f \<Longrightarrow> list_all valid_command cs \<Longrightarrow> published (run cs f)"
  by (induction cs arbitrary: f) (auto simp: step_published step_wf)

text \<open>C14. Events are complete. For every log applied to a fresh shard with a notifier, the last event
  published about a key states its holder, token and value, and a key with no event, or whose last
  event has no holder, is free: an observer that reads every event never holds a stale view.\<close>

theorem events_show_ownership:
  assumes "list_all valid_command cs"
    and "notifier (run cs (New (Some []))) = Some es"
  shows "observed es k = ownership_of (run cs (New (Some []))) k"
proof -
  have "published (New (Some []))"
    by (simp add: published_def New_def ownership_of_def fun_eq_iff observed.simps)
  from run_published [OF this fsm_wf_New assms(1)] assms(2) show ?thesis by (simp add: published_def)
qed

theorem events_show_ownership_witness:
  "observed [\<lparr>ev_Key = ''/k'', ev_Holder = ''a'', ev_Token = 1, ev_Value = None, ev_Revision = 3\<rparr>] ''/k'' =
     ownership_of (run demo_log (New (Some []))) ''/k''"
  by (rule events_show_ownership) (simp add: demo_valid, code_simp)

end
