(* ===== verification/State_Machine.thy ===== *)
theory State_Machine
  imports Zuul_Prelude
begin

text \<open>
  The contract between the consensus layer and the two state machines it drives, the lock FSM and the
  membership store (\<^verbatim>\<open>sm.go\<close> and \<^verbatim>\<open>sm_meta.go\<close> wrap both behind the same dragonboat interface). A
  replica may be rebuilt from a snapshot of another one and then fed the rest of the log; what is
  replicated must not depend on what a replica keeps for itself (\<open>core\<close> forgets that part, such as
  the notifier of the lock FSM).
\<close>

locale state_machine =
  fixes update :: "'c \<Rightarrow> 's \<Rightarrow> 's"
    and answer :: "'c \<Rightarrow> 's \<Rightarrow> 'r"
    and snapshot :: "'s \<Rightarrow> 'i"
    and restore :: "'i \<Rightarrow> 's \<Rightarrow> 's"
    and core :: "'s \<Rightarrow> 'v"
    and inv :: "'s \<Rightarrow> bool"
    and admissible :: "'c \<Rightarrow> bool"
  assumes inv_update: "inv s \<Longrightarrow> admissible c \<Longrightarrow> inv (update c s)"
    and core_update: "core s = core t \<Longrightarrow> core (update c s) = core (update c t)"
    and core_answer: "core s = core t \<Longrightarrow> answer c s = answer c t"
    and core_snapshot: "core s = core t \<Longrightarrow> snapshot s = snapshot t"
    and restore_snapshot: "inv s \<Longrightarrow> core (restore (snapshot s) t) = core s"
begin

text \<open>The answers a log gets.\<close>

primrec answers :: "'c list \<Rightarrow> 's \<Rightarrow> 'r list" where
  "answers [] s = []"
| "answers (c # cs) s = answer c s # answers cs (update c s)"

lemma core_replay: "core s = core t \<Longrightarrow> core (fold update cs s) = core (fold update cs t)"
proof (induction cs arbitrary: s t)
  case (Cons c cs)
  show ?case using Cons.IH [OF core_update [OF Cons.prems]] by simp
qed simp

lemma answers_replay: "core s = core t \<Longrightarrow> answers cs s = answers cs t"
proof (induction cs arbitrary: s t)
  case (Cons c cs)
  show ?case using Cons.IH [OF core_update [OF Cons.prems]] core_answer [OF Cons.prems] by simp
qed simp

lemma inv_replay: "inv s \<Longrightarrow> list_all admissible cs \<Longrightarrow> inv (fold update cs s)"
  by (induction cs arbitrary: s) (simp_all add: inv_update)

text \<open>A replica restored from a snapshot taken after \<open>cs\<close> catches up with one that applied all of it.\<close>

lemma catch_up:
  assumes "inv s" "list_all admissible cs"
  shows "core (fold update ds (restore (snapshot (fold update cs s)) t)) = core (fold update (cs @ ds) s)"
  using core_replay [OF restore_snapshot [OF inv_replay [OF assms]]] by simp

lemma catch_up_answers:
  assumes "inv s" "list_all admissible cs"
  shows "answers ds (restore (snapshot (fold update cs s)) t) = answers ds (fold update cs s)"
  by (rule answers_replay [OF restore_snapshot [OF inv_replay [OF assms]]])

lemma catch_up_snapshot:
  assumes "inv s" "list_all admissible cs"
  shows "snapshot (fold update ds (restore (snapshot (fold update cs s)) t)) = snapshot (fold update (cs @ ds) s)"
  by (rule core_snapshot [OF catch_up [OF assms]])

end

end
