(* ===== verification/Fsm_Snapshot.thy ===== *)
theory Fsm_Snapshot
  imports Fsm_Events State_Machine
begin

text \<open>
  Snapshots of the lock FSM: \<^verbatim>\<open>Snapshot\<close> and \<^verbatim>\<open>Restore\<close> of \<^verbatim>\<open>fsm.go\<close> over the messages of
  \<^verbatim>\<open>fsm.pb.go\<close>, the round trip, that the map iteration order inside \<^verbatim>\<open>Restore\<close> does not matter, and
  the interpretation of \<open>state_machine\<close>.
\<close>

record waiter_state =
  pw_ClientId :: string
  pw_EnqueueSeq :: u64
  pw_Value :: bytes

record lock_state =
  pl_Name :: string
  pl_Holder :: "string option"
  pl_Token :: u64
  pl_Value :: bytes
  pl_Queue :: "waiter_state list"

record lease_state =
  pe_ClientId :: string
  pe_TtlMs :: i64
  pe_ExpireAtUnixNano :: i64
  pe_HeldKeys :: "string list"

record snapshot =
  ps_Seq :: u64
  ps_Revision :: u64
  ps_Locks :: "lock_state list"
  ps_Leases :: "lease_state list"

definition lockState :: "string \<Rightarrow> lock \<Rightarrow> lock_state" where
  "lockState name lk = \<lparr>pl_Name = name,
     pl_Holder = (if lk_holder lk \<noteq> [] then Some (lk_holder lk) else None),
     pl_Token = lk_token lk, pl_Value = lk_value lk,
     pl_Queue = map (\<lambda>w. \<lparr>pw_ClientId = w_clientID w, pw_EnqueueSeq = w_seq w, pw_Value = w_value w\<rparr>)
       (lk_queue lk)\<rparr>"

definition leaseState :: "string \<Rightarrow> lease \<Rightarrow> lease_state" where
  "leaseState clientID l = \<lparr>pe_ClientId = clientID, pe_TtlMs = ls_ttlMS l,
     pe_ExpireAtUnixNano = ls_expireAt l, pe_HeldKeys = sorted_list_of_fset (ls_held l)\<rparr>"

definition Snapshot :: "fsm \<Rightarrow> snapshot" where
  "Snapshot f = \<lparr>ps_Seq = seq f, ps_Revision = revision f,
     ps_Locks = map (\<lambda>(name, lk). lockState name lk) (sorted_bindings (locks f)),
     ps_Leases = map (\<lambda>(clientID, l). leaseState clientID l) (sorted_bindings (leases f))\<rparr>"

definition restore_lease :: "lease_state \<Rightarrow> lease" where
  "restore_lease l = \<lparr>ls_clientID = pe_ClientId l, ls_ttlMS = pe_TtlMs l,
     ls_expireAt = pe_ExpireAtUnixNano l, ls_held = {||}, ls_waiting = {||}\<rparr>"

definition restore_lock :: "lock_state \<Rightarrow> lock" where
  "restore_lock l = \<lparr>lk_name = pl_Name l,
     lk_holder = (case pl_Holder l of None \<Rightarrow> [] | Some owner \<Rightarrow> owner),
     lk_token = pl_Token l, lk_value = pl_Value l,
     lk_queue = map (\<lambda>w. \<lparr>w_clientID = pw_ClientId w, w_seq = pw_EnqueueSeq w, w_value = pw_Value w\<rparr>)
       (pl_Queue l)\<rparr>"

text \<open>One round of the loop that rebuilds the indexes of the leases.\<close>

definition index_holder :: "lock \<Rightarrow> (string, lease) fmap \<Rightarrow> (string, lease) fmap" where
  "index_holder lk m =
     (if lk_holder lk = [] then m
      else case fmlookup m (lk_holder lk) of
             None \<Rightarrow> m
           | Some l \<Rightarrow> fmupd (lk_holder lk) (l\<lparr>ls_held := finsert (lk_name lk) (ls_held l)\<rparr>) m)"

definition index_waiter :: "string \<Rightarrow> waiter \<Rightarrow> (string, lease) fmap \<Rightarrow> (string, lease) fmap" where
  "index_waiter name w m =
     (case fmlookup m (w_clientID w) of
        None \<Rightarrow> m
      | Some l \<Rightarrow> fmupd (w_clientID w) (l\<lparr>ls_waiting := finsert name (ls_waiting l)\<rparr>) m)"

definition index_lock :: "lock \<Rightarrow> (string, lease) fmap \<Rightarrow> (string, lease) fmap" where
  "index_lock lk m = fold (index_waiter (lk_name lk)) (lk_queue lk) (index_holder lk m)"

definition restored_locks :: "snapshot \<Rightarrow> (string, lock) fmap" where
  "restored_locks snap = fold (\<lambda>l. fmupd (pl_Name l) (restore_lock l)) (ps_Locks snap) fmempty"

definition restored_leases :: "snapshot \<Rightarrow> (string, lease) fmap" where
  "restored_leases snap = fold (\<lambda>l. fmupd (pe_ClientId l) (restore_lease l)) (ps_Leases snap) fmempty"

text \<open>
  \<^verbatim>\<open>Restore\<close> ranges over the new lock map in an order Go leaves open; \<open>Restore_ranging lks\<close> is the run
  that visits the locks in the order \<open>lks\<close>.
\<close>

definition Restore_ranging :: "lock list \<Rightarrow> snapshot \<Rightarrow> fsm \<Rightarrow> fsm" where
  "Restore_ranging lks snap f = f\<lparr>seq := ps_Seq snap, revision := ps_Revision snap,
     locks := restored_locks snap, leases := fold index_lock lks (restored_leases snap)\<rparr>"

definition Restore :: "snapshot \<Rightarrow> fsm \<Rightarrow> fsm" where
  "Restore snap f = Restore_ranging (map snd (sorted_bindings (restored_locks snap))) snap f"

subsection \<open>The index loop\<close>

lemma index_holder_lookup:
  "fmlookup (index_holder lk m) c = map_option (\<lambda>l. l\<lparr>ls_held :=
     (if lk_holder lk = c \<and> c \<noteq> [] then finsert (lk_name lk) (ls_held l) else ls_held l)\<rparr>) (fmlookup m c)"
proof (cases "lk_holder lk = c \<and> c \<noteq> []")
  case True
  then have "lk_holder lk = c" "c \<noteq> []" by simp_all
  then show ?thesis by (cases "fmlookup m c") (simp_all add: index_holder_def)
next
  case False
  then have "fmlookup (index_holder lk m) c = fmlookup m c"
    by (simp add: index_holder_def split: option.split)
  then show ?thesis unfolding if_not_P [OF False] by (simp add: option.map_ident)
qed

lemma fold_index_waiter_lookup:
  "fmlookup (fold (index_waiter name) q m) c = map_option (\<lambda>l. l\<lparr>ls_waiting :=
     (if c \<in> w_clientID ` set q then finsert name (ls_waiting l) else ls_waiting l)\<rparr>) (fmlookup m c)"
proof (induction q arbitrary: m)
  case (Cons w q)
  have e: "fmlookup (index_waiter name w m) c = map_option (\<lambda>l. l\<lparr>ls_waiting :=
     (if c = w_clientID w then finsert name (ls_waiting l) else ls_waiting l)\<rparr>) (fmlookup m c)"
    by (cases "w_clientID w = c"; cases "fmlookup m (w_clientID w)"; cases "fmlookup m c")
      (simp_all add: index_waiter_def)
  show ?case unfolding fold_Cons comp_apply Cons.IH e
    by (cases "fmlookup m c"; cases "c = w_clientID w"; cases "c \<in> w_clientID ` set q") simp_all
qed (simp add: option.map_ident)

definition held_names :: "lock list \<Rightarrow> string \<Rightarrow> string fset" where
  "held_names lks c = fset_of_list (map lk_name (filter (\<lambda>lk. lk_holder lk = c \<and> c \<noteq> []) lks))"

definition waiting_names :: "lock list \<Rightarrow> string \<Rightarrow> string fset" where
  "waiting_names lks c = fset_of_list (map lk_name (filter (\<lambda>lk. c \<in> w_clientID ` set (lk_queue lk)) lks))"

lemma index_lock_lookup:
  "fmlookup (index_lock lk m) c = map_option (\<lambda>l. l\<lparr>ls_held := ls_held l |\<union>| held_names [lk] c,
     ls_waiting := ls_waiting l |\<union>| waiting_names [lk] c\<rparr>) (fmlookup m c)"
  unfolding index_lock_def fold_index_waiter_lookup index_holder_lookup
  by (cases "fmlookup m c"; cases "lk_holder lk = c"; cases "c = []"; cases "c \<in> w_clientID ` set (lk_queue lk)")
    (simp_all add: held_names_def waiting_names_def)

lemma names_Cons:
  "held_names (lk # lks) c = held_names [lk] c |\<union>| held_names lks c"
  "waiting_names (lk # lks) c = waiting_names [lk] c |\<union>| waiting_names lks c"
  by (auto simp: held_names_def waiting_names_def)

lemma fold_index_lock_lookup:
  "fmlookup (fold index_lock lks m) c = map_option (\<lambda>l. l\<lparr>ls_held := ls_held l |\<union>| held_names lks c,
     ls_waiting := ls_waiting l |\<union>| waiting_names lks c\<rparr>) (fmlookup m c)"
proof (induction lks arbitrary: m)
  case (Cons lk lks)
  show ?case
    unfolding fold_Cons comp_apply Cons.IH index_lock_lookup names_Cons [of lk lks]
    by (cases "fmlookup m c") (simp_all add: funion_assoc)
qed (simp add: held_names_def waiting_names_def option.map_ident)

lemma fset_of_list_cong: "set xs = set ys \<Longrightarrow> fset_of_list xs = fset_of_list ys"
  by (metis fset_inject fset_of_list.rep_eq)

text \<open>The rebuilt indexes depend on the set of locks visited only.\<close>

lemma fold_index_lock_order:
  assumes "set lks = set lks'"
  shows "fold index_lock lks m = fold index_lock lks' m"
proof (rule fmap_eqI)
  fix c
  have "held_names lks c = held_names lks' c" "waiting_names lks c = waiting_names lks' c"
    unfolding held_names_def waiting_names_def by (rule fset_of_list_cong; simp add: assms)+
  then show "fmlookup (fold index_lock lks m) c = fmlookup (fold index_lock lks' m) c"
    by (simp add: fold_index_lock_lookup)
qed

subsection \<open>The round trip\<close>

lemma waiter_eta: "\<lparr>w_clientID = w_clientID w, w_seq = w_seq w, w_value = w_value w\<rparr> = w"
  by simp

lemma restored_locks_Snapshot:
  assumes "named f"
  shows "restored_locks (Snapshot f) = locks f"
proof (rule fmap_eqI)
  fix k
  have id: "restore_lock (lockState k lk) = lk" if "fmlookup (locks f) k = Some lk" for k lk
    by (rule lock.equality)
      (use named_name [OF assms that] in \<open>simp_all add: restore_lock_def lockState_def comp_def waiter_eta\<close>)
  have "map (\<lambda>x. (pl_Name x, restore_lock x)) (map (\<lambda>(name, lk). lockState name lk) (sorted_bindings (locks f)))
      = sorted_bindings (locks f)"
    by (rule map_idI_map) (auto simp: id set_sorted_bindings, simp add: lockState_def)
  moreover have "distinct (map pl_Name (map (\<lambda>(name, lk). lockState name lk) (sorted_bindings (locks f))))"
    by (simp add: comp_def case_prod_beta' lockState_def)
  ultimately show "fmlookup (restored_locks (Snapshot f)) k = fmlookup (locks f) k"
    unfolding restored_locks_def
    by (simp add: fold_fmupd_lookup Snapshot_def split: option.split)
qed

lemma restored_leases_Snapshot:
  assumes "indexed X (line f) (leases f)"
  shows "fmlookup (restored_leases (Snapshot f)) c =
    map_option (\<lambda>l. l\<lparr>ls_held := {||}, ls_waiting := {||}\<rparr>) (fmlookup (leases f) c)"
proof -
  let ?ls = "map (\<lambda>(c, l). leaseState c l) (sorted_bindings (leases f))"
  let ?blank = "\<lambda>l :: lease. l\<lparr>ls_held := {||}, ls_waiting := {||}\<rparr>"
  have "restore_lease (leaseState c l) = ?blank l" if "fmlookup (leases f) c = Some l" for c l
    by (rule lease.equality)
      (use indexedD(3) [OF assms that] in \<open>simp_all add: restore_lease_def leaseState_def\<close>)
  then have m: "map (\<lambda>x. (pe_ClientId x, restore_lease x)) ?ls = map (\<lambda>(c, l). (c, ?blank l)) (sorted_bindings (leases f))"
    by (auto simp: set_sorted_bindings leaseState_def)
  have d: "distinct (map pe_ClientId ?ls)" by (simp add: comp_def case_prod_beta' leaseState_def)
  have mo: "map_of (map (\<lambda>(c, l). (c, ?blank l)) (sorted_bindings (leases f))) c =
      map_option ?blank (fmlookup (leases f) c)" by (simp add: map_of_map)
  have "ps_Leases (Snapshot f) = ?ls" by (simp add: Snapshot_def)
  then show ?thesis
    unfolding restored_leases_def using fold_fmupd_lookup [OF d, of restore_lease fmempty c] m mo
    by (cases "fmlookup (leases f) c") (simp_all only: fmempty_lookup option.simps)
qed

lemma fset_held_names:
  assumes "named f" "set lks = snd ` set (sorted_bindings (locks f))" "c \<noteq> []"
  shows "fset (held_names lks c) = heads (line f) c" "fset (waiting_names lks c) = stands_behind (line f) c"
proof -
  have s: "lk \<in> set lks \<longleftrightarrow> fmlookup (locks f) (lk_name lk) = Some lk" for lk
  proof -
    have "lk \<in> set lks \<longleftrightarrow> (\<exists>k. fmlookup (locks f) k = Some lk)"
      unfolding assms(2) image_iff by (metis prod.collapse set_sorted_bindings snd_conv)
    then show ?thesis using named_name [OF assms(1)] by blast
  qed
  have n: "fmlookup (locks f) k = Some lk \<Longrightarrow> lk_name lk = k" for k lk using named_name [OF assms(1)] .
  have l: "line f k = (case fmlookup (locks f) k of None \<Rightarrow> [] | Some lk \<Rightarrow> lk_holder lk # map w_clientID (lk_queue lk))"
    for k by (simp add: line_def lock_line_def split: option.split)
  have "k \<in> fset (held_names lks c) \<longleftrightarrow> (\<exists>lk. fmlookup (locks f) k = Some lk \<and> lk_holder lk = c)" for k
  proof -
    have "k \<in> fset (held_names lks c) \<longleftrightarrow> (\<exists>lk. lk \<in> set lks \<and> lk_holder lk = c \<and> lk_name lk = k)"
      using assms(3) by (auto simp: held_names_def fset_of_list.rep_eq)
    then show ?thesis unfolding s using n by metis
  qed
  then show "fset (held_names lks c) = heads (line f) c"
    unfolding heads_def l by (auto split: option.splits)
  have "k \<in> fset (waiting_names lks c) \<longleftrightarrow>
      (\<exists>lk. fmlookup (locks f) k = Some lk \<and> c \<in> w_clientID ` set (lk_queue lk))" for k
  proof -
    have "k \<in> fset (waiting_names lks c) \<longleftrightarrow>
        (\<exists>lk. lk \<in> set lks \<and> c \<in> w_clientID ` set (lk_queue lk) \<and> lk_name lk = k)"
      by (auto simp: waiting_names_def fset_of_list.rep_eq)
    then show ?thesis unfolding s using n by metis
  qed
  then show "fset (waiting_names lks c) = stands_behind (line f) c"
    unfolding stands_behind_def l by (auto split: option.splits)
qed

lemma Restore_ranging_Snapshot:
  assumes w: "fsm_wf f" and r: "set lks = snd ` set (sorted_bindings (locks f))"
  shows "Restore_ranging lks (Snapshot f) g = f\<lparr>notifier := notifier g\<rparr>"
proof -
  note i = fsm_wfD(2) [OF w] and n = fsm_wfD(1) [OF w]
  have "fold index_lock lks (restored_leases (Snapshot f)) = leases f"
  proof (rule fmap_eqI)
    fix c
    show "fmlookup (fold index_lock lks (restored_leases (Snapshot f))) c = fmlookup (leases f) c"
    proof (cases "fmlookup (leases f) c")
      case None
      then show ?thesis by (simp add: fold_index_lock_lookup restored_leases_Snapshot [OF i])
    next
      case (Some l)
      have "held_names lks c = ls_held l" "waiting_names lks c = ls_waiting l"
        using fset_held_names [OF n r indexedD(4) [OF i Some]] indexedD(5,6) [OF i Some]
        by (simp_all add: fset_inject [symmetric])
      then show ?thesis using Some by (simp add: fold_index_lock_lookup restored_leases_Snapshot [OF i])
    qed
  qed
  then show ?thesis
    by (intro fsm.equality) (simp_all add: Restore_ranging_def restored_locks_Snapshot [OF n], simp_all add: Snapshot_def)
qed

text \<open>C15. Snapshots lose nothing. Restoring the snapshot of any reachable state into any shard gives that
  state back, with the receiving shard's own notifier, whatever the order in which the index loop
  ranges over the new lock map: the \<open>held\<close> and \<open>waiting\<close> indexes, which the snapshot leaves out or
  ignores, are rebuilt exactly.\<close>

theorem restore_snapshot_roundtrip:
  assumes "list_all valid_command cs"
    and "set lks = snd ` set (sorted_bindings (restored_locks (Snapshot (run cs (New es)))))"
  shows "Restore_ranging lks (Snapshot (run cs (New es))) g = (run cs (New es))\<lparr>notifier := notifier g\<rparr>"
  using Restore_ranging_Snapshot [OF run_wf [OF fsm_wf_New assms(1)]] assms(2)
    restored_locks_Snapshot [OF fsm_wfD(1) [OF run_wf [OF fsm_wf_New assms(1)]]] by simp

theorem restore_snapshot_roundtrip_witness:
  "Restore (Snapshot (run demo_log (New None))) (New (Some [])) = (run demo_log (New None))\<lparr>notifier := Some []\<rparr>"
  unfolding Restore_def
  using restore_snapshot_roundtrip [of demo_log _ None "New (Some [])"]
  by (simp add: demo_valid New_def)

subsection \<open>The lock FSM as a replicated state machine\<close>

text \<open>What a command does to the replicated part of the state does not depend on the notifier.\<close>

definition core :: "fsm \<Rightarrow> fsm" where
  "core f = f\<lparr>notifier := None\<rparr>"

lemma core_simps [simp]:
  "locks (core f) = locks f" "leases (core f) = leases f" "seq (core f) = seq f"
  "revision (core f) = revision f" "notifier (core f) = None"
  by (simp_all add: core_def)

lemma core_update_fields [simp]:
  "core (f\<lparr>locks := a\<rparr>) = (core f)\<lparr>locks := a\<rparr>" "core (f\<lparr>leases := b\<rparr>) = (core f)\<lparr>leases := b\<rparr>"
  "core (f\<lparr>seq := n\<rparr>) = (core f)\<lparr>seq := n\<rparr>" "core (f\<lparr>revision := n\<rparr>) = (core f)\<lparr>revision := n\<rparr>"
  by (simp_all add: core_def)

lemma core_emit [simp]: "core (emit f k h t v) = core f" "emit (core f) k h t v = core f"
  by (simp_all add: core_def emit_def split: option.splits)

lemma emit_no_notifier: "notifier f = None \<Longrightarrow> emit f k h t v = f"
  by (simp add: emit_def)

lemma core_promote_loop: "core (promote_loop f lk q) = promote_loop (core f) lk q"
  by (induction q) (simp_all add: Let_def emit_no_notifier split: option.split)

lemma result_core [simp]:
  "result (core f) oc = result f oc" "resultKey (core f) oc k = resultKey f oc k"
  by (simp_all add: result_def resultKey_def)

lemma core_fold_held: "core (fold (dropLease_held c) ks f) = fold (dropLease_held c) ks (core f)"
  by (induction ks arbitrary: f)
    (simp_all add: dropLease_held_def promote_def core_promote_loop split: option.split)

lemma core_fold_waiting: "core (fold (dropLease_waiting c) ks f) = fold (dropLease_waiting c) ks (core f)"
  by (induction ks arbitrary: f) (simp_all add: dropLease_waiting_def split: option.split)

lemma core_dropLease: "core (dropLease f ls) = dropLease (core f) ls"
proof -
  have "leases (fold (dropLease_held c) ks f) = leases (fold (dropLease_held c) ks (core f))" for c ks
    using core_simps(2) [of "fold (dropLease_held c) ks f"] by (simp add: core_fold_held)
  then show ?thesis
    unfolding dropLease_def Let_def core_update_fields core_fold_waiting core_fold_held
    by (simp flip: core_fold_held core_fold_waiting)
qed

lemma result_frame [simp]:
  "result (emit f k h t v) oc = result f oc" "resultKey (emit f k h t v) oc key = resultKey f oc key"
  "result (f\<lparr>locks := a\<rparr>) oc = result f oc" "resultKey (f\<lparr>locks := a\<rparr>) oc key = resultKey f oc key"
  "result (f\<lparr>leases := b\<rparr>) oc = result f oc" "resultKey (f\<lparr>leases := b\<rparr>) oc key = resultKey f oc key"
  "result (f\<lparr>seq := n\<rparr>) oc = result f oc" "resultKey (f\<lparr>seq := n\<rparr>) oc key = resultKey f oc key"
  by (simp_all add: result_def resultKey_def)

lemma result_core_cong: "core f = core g \<Longrightarrow> result f oc = result g oc \<and> resultKey f oc k = resultKey g oc k"
  by (metis result_core)

lemma core_lock_commands:
  "acquire (core f) name c v try = apfst core (acquire f name c v try)"
  "release (core f) name c t = apfst core (release f name c t)"
  "cancelWait (core f) name c = apfst core (cancelWait f name c)"
  "proclaim (core f) name c t v = apfst core (proclaim f name c t v)"
  by (simp_all add: acquire_def grant_def release_def cancelWait_def proclaim_def Let_def promote_def
      emit_no_notifier flip: core_promote_loop split: option.split)
    (simp_all add: core_promote_loop flip: core_update_fields core_promote_loop)

lemma core_lease_commands:
  "leaseGrant (core f) c ttl now = apfst core (leaseGrant f c ttl now)"
  "leaseKeepAlive (core f) c now = apfst core (leaseKeepAlive f c now)"
  "leaseRevoke (core f) c = apfst core (leaseRevoke f c)"
  "leaseExpire (core f) c now = apfst core (leaseExpire f c now)"
  by (simp_all add: leaseGrant_def leaseKeepAlive_def leaseRevoke_def leaseExpire_def Let_def
      flip: core_dropLease split: option.split)

lemma core_Apply: "Apply (core f) cmd = apfst core (Apply f cmd)"
proof (cases cmd)
  case (Some c)
  have "exec_command (core g) c = apfst core (exec_command g c)" for g
    by (cases c) (simp_all add: core_lock_commands core_lease_commands apfst_def apsnd_def map_prod_def
        split: prod.split)
  from this [of "f\<lparr>revision := revision f + 1\<rparr>"] Some show ?thesis by (simp add: Apply_def)
qed (simp add: Apply_def)

lemma core_step: "core (step c f) = step c (core f)"
  by (simp add: step_def core_Apply)

interpretation fsm_machine: state_machine step "\<lambda>c f. snd (Apply f (Some c))" Snapshot Restore core fsm_wf valid_command
proof
  fix s t :: fsm and c
  assume e: "core s = core t"
  show "core (step c s) = core (step c t)" by (simp add: core_step e)
  show "snd (Apply s (Some c)) = snd (Apply t (Some c))"
    using core_Apply [of s "Some c"] core_Apply [of t "Some c"] by (metis e snd_apfst)
  have "locks s = locks t" "leases s = leases t" "seq s = seq t" "revision s = revision t"
    using e by (metis core_simps)+
  then show "Snapshot s = Snapshot t" by (simp add: Snapshot_def)
next
  fix s t :: fsm
  assume w: "fsm_wf s"
  then show "core (Restore (Snapshot s) t) = core s"
    unfolding Restore_def
    by (simp add: Restore_ranging_Snapshot restored_locks_Snapshot fsm_wfD(1) core_def)
qed (rule step_wf)

text \<open>C16. A replica that joins late catches up. Take the log \<open>cs @ ds\<close>. A shard, in whatever state, that
  is restored from a snapshot taken after \<open>cs\<close> and then applies \<open>ds\<close> has the same locks, leases and
  counters as one that applied the whole log, gives the same answers to \<open>ds\<close>, and takes the same
  snapshot.\<close>

theorem late_replica_catches_up:
  assumes "list_all valid_command cs"
  shows "core (run ds (Restore (Snapshot (run cs (New es))) g)) = core (run (cs @ ds) (New es)) \<and>
    fsm_machine.answers ds (Restore (Snapshot (run cs (New es))) g) = fsm_machine.answers ds (run cs (New es)) \<and>
    Snapshot (run ds (Restore (Snapshot (run cs (New es))) g)) = Snapshot (run (cs @ ds) (New es))"
  unfolding run_def
  using fsm_machine.catch_up [OF fsm_wf_New assms] fsm_machine.catch_up_answers [OF fsm_wf_New assms]
    fsm_machine.catch_up_snapshot [OF fsm_wf_New assms] by simp

theorem late_replica_catches_up_witness:
  "core (run [LeaseRevoke ''a''] (Restore (Snapshot (run demo_log (New None))) (New None))) =
     core (run (demo_log @ [LeaseRevoke ''a'']) (New None))"
  by (rule late_replica_catches_up [OF demo_valid(1), THEN conjunct1])

end
