(* ===== verification/Meta_Store.thy ===== *)
theory Meta_Store
  imports State_Machine
begin

text \<open>
  The membership store of the meta shard (\<^verbatim>\<open>internal/raft/meta/store.go\<close>): replica id to addresses,
  with a logical clock. It meets the same contract with the consensus layer as the lock FSM.
\<close>

record member =
  ReplicaId :: u64
  RaftAddress :: string
  ZuulGrpcAddress :: string
  NodeHostId :: string

datatype meta_command = MetaPut member | MetaDelete u64 | MetaCmd_Unset

datatype meta_error = MetaNilCommand | MetaUnknownCommand

record store =
  members :: "(u64, member) fmap"
  store_revision :: u64

record meta_snapshot =
  msnap_Revision :: u64
  msnap_Members :: "member list"

definition NewStore :: store where
  "NewStore = \<lparr>members = fmempty, store_revision = 0\<rparr>"

definition cloneMember :: "member \<Rightarrow> member" where
  "cloneMember m = \<lparr>ReplicaId = ReplicaId m, RaftAddress = RaftAddress m,
     ZuulGrpcAddress = ZuulGrpcAddress m, NodeHostId = NodeHostId m\<rparr>"

text \<open>\<^verbatim>\<open>Apply\<close> returns the revision, the one field of \<^verbatim>\<open>MetaResult\<close>. The clock moves before the
  command is looked at, so an unset command moves it too.\<close>

definition meta_Apply :: "store \<Rightarrow> meta_command option \<Rightarrow> store \<times> (meta_error + u64)" where
  "meta_Apply s c =
     (case c of
        None \<Rightarrow> (s, Inl MetaNilCommand)
      | Some cmd \<Rightarrow>
        (let s1 = s\<lparr>store_revision := store_revision s + 1\<rparr>
         in case cmd of
              MetaPut m \<Rightarrow> (let s2 = s1\<lparr>members := fmupd (ReplicaId m) (cloneMember m) (members s1)\<rparr>
                            in (s2, Inr (store_revision s2)))
            | MetaDelete i \<Rightarrow> (let s2 = s1\<lparr>members := fmdrop i (members s1)\<rparr>
                            in (s2, Inr (store_revision s2)))
            | MetaCmd_Unset \<Rightarrow> (s1, Inl MetaUnknownCommand)))"

definition meta_list :: "store \<Rightarrow> member list" where
  "meta_list s = map (\<lambda>(i, m). cloneMember m) (sorted_bindings (members s))"

datatype meta_query = MemberQuery u64 | ListQuery | MetaUnknownQuery

datatype meta_answer = MemberAnswer "member option" | ListAnswer "member list"

definition meta_Query :: "store \<Rightarrow> meta_query \<Rightarrow> unit + meta_answer" where
  "meta_Query s q =
     (case q of
        MemberQuery i \<Rightarrow> Inr (MemberAnswer (map_option cloneMember (fmlookup (members s) i)))
      | ListQuery \<Rightarrow> Inr (ListAnswer (meta_list s))
      | MetaUnknownQuery \<Rightarrow> Inl ())"

definition meta_Snapshot :: "store \<Rightarrow> meta_snapshot" where
  "meta_Snapshot s = \<lparr>msnap_Revision = store_revision s, msnap_Members = meta_list s\<rparr>"

definition meta_Restore :: "meta_snapshot \<Rightarrow> store \<Rightarrow> store" where
  "meta_Restore snap s = s\<lparr>store_revision := msnap_Revision snap,
     members := fold (\<lambda>m. fmupd (ReplicaId m) (cloneMember m)) (msnap_Members snap) fmempty\<rparr>"

definition meta_step :: "meta_command \<Rightarrow> store \<Rightarrow> store" where
  "meta_step c s = fst (meta_Apply s (Some c))"

subsection \<open>Invariant and contract\<close>

text \<open>Every member is filed under its own replica id.\<close>

definition store_wf :: "store \<Rightarrow> bool" where
  "store_wf s \<longleftrightarrow> (\<forall>i m. fmlookup (members s) i = Some m \<longrightarrow> ReplicaId m = i)"

lemma cloneMember_id [simp]: "cloneMember m = m"
  by (simp add: cloneMember_def)

lemma meta_list_eq: "meta_list s = map snd (sorted_bindings (members s))"
  by (simp add: meta_list_def case_prod_beta')

lemma store_wf_step: "store_wf s \<Longrightarrow> store_wf (meta_step c s)"
  by (auto simp: store_wf_def meta_step_def meta_Apply_def Let_def split: meta_command.splits if_splits)

lemma store_wf_New: "store_wf NewStore"
  by (simp add: store_wf_def NewStore_def)

lemma meta_restore_snapshot:
  assumes "store_wf s"
  shows "meta_Restore (meta_Snapshot s) t = s"
proof -
  let ?b = "sorted_bindings (members s)"
  have m: "map (\<lambda>m. (ReplicaId m, m)) (map snd ?b) = ?b"
    using assms by (intro map_idI_map) (auto simp: store_wf_def set_sorted_bindings)
  then have d: "distinct (map ReplicaId (map snd ?b))"
    using fst_sorted_bindings [of "members s"] by (metis (no_types, lifting) comp_apply distinct_sorted_list_of_fset fst_conv list.map_comp map_eq_conv)
  have "fold (\<lambda>m. fmupd (ReplicaId m) m) (map snd ?b) fmempty = members s"
  proof (rule fmap_eqI)
    fix k
    show "fmlookup (fold (\<lambda>m. fmupd (ReplicaId m) m) (map snd ?b) fmempty) k = fmlookup (members s) k"
      unfolding fold_fmupd_lookup [OF d] m map_of_sorted_bindings by (simp split: option.split)
  qed
  then show ?thesis
    by (intro store.equality) (simp_all add: meta_Restore_def meta_Snapshot_def meta_list_eq)
qed

interpretation meta_machine:
  state_machine meta_step "\<lambda>c s. snd (meta_Apply s (Some c))" meta_Snapshot meta_Restore id store_wf "\<lambda>_. True"
  by unfold_locales (simp_all add: store_wf_step meta_restore_snapshot)

definition meta_run :: "meta_command list \<Rightarrow> store \<Rightarrow> store" where
  "meta_run cs s = fold meta_step cs s"

lemma meta_run_snoc [simp]: "meta_run (cs @ [c]) s = meta_step c (meta_run cs s)"
  by (simp add: meta_run_def)

lemma meta_run_wf: "store_wf (meta_run cs NewStore)"
  unfolding meta_run_def by (rule meta_machine.inv_replay [OF store_wf_New]) (simp add: list_all_iff)

text \<open>\<open>last_put cs i m\<close>: the log puts \<open>m\<close> for replica \<open>i\<close> and nothing after that names \<open>i\<close>.\<close>

fun names_replica :: "u64 \<Rightarrow> meta_command \<Rightarrow> bool" where
  "names_replica i (MetaPut m) = (ReplicaId m = i)"
| "names_replica i (MetaDelete j) = (j = i)"
| "names_replica i MetaCmd_Unset = False"

definition last_put :: "meta_command list \<Rightarrow> u64 \<Rightarrow> member \<Rightarrow> bool" where
  "last_put cs i m \<longleftrightarrow> (\<exists>pre post. cs = pre @ MetaPut m # post \<and> ReplicaId m = i \<and>
     list_all (\<lambda>c. \<not> names_replica i c) post)"

lemma last_put_snoc:
  "last_put (cs @ [c]) i m \<longleftrightarrow>
     (if names_replica i c then c = MetaPut m else last_put cs i m)"
proof -
  have "last_put (cs @ [c]) i m \<longleftrightarrow> c = MetaPut m \<and> ReplicaId m = i \<or> \<not> names_replica i c \<and> last_put cs i m"
  proof
    assume "last_put (cs @ [c]) i m"
    then obtain pre post where *: "cs @ [c] = pre @ MetaPut m # post" "ReplicaId m = i"
      "list_all (\<lambda>c. \<not> names_replica i c) post" by (auto simp: last_put_def)
    then show "c = MetaPut m \<and> ReplicaId m = i \<or> \<not> names_replica i c \<and> last_put cs i m"
      by (cases post rule: rev_cases) (auto simp: last_put_def)
  next
    assume "c = MetaPut m \<and> ReplicaId m = i \<or> \<not> names_replica i c \<and> last_put cs i m"
    then show "last_put (cs @ [c]) i m"
    proof
      assume "\<not> names_replica i c \<and> last_put cs i m"
      then obtain pre post where "cs @ [c] = pre @ MetaPut m # (post @ [c])" "ReplicaId m = i"
        "list_all (\<lambda>c. \<not> names_replica i c) (post @ [c])" by (auto simp: last_put_def)
      then show ?thesis unfolding last_put_def by blast
    qed (unfold last_put_def, rule exI [of _ cs], rule exI [of _ "[]"], simp)
  qed
  then show ?thesis by (cases c) auto
qed

lemma member_last_put: "fmlookup (members (meta_run cs NewStore)) i = Some m \<longleftrightarrow> last_put cs i m"
proof (induction cs rule: rev_induct)
  case Nil
  then show ?case by (simp add: meta_run_def NewStore_def last_put_def)
next
  case (snoc c cs)
  then show ?case
    unfolding last_put_snoc by (cases c) (auto simp: meta_step_def meta_Apply_def Let_def)
qed

lemma ids_meta_list:
  assumes "store_wf s"
  shows "map ReplicaId (meta_list s) = sorted_list_of_fset (fmdom (members s))"
proof -
  have "map ReplicaId (meta_list s) = map fst (sorted_bindings (members s))"
    unfolding meta_list_eq map_map
    by (rule map_cong) (use assms in \<open>auto simp: store_wf_def set_sorted_bindings\<close>)
  then show ?thesis by simp
qed

text \<open>C21. The membership store is the map its log describes: after any log, a member query for a replica
  id returns a member exactly if the log puts it for that id and no later command names the id; the
  list query returns exactly those members, in strictly ascending order of replica id; and restoring
  a snapshot of it into any store gives the same store.\<close>

theorem meta_store_correct:
  "(\<forall>m. meta_Query (meta_run cs NewStore) (MemberQuery i) = Inr (MemberAnswer (Some m)) \<longleftrightarrow> last_put cs i m) \<and>
   set (meta_list (meta_run cs NewStore)) = {m. last_put cs (ReplicaId m) m} \<and>
   sorted_wrt (<) (map ReplicaId (meta_list (meta_run cs NewStore))) \<and>
   meta_Restore (meta_Snapshot (meta_run cs NewStore)) t = meta_run cs NewStore"
proof (intro conjI)
  let ?s = "meta_run cs NewStore"
  have w: "store_wf ?s" by (rule meta_run_wf)
  show "\<forall>m. meta_Query ?s (MemberQuery i) = Inr (MemberAnswer (Some m)) \<longleftrightarrow> last_put cs i m"
    by (simp add: meta_Query_def member_last_put option.map_id [unfolded id_def])
  have "m \<in> set (meta_list ?s) \<longleftrightarrow> (\<exists>i. fmlookup (members ?s) i = Some m)" for m
    unfolding meta_list_eq by (auto simp: image_iff set_sorted_bindings) (metis set_sorted_bindings snd_conv)
  then show "set (meta_list ?s) = {m. last_put cs (ReplicaId m) m}"
    using w unfolding store_wf_def member_last_put by blast
  show "sorted_wrt (<) (map ReplicaId (meta_list ?s))"
    unfolding ids_meta_list [OF w] by (simp add: strict_sorted_iff)
  show "meta_Restore (meta_Snapshot ?s) t = ?s" by (rule meta_restore_snapshot [OF w])
qed


end
