(* ===== verification/Authz.thy ===== *)
theory Authz
  imports Keypath
begin

text \<open>
  Authorization (\<^verbatim>\<open>internal/auth/authz\<close>): the three authorizers behind the \<^verbatim>\<open>Authorizer\<close> interface, the
  ACL file and the token file. \<open>LoadFile\<close> and \<open>LoadTokens\<close> take the lines the scanner delivers; opening
  and reading the file, and the scanner's own errors, are outside the model.
\<close>

datatype op = UnknownOp | Read | Write | Admin

record rule =
  rl_Prefix :: string
  rl_Write :: bool
  rl_Admin :: bool

text \<open>\<^verbatim>\<open>allowAll\<close>, \<^verbatim>\<open>prefixPolicy\<close> and \<^verbatim>\<open>homeDir\<close>, the implementations of \<^verbatim>\<open>Authorizer\<close>.\<close>

datatype authorizer =
    AllowAll
  | PrefixPolicy "(string, rule list) fmap"
  | HomeDir authorizer

datatype denied = ErrDenied

definition Prefix :: "(string, rule list) fmap \<Rightarrow> authorizer" where
  "Prefix rules = PrefixPolicy rules"

definition NeedsIdentity :: "authorizer option \<Rightarrow> bool" where
  "NeedsIdentity a = (case a of None \<Rightarrow> False | Some x \<Rightarrow> x \<noteq> AllowAll)"

definition prefixCovers :: "string \<Rightarrow> string \<Rightarrow> bool" where
  "prefixCovers prefix key = HasPrefix prefix key"

text \<open>The loop of \<^verbatim>\<open>prefixPolicy.Authorize\<close> over the rules of an identity; an absent map entry is the
  nil slice.\<close>

fun authorize_rules :: "rule list \<Rightarrow> string \<Rightarrow> op \<Rightarrow> denied option" where
  "authorize_rules [] key op = Some ErrDenied"
| "authorize_rules (r # rs) key op =
     (if \<not> prefixCovers (rl_Prefix r) key then authorize_rules rs key op
      else case op of
             Read \<Rightarrow> None
           | Write \<Rightarrow> if rl_Write r then None else authorize_rules rs key op
           | Admin \<Rightarrow> if rl_Admin r then None else authorize_rules rs key op
           | UnknownOp \<Rightarrow> authorize_rules rs key op)"

primrec Authorize :: "authorizer \<Rightarrow> string \<Rightarrow> string \<Rightarrow> op \<Rightarrow> denied option" where
  "Authorize AllowAll identity key op = None"
| "Authorize (PrefixPolicy rules) identity key op =
     authorize_rules (case fmlookup rules identity of None \<Rightarrow> [] | Some rs \<Rightarrow> rs) key op"
| "Authorize (HomeDir inner) identity key op =
     (if identity \<noteq> [] \<and> (op = Read \<or> op = Write) \<and> Owner key = Inr identity then None
      else Authorize inner identity key op)"

subsection \<open>The ACL file\<close>

text \<open>
  \<^verbatim>\<open>strings.Fields\<close> and \<^verbatim>\<open>strings.TrimSpace\<close> on UTF-8 bytes. \<open>space_len\<close> is the number of bytes of the
  space rune a string starts with (\<^verbatim>\<open>unicode.IsSpace\<close>), zero if it starts with none. The lead bytes
  tested here are never continuation bytes, so going on by one byte after a non-space byte finds the
  same spaces as going on by one rune.
\<close>

definition space_runes :: "string list" where
  "space_runes = [[CHR 0x09], [CHR 0x0A], [CHR 0x0B], [CHR 0x0C], [CHR 0x0D], [CHR 0x20],
     [CHR 0xC2, CHR 0x85], [CHR 0xC2, CHR 0xA0], [CHR 0xE1, CHR 0x9A, CHR 0x80],
     [CHR 0xE2, CHR 0x80, CHR 0x80], [CHR 0xE2, CHR 0x80, CHR 0x81], [CHR 0xE2, CHR 0x80, CHR 0x82],
     [CHR 0xE2, CHR 0x80, CHR 0x83], [CHR 0xE2, CHR 0x80, CHR 0x84], [CHR 0xE2, CHR 0x80, CHR 0x85],
     [CHR 0xE2, CHR 0x80, CHR 0x86], [CHR 0xE2, CHR 0x80, CHR 0x87], [CHR 0xE2, CHR 0x80, CHR 0x88],
     [CHR 0xE2, CHR 0x80, CHR 0x89], [CHR 0xE2, CHR 0x80, CHR 0x8A], [CHR 0xE2, CHR 0x80, CHR 0xA8],
     [CHR 0xE2, CHR 0x80, CHR 0xA9], [CHR 0xE2, CHR 0x80, CHR 0xAF], [CHR 0xE2, CHR 0x81, CHR 0x9F],
     [CHR 0xE3, CHR 0x80, CHR 0x80]]"

definition space_len :: "string \<Rightarrow> nat" where
  "space_len s = (case find (\<lambda>r. strings_HasPrefix s r) space_runes of None \<Rightarrow> 0 | Some r \<Rightarrow> length r)"

function fields_from :: "string \<Rightarrow> string \<Rightarrow> string list" where
  "fields_from cur [] = (if cur = [] then [] else [cur])"
| "fields_from cur (c # s) =
     (let n = space_len (c # s)
      in if n = 0 then fields_from (cur @ [c]) s
         else if cur = [] then fields_from [] (drop (n - 1) s)
         else cur # fields_from [] (drop (n - 1) s))"
  by pat_completeness auto
termination by (relation "measure (\<lambda>(cur, s). length s)") auto

definition strings_Fields :: "string \<Rightarrow> string list" where
  "strings_Fields s = fields_from [] s"

datatype acl_error = BadFieldCount nat | BadMode nat

text \<open>\<^verbatim>\<open>parseMode\<close>: the loop over the rights after the leading \<open>r\<close>. The prefix is filled in by the
  caller.\<close>

fun parseRights :: "string \<Rightarrow> rule \<Rightarrow> rule option" where
  "parseRights [] r = Some r"
| "parseRights (c # cs) r =
     (if c = CHR ''w'' then parseRights cs (r\<lparr>rl_Write := True\<rparr>)
      else if c = CHR ''a'' then parseRights cs (r\<lparr>rl_Admin := True\<rparr>)
      else None)"

definition parseMode :: "string \<Rightarrow> rule option" where
  "parseMode mode =
     (case mode of
        [] \<Rightarrow> None
      | c # rest \<Rightarrow>
        if c \<noteq> CHR ''r'' then None
        else parseRights rest \<lparr>rl_Prefix = [], rl_Write = False, rl_Admin = False\<rparr>)"

text \<open>
  The loop of \<^verbatim>\<open>LoadFile\<close> from line number \<open>n\<close> on. The trimmed text of a line is empty iff the line has no
  fields, and it starts with \<open>#\<close> iff its first field does, so the two tests are made on the fields.
\<close>

fun load_lines :: "nat \<Rightarrow> string list \<Rightarrow> (string, rule list) fmap \<Rightarrow> acl_error + (string, rule list) fmap" where
  "load_lines n [] rules = Inr rules"
| "load_lines n (text # lines) rules =
     (let fields = strings_Fields text
      in if fields = [] \<or> strings_HasPrefix (hd fields) ''#'' then load_lines (n + 1) lines rules
         else if length fields \<noteq> 3 then Inl (BadFieldCount n)
         else
           (let ident = fields ! 0;
                prefix = (if fields ! 1 = ''*'' then [] else fields ! 1)
            in case parseMode (fields ! 2) of
                 None \<Rightarrow> Inl (BadMode n)
               | Some r \<Rightarrow>
                 load_lines (n + 1) lines
                   (fmupd ident ((case fmlookup rules ident of None \<Rightarrow> [] | Some rs \<Rightarrow> rs) @ [r\<lparr>rl_Prefix := prefix\<rparr>])
                     rules)))"

definition LoadFile :: "string list \<Rightarrow> acl_error + authorizer" where
  "LoadFile lines =
     (case load_lines 1 lines fmempty of
        Inl e \<Rightarrow> Inl e | Inr rules \<Rightarrow> Inr (HomeDir (Prefix rules)))"

fun load_token_lines :: "nat \<Rightarrow> string list \<Rightarrow> (string, string) fmap \<Rightarrow> acl_error + (string, string) fmap" where
  "load_token_lines n [] tokens = Inr tokens"
| "load_token_lines n (text # lines) tokens =
     (let fields = strings_Fields text
      in if fields = [] \<or> strings_HasPrefix (hd fields) ''#'' then load_token_lines (n + 1) lines tokens
         else if length fields \<noteq> 2 then Inl (BadFieldCount n)
         else load_token_lines (n + 1) lines (fmupd (fields ! 0) (fields ! 1) tokens))"

definition LoadTokens :: "string list \<Rightarrow> acl_error + (string, string) fmap" where
  "LoadTokens lines = load_token_lines 1 lines fmempty"

subsection \<open>Decisions\<close>

fun grants :: "op \<Rightarrow> rule \<Rightarrow> bool" where
  "grants Read r = True"
| "grants Write r = rl_Write r"
| "grants Admin r = rl_Admin r"
| "grants UnknownOp r = False"

lemma authorize_rules_iff:
  "authorize_rules rs key op = None \<longleftrightarrow> (\<exists>r\<in>set rs. prefixCovers (rl_Prefix r) key \<and> grants op r)"
  by (induction rs) (auto split: op.split)

lemma denied_cases: "(d :: denied option) \<noteq> None \<longleftrightarrow> d = Some ErrDenied"
  by (metis (full_types) denied.exhaust not_Some_eq)

text \<open>A line of the file that counts, as what it grants: identity, prefix, rule.\<close>

definition acl_entry :: "string \<Rightarrow> (string \<times> rule) option" where
  "acl_entry text =
     (case strings_Fields text of
        [ident, prefix, mode] \<Rightarrow>
          if strings_HasPrefix ident ''#'' then None
          else map_option (\<lambda>r. (ident, r\<lparr>rl_Prefix := (if prefix = ''*'' then [] else prefix)\<rparr>)) (parseMode mode)
      | _ \<Rightarrow> None)"

definition rules_of :: "string list \<Rightarrow> string \<Rightarrow> rule list" where
  "rules_of lines ident = map snd (filter (\<lambda>(i, r). i = ident) (List.map_filter acl_entry lines))"

lemma load_lines_rules:
  "load_lines n lines rules = Inr rules' \<Longrightarrow>
   (case fmlookup rules' ident of None \<Rightarrow> [] | Some rs \<Rightarrow> rs) =
     (case fmlookup rules ident of None \<Rightarrow> [] | Some rs \<Rightarrow> rs) @ rules_of lines ident"
proof (induction n lines rules rule: load_lines.induct)
  case (1 n rules)
  then show ?case by (simp add: rules_of_def List.map_filter_simps)
next
  case (2 n line lines rules)
  show ?case
  proof (cases "strings_Fields line = [] \<or> strings_HasPrefix (hd (strings_Fields line)) ''#''")
    case True
    then have "acl_entry line = None" by (auto simp: acl_entry_def split: list.splits)
    then show ?thesis using 2 True by (simp add: rules_of_def List.map_filter_simps Let_def)
  next
    case False
    with "2.prems" have l: "length (strings_Fields line) = 3" by (auto simp: Let_def split: if_splits)
    then obtain a b c where f: "strings_Fields line = [a, b, c]"
      by (metis (no_types, opaque_lifting) length_0_conv length_Suc_conv numeral_3_eq_3)
    with False "2.prems" obtain r where r: "parseMode c = Some r" by (auto simp: Let_def split: option.splits)
    have e: "acl_entry line = Some (a, r\<lparr>rl_Prefix := (if b = ''*'' then [] else b)\<rparr>)"
      using False f r by (simp add: acl_entry_def)
    show ?thesis using "2.prems" "2.IH"(2) [OF refl False] f r False e
      by (auto simp: Let_def rules_of_def List.map_filter_simps split: if_splits)
  qed
qed

lemma parseRights_Some:
  "parseRights cs r = Some r' \<longleftrightarrow> set cs \<subseteq> {CHR ''w'', CHR ''a''} \<and>
     r' = r\<lparr>rl_Write := (rl_Write r \<or> CHR ''w'' \<in> set cs), rl_Admin := (rl_Admin r \<or> CHR ''a'' \<in> set cs)\<rparr>"
  by (induction cs arbitrary: r) (auto intro!: rule.equality)

definition well_formed_mode :: "string \<Rightarrow> bool" where
  "well_formed_mode m \<longleftrightarrow> m \<noteq> [] \<and> hd m = CHR ''r'' \<and> set (tl m) \<subseteq> {CHR ''w'', CHR ''a''}"

lemma parseMode_Some:
  "parseMode m = Some r \<longleftrightarrow> well_formed_mode m \<and>
     r = \<lparr>rl_Prefix = [], rl_Write = (CHR ''w'' \<in> set m), rl_Admin = (CHR ''a'' \<in> set m)\<rparr>"
  by (cases m) (auto simp: parseMode_def parseRights_Some well_formed_mode_def)

lemma parseMode_None: "parseMode m = None \<longleftrightarrow> \<not> well_formed_mode m"
  using parseMode_Some [of m] by (cases "parseMode m") auto

lemma HasPrefix_empty [simp]: "HasPrefix [] key"
  by (simp add: HasPrefix_def)

fun mode_grants :: "op \<Rightarrow> string \<Rightarrow> bool" where
  "mode_grants Read m = True"
| "mode_grants Write m = (CHR ''w'' \<in> set m)"
| "mode_grants Admin m = (CHR ''a'' \<in> set m)"
| "mode_grants UnknownOp m = False"

text \<open>A line of the file as it is written: it names the identity, its prefix covers the key, and its
  mode gives the right.\<close>

definition line_grants :: "string \<Rightarrow> string \<Rightarrow> op \<Rightarrow> string \<Rightarrow> bool" where
  "line_grants ident key op line \<longleftrightarrow>
     (\<exists>p m. strings_Fields line = [ident, p, m] \<and> \<not> strings_HasPrefix ident ''#'' \<and>
        well_formed_mode m \<and> (p = ''*'' \<or> HasPrefix p key) \<and> mode_grants op m)"

lemma set_map_filter_iff: "y \<in> set (List.map_filter f xs) \<longleftrightarrow> (\<exists>x\<in>set xs. f x = Some y)"
  by (induction xs) (auto simp: List.map_filter_simps split: option.splits)

lemma acl_entry_grants:
  "(\<exists>r. acl_entry line = Some (ident, r) \<and> HasPrefix (rl_Prefix r) key \<and> grants op r) \<longleftrightarrow>
     line_grants ident key op line"
  unfolding acl_entry_def line_grants_def
  by (cases op) (auto simp: parseMode_Some split: list.splits if_splits)

lemma rules_grant:
  "(\<exists>r\<in>set (rules_of lines ident). prefixCovers (rl_Prefix r) key \<and> grants op r) \<longleftrightarrow>
     (\<exists>line\<in>set lines. line_grants ident key op line)"
  unfolding acl_entry_grants [symmetric] rules_of_def prefixCovers_def
  by (force simp: set_map_filter_iff)



text \<open>A line the loader refuses: not a comment, not blank, and either not three fields or a bad mode.\<close>

definition malformed_line :: "string \<Rightarrow> bool" where
  "malformed_line line \<longleftrightarrow>
     (let fields = strings_Fields line
      in fields \<noteq> [] \<and> \<not> strings_HasPrefix (hd fields) ''#'' \<and>
         (length fields \<noteq> 3 \<or> \<not> well_formed_mode (fields ! 2)))"

fun acl_error_line :: "acl_error \<Rightarrow> nat" where
  "acl_error_line (BadFieldCount n) = n"
| "acl_error_line (BadMode n) = n"

lemma load_lines_error:
  "load_lines n lines rules = Inl e \<Longrightarrow>
   \<exists>pre line post. lines = pre @ line # post \<and> list_all (\<lambda>l. \<not> malformed_line l) pre \<and> malformed_line line \<and>
     acl_error_line e = n + length pre"
proof (induction n lines rules rule: load_lines.induct)
  case (2 n line lines rules)
  show ?case
  proof (cases "malformed_line line")
    case True
    then have "acl_error_line e = n"
      using "2.prems" by (auto simp: malformed_line_def Let_def parseMode_Some split: if_splits option.splits)
    with True show ?thesis by (intro exI [of _ "[]"] exI [of _ line] exI [of _ lines]) simp
  next
    case False
    have "\<exists>rules'. load_lines (n + 1) lines rules' = Inl e \<and>
       (\<exists>pre l post. lines = pre @ l # post \<and> list_all (\<lambda>l. \<not> malformed_line l) pre \<and> malformed_line l \<and>
         acl_error_line e = n + 1 + length pre)"
    proof (cases "strings_Fields line = [] \<or> strings_HasPrefix (hd (strings_Fields line)) ''#''")
      case True
      then have "load_lines (n + 1) lines rules = Inl e" using "2.prems" by (simp add: Let_def)
      with "2.IH"(1) [OF refl True] show ?thesis by blast
    next
      case f: False
      with False "2.prems" obtain r where "length (strings_Fields line) = 3" "parseMode (strings_Fields line ! 2) = Some r"
        by (auto simp: malformed_line_def Let_def parseMode_None split: option.splits)
      moreover from this "2.prems" f have l: "load_lines (n + 1) lines
          (fmupd (strings_Fields line ! 0) ((case fmlookup rules (strings_Fields line ! 0) of None \<Rightarrow> [] | Some rs \<Rightarrow> rs) @
            [r\<lparr>rl_Prefix := (if strings_Fields line ! 1 = ''*'' then [] else strings_Fields line ! 1)\<rparr>]) rules) = Inl e"
        by (simp add: Let_def)
      ultimately show ?thesis using "2.IH"(2) [OF refl f _ refl refl _ l] by blast
    qed
    then obtain pre l post where *: "lines = pre @ l # post" "list_all (\<lambda>l. \<not> malformed_line l) pre" "malformed_line l"
      "acl_error_line e = n + 1 + length pre" by blast
    show ?thesis by (rule exI [of _ "line # pre"], rule exI [of _ l], rule exI [of _ post]) (use * False in simp)
  qed
qed simp



end
