(* ===== verification/Raft_Types.thy ===== *)
theory Raft_Types
  imports Zuul_Prelude
begin

text \<open>
  The messages, entries and small records of the Raft library (\<^verbatim>\<open>internal/dragonboat/raftpb\<close>).

  Terms, log indexes, node ids and ticks are \<^verbatim>\<open>uint64\<close> counters that start at zero and grow by one per
  election, entry or tick; the model has them as \<^typ>\<open>nat\<close>. Where the source subtracts and may go below
  zero, the definitions write out what the wrapped value does; the byte counts of the rate limiter,
  where wrap-around is reachable, are words.

  A panic of the library (\<^verbatim>\<open>panic\<close>, \<^verbatim>\<open>plog.Panicf\<close>, an index out of range) is the value \<^const>\<open>None\<close>
  of an option: the node stops.
\<close>

datatype entry_type = ApplicationEntry | ConfigChangeEntry | EncodedEntry | MetadataEntry

record entry =
  e_Term :: nat
  e_Index :: nat
  e_Type :: entry_type
  e_Key :: nat
  e_ClientID :: nat
  e_SeriesID :: nat
  e_RespondedTo :: nat
  e_Cmd :: "8 word list"

definition empty_entry :: entry where
  "empty_entry = \<lparr>e_Term = 0, e_Index = 0, e_Type = ApplicationEntry, e_Key = 0, e_ClientID = 0,
     e_SeriesID = 0, e_RespondedTo = 0, e_Cmd = []\<rparr>"

record membership =
  mb_ConfigChangeId :: nat
  mb_Addresses :: "(nat, string) fmap"
  mb_Removed :: "nat fset"
  mb_Observers :: "(nat, string) fmap"
  mb_Witnesses :: "(nat, string) fmap"

record snapshot_file =
  sf_Filepath :: string
  sf_FileSize :: nat
  sf_FileId :: nat
  sf_Metadata :: "8 word list"

record raft_snapshot =
  ss_Filepath :: string
  ss_FileSize :: nat
  ss_Index :: nat
  ss_Term :: nat
  ss_Membership :: membership
  ss_Files :: "snapshot_file list"
  ss_Checksum :: "8 word list"
  ss_Dummy :: bool
  ss_ClusterId :: nat
  ss_Type :: nat
  ss_Imported :: bool
  ss_OnDiskIndex :: nat
  ss_Witness :: bool

definition empty_membership :: membership where
  "empty_membership = \<lparr>mb_ConfigChangeId = 0, mb_Addresses = fmempty, mb_Removed = {||},
     mb_Observers = fmempty, mb_Witnesses = fmempty\<rparr>"

definition empty_snapshot :: raft_snapshot where
  "empty_snapshot = \<lparr>ss_Filepath = [], ss_FileSize = 0, ss_Index = 0, ss_Term = 0,
     ss_Membership = empty_membership, ss_Files = [], ss_Checksum = [], ss_Dummy = False,
     ss_ClusterId = 0, ss_Type = 0, ss_Imported = False, ss_OnDiskIndex = 0, ss_Witness = False\<rparr>"

definition IsEmptySnapshot :: "raft_snapshot \<Rightarrow> bool" where
  "IsEmptySnapshot s = (ss_Index s = 0)"

datatype message_type =
    LocalTick | Election | LeaderHeartbeat | ConfigChangeEvent | NoOP | Ping | Pong | Propose
  | SnapshotStatus | Unreachable | CheckQuorum | BatchedReadIndex | Replicate | ReplicateResp
  | RequestVote | RequestVoteResp | InstallSnapshot | Heartbeat | HeartbeatResp | ReadIndex
  | ReadIndexResp | Quiesce | SnapshotReceived | LeaderTransfer | TimeoutNow | RateLimit

record message =
  m_Type :: message_type
  m_To :: nat
  m_From :: nat
  m_ClusterId :: nat
  m_Term :: nat
  m_LogTerm :: nat
  m_LogIndex :: nat
  m_Commit :: nat
  m_Reject :: bool
  m_Hint :: nat
  m_Entries :: "entry list"
  m_Snapshot :: raft_snapshot
  m_HintHigh :: nat

text \<open>The zero value of \<^verbatim>\<open>Message\<close> with its type set, as in \<^verbatim>\<open>pb.Message{Type: t}\<close>.\<close>

definition msg :: "message_type \<Rightarrow> message" where
  "msg t = \<lparr>m_Type = t, m_To = 0, m_From = 0, m_ClusterId = 0, m_Term = 0, m_LogTerm = 0, m_LogIndex = 0,
     m_Commit = 0, m_Reject = False, m_Hint = 0, m_Entries = [], m_Snapshot = empty_snapshot,
     m_HintHigh = 0\<rparr>"

lemma msg_sel [simp]:
  "m_Type (msg t) = t" "m_To (msg t) = 0" "m_From (msg t) = 0" "m_ClusterId (msg t) = 0" "m_Term (msg t) = 0"
  "m_LogTerm (msg t) = 0" "m_LogIndex (msg t) = 0" "m_Commit (msg t) = 0" "m_Reject (msg t) = False"
  "m_Hint (msg t) = 0" "m_Entries (msg t) = []" "m_Snapshot (msg t) = empty_snapshot" "m_HintHigh (msg t) = 0"
  by (simp_all add: msg_def)

record system_ctx =
  ctx_Low :: nat
  ctx_High :: nat

record ready_to_read =
  rr_Index :: nat
  rr_SystemCtx :: system_ctx

record hard_state =
  hs_Term :: nat
  hs_Vote :: nat
  hs_Commit :: nat

definition emptyState :: hard_state where
  "emptyState = \<lparr>hs_Term = 0, hs_Vote = 0, hs_Commit = 0\<rparr>"

definition isStateEqual :: "hard_state \<Rightarrow> hard_state \<Rightarrow> bool" where
  "isStateEqual a b = (hs_Term a = hs_Term b \<and> hs_Vote a = hs_Vote b \<and> hs_Commit a = hs_Commit b)"

definition IsEmptyState :: "hard_state \<Rightarrow> bool" where
  "IsEmptyState st = isStateEqual st emptyState"

record update_commit =
  uc_Processed :: nat
  uc_LastApplied :: nat
  uc_StableLogTo :: nat
  uc_StableLogTerm :: nat
  uc_StableSnapshotTo :: nat
  uc_ReadyToRead :: nat

record raft_update =
  ud_ClusterID :: nat
  ud_NodeID :: nat
  ud_State :: hard_state
  ud_FastApply :: bool
  ud_EntriesToSave :: "entry list"
  ud_CommittedEntries :: "entry list"
  ud_MoreCommittedEntries :: bool
  ud_Snapshot :: raft_snapshot
  ud_ReadyToReads :: "ready_to_read list"
  ud_Messages :: "message list"
  ud_LastApplied :: nat
  ud_UpdateCommit :: update_commit
  ud_DroppedEntries :: "entry list"
  ud_DroppedReadIndexes :: "system_ctx list"

definition HasUpdate :: "raft_update \<Rightarrow> bool" where
  "HasUpdate ud = (\<not> IsEmptyState (ud_State ud) \<or> \<not> IsEmptySnapshot (ud_Snapshot ud) \<or>
     ud_EntriesToSave ud \<noteq> [] \<or> ud_CommittedEntries ud \<noteq> [] \<or> ud_Messages ud \<noteq> [] \<or>
     ud_ReadyToReads ud \<noteq> [] \<or> ud_DroppedEntries ud \<noteq> [])"

text \<open>The bootstrap record of a node; the state machine type is an enumeration value.\<close>

record bootstrap =
  bs_Addresses :: "(nat, string) fmap"
  bs_Join :: bool
  bs_Type :: nat

subsection \<open>Kinds of entries\<close>

text \<open>Client and series ids with a meaning of their own (\<^verbatim>\<open>internal/dragonboat/client/session.go\<close>).\<close>

definition NotSessionManagedClientID :: nat where "NotSessionManagedClientID = 0"

definition NoOPSeriesID :: nat where "NoOPSeriesID = 0"

definition SeriesIDForRegister :: nat where "SeriesIDForRegister = 2 ^ 64 - 2"

definition SeriesIDForUnregister :: nat where "SeriesIDForUnregister = 2 ^ 64 - 1"

definition IsProposal :: "entry \<Rightarrow> bool" where
  "IsProposal e = (e_Type e = ApplicationEntry \<or> e_Type e = EncodedEntry \<or> e_Type e = MetadataEntry)"

definition IsConfigChange :: "entry \<Rightarrow> bool" where
  "IsConfigChange e = (e_Type e = ConfigChangeEntry)"

definition IsSessionManaged :: "entry \<Rightarrow> bool" where
  "IsSessionManaged e = (\<not> IsConfigChange e \<and> e_ClientID e \<noteq> NotSessionManagedClientID)"

definition IsEmpty :: "entry \<Rightarrow> bool" where
  "IsEmpty e = (\<not> IsConfigChange e \<and> \<not> IsSessionManaged e \<and> e_Cmd e = [])"

definition IsNoOPSession :: "entry \<Rightarrow> bool" where
  "IsNoOPSession e = (e_SeriesID e = NoOPSeriesID)"

definition IsNewSessionRequest :: "entry \<Rightarrow> bool" where
  "IsNewSessionRequest e = (\<not> IsConfigChange e \<and> e_Cmd e = [] \<and>
     e_ClientID e \<noteq> NotSessionManagedClientID \<and> e_SeriesID e = SeriesIDForRegister)"

definition IsEndOfSessionRequest :: "entry \<Rightarrow> bool" where
  "IsEndOfSessionRequest e = (\<not> IsConfigChange e \<and> e_Cmd e = [] \<and>
     e_ClientID e \<noteq> NotSessionManagedClientID \<and> e_SeriesID e = SeriesIDForUnregister)"

definition IsUpdateEntry :: "entry \<Rightarrow> bool" where
  "IsUpdateEntry e = (\<not> IsConfigChange e \<and> IsSessionManaged e \<and>
     \<not> IsNewSessionRequest e \<and> \<not> IsEndOfSessionRequest e)"

subsection \<open>Sizes\<close>

definition EntryNonCmdFieldsSize :: nat where
  "EntryNonCmdFieldsSize = 16 * 8"

definition SizeUpperLimit :: "entry \<Rightarrow> nat" where
  "SizeUpperLimit e = EntryNonCmdFieldsSize + length (e_Cmd e)"

definition GetEntrySliceSize :: "entry list \<Rightarrow> nat" where
  "GetEntrySliceSize ents = sum_list (map SizeUpperLimit ents)"

text \<open>\<^verbatim>\<open>unsafe.Sizeof(pb.Entry{})\<close> on a 64-bit platform: six \<^verbatim>\<open>uint64\<close>, one padded \<^verbatim>\<open>int32\<close>, one slice.\<close>

definition entry_struct_size :: nat where
  "entry_struct_size = 6 * 8 + 8 + 24"

definition GetEntrySliceInMemSize :: "entry list \<Rightarrow> nat" where
  "GetEntrySliceInMemSize ents = sum_list (map (\<lambda>e. length (e_Cmd e) + entry_struct_size) ents)"

subsection \<open>Entry utilities\<close>

definition countConfigChange :: "entry list \<Rightarrow> nat" where
  "countConfigChange ents = length (filter (\<lambda>e. e_Type e = ConfigChangeEntry) ents)"

definition checkEntriesToAppend :: "entry list \<Rightarrow> entry list \<Rightarrow> unit option" where
  "checkEntriesToAppend ents toAppend =
     (if ents = [] \<or> toAppend = [] then Some ()
      else if e_Index (last ents) + 1 \<noteq> e_Index (hd toAppend) then None
      else if e_Term (last ents) > e_Term (hd toAppend) then None
      else Some ())"

text \<open>The loop of \<^verbatim>\<open>limitSize\<close> counts how many entries after the first still fit.\<close>

fun limit_count :: "nat \<Rightarrow> nat \<Rightarrow> entry list \<Rightarrow> nat" where
  "limit_count acc limit [] = 0"
| "limit_count acc limit (e # es) =
     (let acc' = acc + SizeUpperLimit e
      in if acc' > limit then 0 else 1 + limit_count acc' limit es)"

definition limitSize :: "entry list \<Rightarrow> nat \<Rightarrow> entry list" where
  "limitSize ents limit =
     (case ents of
        [] \<Rightarrow> []
      | e # es \<Rightarrow> take (1 + limit_count (SizeUpperLimit e) limit es) ents)"

lemma limit_count_le: "limit_count acc limit es \<le> length es"
  by (induction es arbitrary: acc) (auto simp: Let_def)

lemma limitSize_prefix: "\<exists>n. limitSize ents limit = take n ents"
  by (cases ents) (auto simp: limitSize_def intro: exI [of _ 0] simp del: take_Suc_Cons)

lemma limitSize_nonempty: "ents \<noteq> [] \<Longrightarrow> limitSize ents limit \<noteq> []"
  by (cases ents) (auto simp: limitSize_def)

lemma limit_count_size:
  "acc \<le> limit \<Longrightarrow> acc + GetEntrySliceSize (take (limit_count acc limit es) es) \<le> limit"
proof (induction es arbitrary: acc)
  case (Cons e es)
  show ?case using Cons.IH [of "acc + SizeUpperLimit e"] Cons.prems
    by (auto simp: GetEntrySliceSize_def Let_def)
qed (simp add: GetEntrySliceSize_def)

text \<open>Apart from its first entry, a limited slice stays within the limit.\<close>

lemma limitSize_bound:
  "length (limitSize ents limit) > 1 \<Longrightarrow> GetEntrySliceSize (limitSize ents limit) \<le> limit"
proof (cases ents)
  case (Cons e es)
  assume l: "length (limitSize ents limit) > 1"
  then obtain e' es' where es: "es = e' # es'" and fit: "SizeUpperLimit e + SizeUpperLimit e' \<le> limit"
    using Cons by (cases es) (auto simp: limitSize_def Let_def split: if_splits)
  then show ?thesis
    using Cons limit_count_size [of "SizeUpperLimit e" limit es]
    by (auto simp: limitSize_def GetEntrySliceSize_def)
qed (simp add: limitSize_def)

text \<open>Entries with consecutive indexes, starting at a given one.\<close>

fun consecutive :: "nat \<Rightarrow> entry list \<Rightarrow> bool" where
  "consecutive i [] = True"
| "consecutive i (e # es) = (e_Index e = i \<and> consecutive (Suc i) es)"

lemma consecutive_nth: "consecutive i es \<longleftrightarrow> (\<forall>j < length es. e_Index (es ! j) = i + j)"
proof (induction es arbitrary: i)
  case (Cons e es)
  show ?case unfolding consecutive.simps Cons.IH by (auto simp: nth_Cons less_Suc_eq_0_disj split: nat.splits)
qed simp

lemma consecutive_append [simp]:
  "consecutive i (es @ fs) \<longleftrightarrow> consecutive i es \<and> consecutive (i + length es) fs"
  by (induction es arbitrary: i) auto

lemma consecutive_take: "consecutive i es \<Longrightarrow> consecutive i (take k es)"
  by (simp add: consecutive_nth)

lemma consecutive_drop: "consecutive i es \<Longrightarrow> k \<le> length es \<Longrightarrow> consecutive (i + k) (drop k es)"
  by (simp add: consecutive_nth)

lemma consecutive_last: "consecutive i es \<Longrightarrow> es \<noteq> [] \<Longrightarrow> e_Index (last es) + 1 = i + length es"
  by (simp add: last_conv_nth consecutive_nth)

lemma consecutive_hd: "consecutive i es \<Longrightarrow> es \<noteq> [] \<Longrightarrow> e_Index (hd es) = i"
  by (cases es) auto

definition isLocalMessageType :: "message_type \<Rightarrow> bool" where
  "isLocalMessageType t = (t = Election \<or> t = LeaderHeartbeat \<or> t = Unreachable \<or> t = SnapshotStatus \<or>
     t = CheckQuorum \<or> t = LocalTick \<or> t = BatchedReadIndex)"

definition isResponseMessageType :: "message_type \<Rightarrow> bool" where
  "isResponseMessageType t = (t = ReplicateResp \<or> t = RequestVoteResp \<or> t = HeartbeatResp \<or>
     t = ReadIndexResp \<or> t = Unreachable \<or> t = SnapshotStatus \<or> t = LeaderTransfer)"

end
