(* ===== verification/Raft_Remote.thy ===== *)
theory Raft_Remote
  imports Raft_Types "HOL-Library.Monad_Syntax"
begin

text \<open>
  A leader's view of one peer (\<^verbatim>\<open>internal/dragonboat/internal/raft/remote.go\<close>): how far its log is known
  to match, what to send next, and the flow control state.
\<close>

datatype remote_state = RemoteRetry | RemoteWait | RemoteReplicate | RemoteSnapshot

record snapshot_ack =
  ctick :: nat
  rejected :: bool

record remote =
  rm_match :: nat
  rm_next :: nat
  rm_snapshotIndex :: nat
  rm_state :: remote_state
  rm_active :: bool
  rm_delayed :: snapshot_ack

definition new_remote :: "nat \<Rightarrow> nat \<Rightarrow> remote" where
  "new_remote match next = \<lparr>rm_match = match, rm_next = next, rm_snapshotIndex = 0, rm_state = RemoteRetry,
     rm_active = False, rm_delayed = \<lparr>ctick = 0, rejected = False\<rparr>\<rparr>"

definition ack_tick :: "snapshot_ack \<Rightarrow> snapshot_ack \<times> bool" where
  "ack_tick a = (if ctick a > 0 then (a\<lparr>ctick := ctick a - 1\<rparr>, ctick a - 1 = 0) else (a, False))"

definition clearSnapshotAck :: "remote \<Rightarrow> remote" where
  "clearSnapshotAck r = r\<lparr>rm_delayed := \<lparr>ctick = 0, rejected = False\<rparr>\<rparr>"

definition setSnapshotAck :: "remote \<Rightarrow> nat \<Rightarrow> bool \<Rightarrow> remote option" where
  "setSnapshotAck r tick rej =
     (if rm_state r = RemoteSnapshot then Some (r\<lparr>rm_delayed := \<lparr>ctick = tick, rejected = rej\<rparr>\<rparr>) else None)"

definition remote_reset :: "remote \<Rightarrow> remote" where
  "remote_reset r = r\<lparr>rm_snapshotIndex := 0\<rparr>"

definition becomeRetry :: "remote \<Rightarrow> remote" where
  "becomeRetry r =
     (let r1 = (if rm_state r = RemoteSnapshot
                then r\<lparr>rm_next := max (rm_match r + 1) (rm_snapshotIndex r + 1)\<rparr>
                else r\<lparr>rm_next := rm_match r + 1\<rparr>)
      in (remote_reset r1)\<lparr>rm_state := RemoteRetry\<rparr>)"

definition retryToWait :: "remote \<Rightarrow> remote" where
  "retryToWait r = (if rm_state r = RemoteRetry then r\<lparr>rm_state := RemoteWait\<rparr> else r)"

definition waitToRetry :: "remote \<Rightarrow> remote" where
  "waitToRetry r = (if rm_state r = RemoteWait then r\<lparr>rm_state := RemoteRetry\<rparr> else r)"

definition becomeWait :: "remote \<Rightarrow> remote" where
  "becomeWait r = retryToWait (becomeRetry (clearSnapshotAck r))"

definition becomeReplicate :: "remote \<Rightarrow> remote" where
  "becomeReplicate r = (remote_reset (r\<lparr>rm_next := rm_match r + 1\<rparr>))\<lparr>rm_state := RemoteReplicate\<rparr>"

definition becomeSnapshot :: "remote \<Rightarrow> nat \<Rightarrow> remote" where
  "becomeSnapshot r index = (remote_reset r)\<lparr>rm_snapshotIndex := index, rm_state := RemoteSnapshot\<rparr>"

definition clearPendingSnapshot :: "remote \<Rightarrow> remote" where
  "clearPendingSnapshot r = r\<lparr>rm_snapshotIndex := 0\<rparr>"

definition tryUpdate :: "remote \<Rightarrow> nat \<Rightarrow> remote \<times> bool" where
  "tryUpdate r index =
     (let r1 = (if rm_next r < index + 1 then r\<lparr>rm_next := index + 1\<rparr> else r)
      in if rm_match r1 < index then ((waitToRetry r1)\<lparr>rm_match := index\<rparr>, True) else (r1, False))"

definition progress :: "remote \<Rightarrow> nat \<Rightarrow> remote option" where
  "progress r lastIndex =
     (case rm_state r of
        RemoteReplicate \<Rightarrow> Some (r\<lparr>rm_next := lastIndex + 1\<rparr>)
      | RemoteRetry \<Rightarrow> Some (retryToWait r)
      | _ \<Rightarrow> None)"

definition respondedTo :: "remote \<Rightarrow> remote" where
  "respondedTo r =
     (case rm_state r of
        RemoteRetry \<Rightarrow> becomeReplicate r
      | RemoteSnapshot \<Rightarrow> if rm_match r \<ge> rm_snapshotIndex r then becomeRetry r else r
      | _ \<Rightarrow> r)"

text \<open>\<^verbatim>\<open>r.next-1\<close> wraps for a remote with \<open>next = 0\<close>; no rejected index equals the wrapped value.\<close>

definition decreaseTo :: "remote \<Rightarrow> nat \<Rightarrow> nat \<Rightarrow> remote \<times> bool" where
  "decreaseTo r rej lst =
     (if rm_state r = RemoteReplicate then
        (if rej \<le> rm_match r then (r, False) else (r\<lparr>rm_next := rm_match r + 1\<rparr>, True))
      else if rm_next r = 0 \<or> rm_next r - 1 \<noteq> rej then (r, False)
      else ((waitToRetry r)\<lparr>rm_next := max 1 (min rej (lst + 1))\<rparr>, True))"

definition isPaused :: "remote \<Rightarrow> bool" where
  "isPaused r = (case rm_state r of RemoteRetry \<Rightarrow> False | RemoteWait \<Rightarrow> True | RemoteReplicate \<Rightarrow> False
     | RemoteSnapshot \<Rightarrow> True)"

definition setActive :: "remote \<Rightarrow> remote" where
  "setActive r = r\<lparr>rm_active := True\<rparr>"

definition setNotActive :: "remote \<Rightarrow> remote" where
  "setNotActive r = r\<lparr>rm_active := False\<rparr>"

lemmas remote_defs = new_remote_def clearSnapshotAck_def setSnapshotAck_def remote_reset_def becomeRetry_def
  retryToWait_def waitToRetry_def becomeWait_def becomeReplicate_def becomeSnapshot_def
  clearPendingSnapshot_def tryUpdate_def progress_def respondedTo_def decreaseTo_def setActive_def setNotActive_def

subsection \<open>Flow control\<close>

text \<open>The operations of a remote as events, so that statements can range over all of them.\<close>

datatype remote_event =
    EvSetActive | EvSetNotActive | EvClearAck | EvSetAck nat bool | EvBecomeRetry | EvBecomeWait
  | EvBecomeSnapshot nat | EvClearPending | EvWaitToRetry | EvTryUpdate nat | EvProgress nat
  | EvRespondedTo | EvDecreaseTo nat nat

fun remote_apply :: "remote_event \<Rightarrow> remote \<Rightarrow> remote option" where
  "remote_apply EvSetActive r = Some (setActive r)"
| "remote_apply EvSetNotActive r = Some (setNotActive r)"
| "remote_apply EvClearAck r = Some (clearSnapshotAck r)"
| "remote_apply (EvSetAck t b) r = setSnapshotAck r t b"
| "remote_apply EvBecomeRetry r = Some (becomeRetry r)"
| "remote_apply EvBecomeWait r = Some (becomeWait r)"
| "remote_apply (EvBecomeSnapshot i) r = Some (becomeSnapshot r i)"
| "remote_apply EvClearPending r = Some (clearPendingSnapshot r)"
| "remote_apply EvWaitToRetry r = Some (waitToRetry r)"
| "remote_apply (EvTryUpdate i) r = Some (fst (tryUpdate r i))"
| "remote_apply (EvProgress i) r = progress r i"
| "remote_apply EvRespondedTo r = Some (respondedTo r)"
| "remote_apply (EvDecreaseTo a b) r = Some (fst (decreaseTo r a b))"

definition remote_ok :: "remote \<Rightarrow> bool" where
  "remote_ok r \<longleftrightarrow> 1 \<le> rm_next r \<and> (rm_state r = RemoteReplicate \<longrightarrow> rm_match r < rm_next r)"

text \<open>Two conditions on what a leader feeds a remote: the last index of what it sent is not below what is
  known to match (entries are sent from \<open>next\<close> on).\<close>

fun event_ok :: "remote_event \<Rightarrow> remote \<Rightarrow> bool" where
  "event_ok (EvProgress i) r = (rm_match r \<le> i)"
| "event_ok _ r = True"



end
