(* ===== verification/Raft_ReadIndex.thy ===== *)
theory Raft_ReadIndex
  imports Raft_Types
begin

text \<open>
  The leader's book-keeping for linearizable reads
  (\<^verbatim>\<open>internal/dragonboat/internal/raft/readindex.go\<close>): requests wait in order of arrival until a quorum has
  confirmed, for one of them or a later one, that the leader still leads. The status objects are shared
  between the map and the result, but each is dropped from the map when it is returned.
\<close>

record read_status =
  rs_index :: nat
  rs_from :: nat
  rs_ctx :: system_ctx
  rs_confirmed :: "nat fset"

record read_index =
  ri_pending :: "(system_ctx, read_status) fmap"
  ri_queue :: "system_ctx list"

definition newReadIndex :: read_index where
  "newReadIndex = \<lparr>ri_pending = fmempty, ri_queue = []\<rparr>"

definition hasPendingRequest :: "read_index \<Rightarrow> bool" where
  "hasPendingRequest r = (ri_queue r \<noteq> [])"

definition peepCtx :: "read_index \<Rightarrow> system_ctx option" where
  "peepCtx r = (if ri_queue r = [] then None else Some (last (ri_queue r)))"

definition addRequest :: "read_index \<Rightarrow> nat \<Rightarrow> system_ctx \<Rightarrow> nat \<Rightarrow> read_index option" where
  "addRequest r index ctx from =
     (if ctx |\<in>| fmdom (ri_pending r) then Some r
      else
        (let r' = r\<lparr>ri_queue := ri_queue r @ [ctx],
               ri_pending := fmupd ctx \<lparr>rs_index = index, rs_from = from, rs_ctx = ctx, rs_confirmed = {||}\<rparr>
                 (ri_pending r)\<rparr>
         in case peepCtx r of
              None \<Rightarrow> Some r'
            | Some c \<Rightarrow>
              (case fmlookup (ri_pending r) c of
                 None \<Rightarrow> None
               | Some p \<Rightarrow> if index < rs_index p then None else Some r')))"

text \<open>
  The loop of \<^verbatim>\<open>confirm\<close> over the queue: \<open>cs\<close> is what it has collected, the last argument what is left.
  \<open>Some None\<close> is falling out of the loop; on a hit it gives the collected statuses and the rest of the
  queue.
\<close>

fun confirm_loop :: "(system_ctx, read_status) fmap \<Rightarrow> system_ctx \<Rightarrow> read_status list \<Rightarrow> system_ctx list \<Rightarrow>
    (read_status list \<times> system_ctx list) option option" where
  "confirm_loop pending ctx cs [] = Some None"
| "confirm_loop pending ctx cs (pctx # rest) =
     (case fmlookup pending pctx of
        None \<Rightarrow> None
      | Some s \<Rightarrow>
        (let cs' = cs @ [s]
         in if pctx = ctx then
              (if list_ex (\<lambda>v. rs_index v > rs_index s) cs' then None
               else Some (Some (map (\<lambda>v. v\<lparr>rs_index := rs_index s\<rparr>) cs', rest)))
            else confirm_loop pending ctx cs' rest))"

definition confirm :: "read_index \<Rightarrow> system_ctx \<Rightarrow> nat \<Rightarrow> nat \<Rightarrow> (read_index \<times> read_status list) option" where
  "confirm r ctx from quorum =
     (case fmlookup (ri_pending r) ctx of
        None \<Rightarrow> Some (r, [])
      | Some p \<Rightarrow>
        (let p' = p\<lparr>rs_confirmed := finsert from (rs_confirmed p)\<rparr>;
             r1 = r\<lparr>ri_pending := fmupd ctx p' (ri_pending r)\<rparr>
         in if fcard (rs_confirmed p') + 1 < quorum then Some (r1, [])
            else
              (case confirm_loop (ri_pending r1) ctx [] (ri_queue r1) of
                 None \<Rightarrow> None
               | Some None \<Rightarrow> Some (r1, [])
               | Some (Some (cs, rest)) \<Rightarrow>
                 (let r2 = r1\<lparr>ri_queue := rest,
                        ri_pending := fold (\<lambda>v. fmdrop (rs_ctx v)) cs (ri_pending r1)\<rparr>
                  in if length (ri_queue r2) \<noteq> fcard (fmdom (ri_pending r2)) then None
                     else Some (r2, cs)))))"

subsection \<open>Correctness\<close>

definition index_of :: "read_index \<Rightarrow> system_ctx \<Rightarrow> nat" where
  "index_of r c = (case fmlookup (ri_pending r) c of None \<Rightarrow> 0 | Some p \<Rightarrow> rs_index p)"

text \<open>Queue and map hold the same requests, each filed under its own context, and the commit indexes
  recorded for them go up along the queue.\<close>

definition read_index_wf :: "read_index \<Rightarrow> bool" where
  "read_index_wf r \<longleftrightarrow> distinct (ri_queue r) \<and> fset (fmdom (ri_pending r)) = set (ri_queue r) \<and>
     (\<forall>c p. fmlookup (ri_pending r) c = Some p \<longrightarrow> rs_ctx p = c) \<and>
     sorted (map (index_of r) (ri_queue r))"

lemma read_index_wf_new: "read_index_wf newReadIndex"
  by (simp add: read_index_wf_def newReadIndex_def)

lemma addRequest_wf:
  assumes w: "read_index_wf r" and m: "\<And>c. c \<in> set (ri_queue r) \<Longrightarrow> index_of r c \<le> index"
  obtains r' where "addRequest r index ctx from = Some r'" and "read_index_wf r'"
    and "set (ri_queue r') = insert ctx (set (ri_queue r))"
proof (cases "ctx |\<in>| fmdom (ri_pending r)")
  case True
  then show ?thesis using that [of r] w by (auto simp: addRequest_def read_index_wf_def)
next
  case False
  let ?p = "\<lparr>rs_index = index, rs_from = from, rs_ctx = ctx, rs_confirmed = {||}\<rparr>"
  let ?r = "r\<lparr>ri_queue := ri_queue r @ [ctx], ri_pending := fmupd ctx ?p (ri_pending r)\<rparr>"
  have n: "ctx \<notin> set (ri_queue r)" using False w by (auto simp: read_index_wf_def)
  have "addRequest r index ctx from = Some ?r"
  proof (cases "ri_queue r = []")
    case True
    then show ?thesis using False by (simp add: addRequest_def peepCtx_def)
  next
    case ne: False
    then have l: "last (ri_queue r) \<in> set (ri_queue r)" by simp
    then have "last (ri_queue r) |\<in>| fmdom (ri_pending r)" using w by (simp add: read_index_wf_def)
    then obtain p where p: "fmlookup (ri_pending r) (last (ri_queue r)) = Some p"
      using fmlookup_Some_the by metis
    then have "\<not> index < rs_index p" using m [OF l] by (simp add: index_of_def)
    then show ?thesis using False ne p by (simp add: addRequest_def peepCtx_def)
  qed
  moreover have e: "map (index_of ?r) (ri_queue r @ [ctx]) = map (index_of r) (ri_queue r) @ [index]"
    using n by (auto simp: index_of_def)
  have "sorted (map (index_of ?r) (ri_queue ?r))"
    using w m unfolding read_index_wf_def by (auto simp: e sorted_append simp del: map_append)
  then have "read_index_wf ?r" using w n by (auto simp: read_index_wf_def)
  ultimately show ?thesis using that by simp
qed

lemma confirm_loop_collects:
  assumes "ctx \<notin> set pre" and "\<And>v. v \<in> set acc \<Longrightarrow> rs_index v \<le> n"
    and "\<And>c. c \<in> set (pre @ [ctx]) \<Longrightarrow>
      \<exists>v. fmlookup pending c = Some v \<and> rs_ctx v = c \<and> rs_index v \<le> n \<and> (c = ctx \<longrightarrow> rs_index v = n)"
  shows "\<exists>cs. confirm_loop pending ctx acc (pre @ ctx # post) =
      Some (Some (map (\<lambda>v. v\<lparr>rs_index := n\<rparr>) acc @ cs, post)) \<and>
    map rs_ctx cs = pre @ [ctx] \<and> (\<forall>v\<in>set cs. rs_index v = n)"
  using assms
proof (induction pre arbitrary: acc)
  case Nil
  from Nil.prems(3) [of ctx] obtain s where s: "fmlookup pending ctx = Some s" "rs_ctx s = ctx" "rs_index s = n"
    by auto
  then have "\<not> list_ex (\<lambda>v. rs_index v > rs_index s) (acc @ [s])"
    using Nil.prems(2) by (auto simp: list_ex_iff not_less)
  with s show ?case by (intro exI [of _ "[s]"]) (auto simp: Let_def)
next
  case (Cons c pre)
  from Cons.prems(3) [of c] obtain s where s: "fmlookup pending c = Some s" "rs_ctx s = c" "rs_index s \<le> n"
    by auto
  have "\<exists>cs. confirm_loop pending ctx (acc @ [s]) (pre @ ctx # post) =
      Some (Some (map (\<lambda>v. v\<lparr>rs_index := n\<rparr>) (acc @ [s]) @ cs, post)) \<and>
    map rs_ctx cs = pre @ [ctx] \<and> (\<forall>v\<in>set cs. rs_index v = n)"
    by (rule Cons.IH) (use Cons.prems s in auto)
  then obtain cs where "confirm_loop pending ctx (acc @ [s]) (pre @ ctx # post) =
      Some (Some (map (\<lambda>v. v\<lparr>rs_index := n\<rparr>) (acc @ [s]) @ cs, post))"
    "map rs_ctx cs = pre @ [ctx]" "\<forall>v\<in>set cs. rs_index v = n" by blast
  moreover have "c \<noteq> ctx" using Cons.prems(1) by auto
  ultimately show ?case using s by (intro exI [of _ "s\<lparr>rs_index := n\<rparr> # cs"]) (auto simp: Let_def)
qed

lemma fmlookup_fold_fmdrop:
  "fmlookup (fold (\<lambda>v. fmdrop (f v)) cs m) k = (if k \<in> f ` set cs then None else fmlookup m k)"
  by (induction cs arbitrary: m) auto

lemma confirm_done:
  assumes "fmlookup (ri_pending r) ctx = Some p"
    and "\<not> fcard (finsert from (rs_confirmed p)) + 1 < quorum"
    and "confirm_loop (fmupd ctx (p\<lparr>rs_confirmed := finsert from (rs_confirmed p)\<rparr>) (ri_pending r)) ctx []
      (ri_queue r) = Some (Some (cs, rest))"
    and "length rest = fcard (fmdom (fold (\<lambda>v. fmdrop (rs_ctx v)) cs
      (fmupd ctx (p\<lparr>rs_confirmed := finsert from (rs_confirmed p)\<rparr>) (ri_pending r))))"
  shows "confirm r ctx from quorum = Some (r\<lparr>ri_pending := fmupd ctx
      (p\<lparr>rs_confirmed := finsert from (rs_confirmed p)\<rparr>) (ri_pending r)\<rparr>\<lparr>ri_queue := rest,
      ri_pending := fold (\<lambda>v. fmdrop (rs_ctx v)) cs
        (fmupd ctx (p\<lparr>rs_confirmed := finsert from (rs_confirmed p)\<rparr>) (ri_pending r))\<rparr>, cs)"
  using assms by (simp add: confirm_def Let_def)

lemma drop_prefix_wf:
  assumes w: "read_index_wf r" and q: "ri_queue r = pre @ post"
    and look: "\<And>c. fmlookup M c = (if c \<in> set pre then None else fmlookup (ri_pending r) c)"
  shows "read_index_wf (s\<lparr>ri_queue := post, ri_pending := M\<rparr>) \<and> length post = fcard (fmdom M)"
proof -
  have d: "distinct post" "set pre \<inter> set post = {}" using w q by (auto simp: read_index_wf_def)
  have "c |\<in>| fmdom M \<longleftrightarrow> c \<in> set post" for c
  proof -
    have "c |\<in>| fmdom M \<longleftrightarrow> c \<notin> set pre \<and> c |\<in>| fmdom (ri_pending r)"
      unfolding fmlookup_dom_iff look by simp
    then show ?thesis using w q d(2) by (auto simp: read_index_wf_def)
  qed
  then have dom: "fset (fmdom M) = set post" by blast
  have "map (index_of (s\<lparr>ri_queue := post, ri_pending := M\<rparr>)) post = map (index_of r) post"
    using d(2) by (auto simp: index_of_def look)
  moreover have "sorted (map (index_of r) post)" using w q by (simp add: read_index_wf_def sorted_append)
  ultimately have "sorted (map (index_of (s\<lparr>ri_queue := post, ri_pending := M\<rparr>)) post)" by (simp only:)
  then have "read_index_wf (s\<lparr>ri_queue := post, ri_pending := M\<rparr>)"
    using w d(1) dom unfolding read_index_wf_def by (simp add: look)
  then show ?thesis using dom d(1) by (simp add: fcard.rep_eq distinct_card)
qed

text \<open>Recording a confirmation changes neither the queue nor an index.\<close>

lemma record_confirmation:
  fixes "from" :: nat
  assumes w: "read_index_wf r" and p: "fmlookup (ri_pending r) ctx = Some p"
  defines "m \<equiv> fmupd ctx (p\<lparr>rs_confirmed := finsert from (rs_confirmed p)\<rparr>) (ri_pending r)"
  shows "read_index_wf (r\<lparr>ri_pending := m\<rparr>)" and "index_of (r\<lparr>ri_pending := m\<rparr>) = index_of r"
proof -
  have "index_of (r\<lparr>ri_pending := m\<rparr>) c = index_of r c" for c
    using p by (cases "c = ctx") (auto simp: m_def index_of_def)
  then show "index_of (r\<lparr>ri_pending := m\<rparr>) = index_of r" by (simp add: fun_eq_iff)
  with w p show "read_index_wf (r\<lparr>ri_pending := m\<rparr>)" unfolding read_index_wf_def by (auto simp: m_def)
qed

lemma confirm_loop_answers:
  assumes w: "read_index_wf r" and q: "ri_queue r = pre @ ctx # post"
  shows "\<exists>cs. confirm_loop (ri_pending r) ctx [] (ri_queue r) = Some (Some (cs, post)) \<and>
    map rs_ctx cs = pre @ [ctx] \<and>
    (\<forall>v\<in>set cs. rs_index v = index_of r ctx \<and> index_of r (rs_ctx v) \<le> index_of r ctx)"
proof -
  have dom: "fset (fmdom (ri_pending r)) = set pre \<union> {ctx} \<union> set post" and "ctx \<notin> set pre"
    and le: "\<And>c. c \<in> set (pre @ [ctx]) \<Longrightarrow> index_of r c \<le> index_of r ctx"
    using w q by (auto simp: read_index_wf_def sorted_append)
  have "\<exists>cs. confirm_loop (ri_pending r) ctx [] (pre @ ctx # post) =
      Some (Some (map (\<lambda>v. v\<lparr>rs_index := index_of r ctx\<rparr>) [] @ cs, post)) \<and>
    map rs_ctx cs = pre @ [ctx] \<and> (\<forall>v\<in>set cs. rs_index v = index_of r ctx)"
  proof (rule confirm_loop_collects [OF \<open>ctx \<notin> set pre\<close>])
    fix c assume c: "c \<in> set (pre @ [ctx])"
    then have "c |\<in>| fmdom (ri_pending r)" using dom by auto
    then obtain v where "fmlookup (ri_pending r) c = Some v" "rs_ctx v = c"
      using w unfolding read_index_wf_def fmlookup_dom_iff by blast
    then show "\<exists>v. fmlookup (ri_pending r) c = Some v \<and> rs_ctx v = c \<and> rs_index v \<le> index_of r ctx \<and>
      (c = ctx \<longrightarrow> rs_index v = index_of r ctx)" using le [OF c] by (auto simp: index_of_def)
  qed simp
  then obtain cs where cs: "confirm_loop (ri_pending r) ctx [] (ri_queue r) = Some (Some (cs, post))"
    "map rs_ctx cs = pre @ [ctx]" "\<forall>v\<in>set cs. rs_index v = index_of r ctx" unfolding q by auto
  from cs(2) have "rs_ctx ` set cs = set (pre @ [ctx])" by (metis list.set_map)
  with cs le show ?thesis by blast
qed

text \<open>C24. Linearizable reads. With a well-formed queue, one more confirmation for a request never stops the
  node. Short of a quorum (the leader counted) it is only recorded. With a quorum, that request and
  all earlier ones are answered, in order of arrival and with the index of that request, which is at
  least the index each of them was registered with; the later ones stay, and the queue stays
  well-formed.\<close>

theorem confirm_answers_prefix:
  assumes w: "read_index_wf r" and q: "ri_queue r = pre @ ctx # post"
    and p: "fmlookup (ri_pending r) ctx = Some p"
  shows "\<exists>r' cs. confirm r ctx from quorum = Some (r', cs) \<and> read_index_wf r' \<and>
    (if fcard (finsert from (rs_confirmed p)) + 1 < quorum
     then cs = [] \<and> ri_queue r' = ri_queue r
     else map rs_ctx cs = pre @ [ctx] \<and> ri_queue r' = post \<and>
       (\<forall>v\<in>set cs. rs_index v = rs_index p \<and> index_of r (rs_ctx v) \<le> rs_index v))"
proof (cases "fcard (finsert from (rs_confirmed p)) + 1 < quorum")
  let ?m = "fmupd ctx (p\<lparr>rs_confirmed := finsert from (rs_confirmed p)\<rparr>) (ri_pending r)"
  let ?r1 = "r\<lparr>ri_pending := ?m\<rparr>"
  note w1 = record_confirmation [OF w p, of "from"]
  {
    case True
    then have "confirm r ctx from quorum = Some (?r1, [])" using p by (simp add: confirm_def Let_def)
    with True w1 q show ?thesis by simp
  next
    case False
    have ip: "index_of r ctx = rs_index p" using p by (simp add: index_of_def)
    have q1: "ri_queue ?r1 = (pre @ [ctx]) @ post" using q by simp
    obtain cs where loop: "confirm_loop ?m ctx [] (ri_queue r) = Some (Some (cs, post))"
      and cc: "map rs_ctx cs = pre @ [ctx]"
      and ci: "\<forall>v\<in>set cs. rs_index v = rs_index p \<and> index_of r (rs_ctx v) \<le> rs_index p"
      using confirm_loop_answers [OF w1(1), of pre ctx post] q unfolding w1(2) ip by (auto simp del: fmupd_lookup)
    from cc have sc: "rs_ctx ` set cs = set (pre @ [ctx])" by (metis list.set_map)
    let ?r2 = "?r1\<lparr>ri_queue := post, ri_pending := fold (\<lambda>v. fmdrop (rs_ctx v)) cs ?m\<rparr>"
    have look: "fmlookup (fold (\<lambda>v. fmdrop (rs_ctx v)) cs ?m) c =
        (if c \<in> set (pre @ [ctx]) then None else fmlookup (ri_pending ?r1) c)" for c
      unfolding fmlookup_fold_fmdrop sc by simp
    note w2 = drop_prefix_wf [OF w1(1) q1 look, of ?r1]
    have "confirm r ctx from quorum = Some (?r2, cs)"
      by (rule confirm_done [OF p False loop w2 [THEN conjunct2]])
    then have "confirm r ctx from quorum = Some (?r2, cs) \<and> read_index_wf ?r2 \<and> map rs_ctx cs = pre @ [ctx] \<and>
      ri_queue ?r2 = post \<and> (\<forall>v\<in>set cs. rs_index v = rs_index p \<and> index_of r (rs_ctx v) \<le> rs_index v)"
      using w2 cc ci by simp
    then show ?thesis unfolding if_not_P [OF False] by blast
  }
qed

definition demo_reads :: read_index where
  "demo_reads = \<lparr>ri_pending = fmupd \<lparr>ctx_Low = 1, ctx_High = 0\<rparr> \<lparr>rs_index = 4, rs_from = 2,
       rs_ctx = \<lparr>ctx_Low = 1, ctx_High = 0\<rparr>, rs_confirmed = {||}\<rparr> fmempty,
     ri_queue = [\<lparr>ctx_Low = 1, ctx_High = 0\<rparr>]\<rparr>"

theorem confirm_answers_prefix_witness:
  "\<exists>r' cs. confirm demo_reads \<lparr>ctx_Low = 1, ctx_High = 0\<rparr> 3 2 = Some (r', cs) \<and> read_index_wf r' \<and>
    (if fcard (finsert 3 {||}) + 1 < 2 then cs = [] \<and> ri_queue r' = ri_queue demo_reads
     else map rs_ctx cs = [] @ [\<lparr>ctx_Low = 1, ctx_High = 0\<rparr>] \<and> ri_queue r' = [] \<and>
       (\<forall>v\<in>set cs. rs_index v = 4 \<and> index_of demo_reads (rs_ctx v) \<le> rs_index v))"
  using confirm_answers_prefix [of demo_reads "[]" "\<lparr>ctx_Low = 1, ctx_High = 0\<rparr>" "[]"
      "\<lparr>rs_index = 4, rs_from = 2, rs_ctx = \<lparr>ctx_Low = 1, ctx_High = 0\<rparr>, rs_confirmed = {||}\<rparr>" 3 2]
  by (simp add: demo_reads_def read_index_wf_def)

end
