(* ===== verification/Rate_Limiter.thy ===== *)
theory Rate_Limiter
  imports Raft_Types
begin

unbundle bit_operations_syntax

text \<open>
  The in-memory log rate limiter of the Raft library (\<^verbatim>\<open>internal/dragonboat/internal/server/rate.go\<close>).

  Sizes and logical ticks are 64-bit words and every operation wraps as the source does: \<^verbatim>\<open>Decrease\<close>
  adds the complement of \<open>sz - 1\<close>, tick distances are differences of words, and the release threshold
  is \<open>maxSize * 7 / 10\<close> with the product taken modulo $2^{64}$.
\<close>

record follower_state =
  fs_tick :: u64
  fs_inMemLogSize :: u64

record rate_limiter =
  rl_size :: u64
  rl_maxSize :: u64

definition rl_Enabled :: "rate_limiter \<Rightarrow> bool" where
  "rl_Enabled r = (rl_maxSize r > 0 \<and> rl_maxSize r \<noteq> - 1)"

definition rl_Increase :: "rate_limiter \<Rightarrow> u64 \<Rightarrow> rate_limiter" where
  "rl_Increase r sz = r\<lparr>rl_size := rl_size r + sz\<rparr>"

definition rl_Decrease :: "rate_limiter \<Rightarrow> u64 \<Rightarrow> rate_limiter" where
  "rl_Decrease r sz = r\<lparr>rl_size := rl_size r + NOT (sz - 1)\<rparr>"

definition rl_Set :: "rate_limiter \<Rightarrow> u64 \<Rightarrow> rate_limiter" where
  "rl_Set r sz = r\<lparr>rl_size := sz\<rparr>"

definition rl_RateLimited :: "rate_limiter \<Rightarrow> bool" where
  "rl_RateLimited r = (rl_Enabled r \<and> rl_size r > rl_maxSize r)"

record inmem_limiter =
  il_tick :: u64
  il_tickLimited :: u64
  il_rl :: rate_limiter
  il_followerSizes :: "(nat, follower_state) fmap"
  il_limited :: bool

definition gcTick :: u64 where "gcTick = 3"

definition ChangeTickThreashold :: u64 where "ChangeTickThreashold = 10"

definition NewInMemRateLimiter :: "u64 \<Rightarrow> inmem_limiter" where
  "NewInMemRateLimiter maxSize = \<lparr>il_tick = 1, il_tickLimited = 0,
     il_rl = \<lparr>rl_size = 0, rl_maxSize = maxSize\<rparr>, il_followerSizes = fmempty, il_limited = False\<rparr>"

definition il_Enabled :: "inmem_limiter \<Rightarrow> bool" where
  "il_Enabled r = rl_Enabled (il_rl r)"

definition il_Tick :: "inmem_limiter \<Rightarrow> inmem_limiter" where
  "il_Tick r = r\<lparr>il_tick := il_tick r + 1\<rparr>"

definition il_Increase :: "inmem_limiter \<Rightarrow> u64 \<Rightarrow> inmem_limiter" where
  "il_Increase r sz = r\<lparr>il_rl := rl_Increase (il_rl r) sz\<rparr>"

definition il_Decrease :: "inmem_limiter \<Rightarrow> u64 \<Rightarrow> inmem_limiter" where
  "il_Decrease r sz = r\<lparr>il_rl := rl_Decrease (il_rl r) sz\<rparr>"

definition il_Set :: "inmem_limiter \<Rightarrow> u64 \<Rightarrow> inmem_limiter" where
  "il_Set r sz = r\<lparr>il_rl := rl_Set (il_rl r) sz\<rparr>"

definition il_Get :: "inmem_limiter \<Rightarrow> u64" where
  "il_Get r = rl_size (il_rl r)"

definition il_Reset :: "inmem_limiter \<Rightarrow> inmem_limiter" where
  "il_Reset r = r\<lparr>il_followerSizes := fmempty\<rparr>"

definition SetFollowerState :: "inmem_limiter \<Rightarrow> nat \<Rightarrow> u64 \<Rightarrow> inmem_limiter" where
  "SetFollowerState r nodeID sz = r\<lparr>il_followerSizes :=
     fmupd nodeID \<lparr>fs_tick = il_tick r, fs_inMemLogSize = sz\<rparr> (il_followerSizes r)\<rparr>"

definition outdated :: "inmem_limiter \<Rightarrow> follower_state \<Rightarrow> bool" where
  "outdated r v = (il_tick r - fs_tick v > gcTick)"

definition gc :: "inmem_limiter \<Rightarrow> inmem_limiter" where
  "gc r = r\<lparr>il_followerSizes :=
     fmfilter (\<lambda>k. case fmlookup (il_followerSizes r) k of None \<Rightarrow> False | Some v \<Rightarrow> \<not> outdated r v)
       (il_followerSizes r)\<rparr>"

text \<open>One round of the loop over the followers: whether a report is outdated, and the largest size seen.
  The result does not depend on the order in which the map is ranged over
  (\<open>limitedByInMemSize_load\<close> below).\<close>

fun follower_round :: "inmem_limiter \<Rightarrow> follower_state \<Rightarrow> bool \<times> u64 \<Rightarrow> bool \<times> u64" where
  "follower_round r v (dirty, maxInMemSize) =
     (if outdated r v then (True, maxInMemSize)
      else if fs_inMemLogSize v > maxInMemSize then (dirty, fs_inMemLogSize v)
      else (dirty, maxInMemSize))"

definition limitedByInMemSize :: "inmem_limiter \<Rightarrow> inmem_limiter \<times> bool" where
  "limitedByInMemSize r =
     (if \<not> il_Enabled r then (r, False)
      else
        (let (dirty, m) = fold (\<lambda>(k, v). follower_round r v) (sorted_bindings (il_followerSizes r)) (False, 0);
             sz = il_Get r;
             m' = (if sz > m then sz else m);
             r' = (if dirty then gc r else r)
         in (r', if \<not> il_limited r then m' > rl_maxSize (il_rl r)
                 else m' \<ge> rl_maxSize (il_rl r) * 7 div 10)))"

definition RateLimited :: "inmem_limiter \<Rightarrow> inmem_limiter \<times> bool" where
  "RateLimited r =
     (let (r1, limited) = limitedByInMemSize r;
          r2 = (if limited \<noteq> il_limited r1 \<and>
                   (il_tickLimited r1 = 0 \<or> il_tick r1 - il_tickLimited r1 > ChangeTickThreashold)
                then r1\<lparr>il_limited := limited, il_tickLimited := il_tick r1\<rparr> else r1)
      in (r2, il_limited r2))"

subsection \<open>Accounting\<close>

lemma rl_Decrease_sub: "rl_size (rl_Decrease r sz) = rl_size r - sz"
proof -
  have "NOT (sz - 1) = - sz" by (simp add: minus_eq_not_minus_1)
  then show ?thesis by (simp add: rl_Decrease_def)
qed

lemma il_Get_simps [simp]:
  "il_Get (il_Increase r sz) = il_Get r + sz"
  "il_Get (il_Decrease r sz) = il_Get r - sz"
  "il_Get (il_Set r sz) = sz"
  "il_Get (il_Tick r) = il_Get r"
  by (simp_all add: il_Get_def il_Increase_def rl_Increase_def il_Decrease_def il_Set_def rl_Set_def
      rl_Decrease_sub il_Tick_def)

lemma rl_maxSize_frame [simp]:
  "rl_maxSize (rl_Increase r sz) = rl_maxSize r" "rl_maxSize (rl_Decrease r sz) = rl_maxSize r"
  "rl_maxSize (rl_Set r sz) = rl_maxSize r"
  by (simp_all add: rl_Increase_def rl_Decrease_def rl_Set_def)

lemma il_Enabled_frame [simp]:
  "il_Enabled (il_Increase r sz) = il_Enabled r" "il_Enabled (il_Decrease r sz) = il_Enabled r"
  "il_Enabled (il_Set r sz) = il_Enabled r" "il_Enabled (il_Tick r) = il_Enabled r"
  by (simp_all add: il_Enabled_def rl_Enabled_def il_Increase_def il_Decrease_def il_Set_def il_Tick_def)

subsection \<open>The decision\<close>

text \<open>The load a decision is based on: the largest of the node's own size and of the sizes reported by
  followers in the last \<open>gcTick\<close> ticks.\<close>

definition load :: "inmem_limiter \<Rightarrow> u64" where
  "load r = Max (insert (il_Get r)
     {fs_inMemLogSize v | k v. fmlookup (il_followerSizes r) k = Some v \<and> \<not> outdated r v})"

lemma Max_insert_insert:
  "finite S \<Longrightarrow> Max (insert m (insert x S)) = Max (insert (if m < x then x else m) S)"
  by (cases "S = {}") (auto simp: max_def)

lemma Max_insert_zero:
  "finite S \<Longrightarrow> Max (insert x S) = (if Max (insert 0 S) < x then x else Max (insert 0 S))" for x :: u64
  by (cases "S = {}") (auto simp: max_def not_less not_le simp del: Max_less_iff)

lemma fold_follower_round:
  "snd (fold (\<lambda>(k, v). follower_round r v) xs (g, m)) =
     Max (insert m {fs_inMemLogSize v | k v. (k, v) \<in> set xs \<and> \<not> outdated r v}) \<and>
   fst (fold (\<lambda>(k, v). follower_round r v) xs (g, m)) = (g \<or> (\<exists>(k, v)\<in>set xs. outdated r v))"
proof (induction xs arbitrary: g m)
  case Nil
  then show ?case by simp
next
  case (Cons x xs)
  obtain k v where x: "x = (k, v)" by fastforce
  have f: "finite {fs_inMemLogSize v | k v. (k, v) \<in> set xs \<and> \<not> outdated r v}"
    by (rule finite_subset [of _ "(\<lambda>(k, v). fs_inMemLogSize v) ` set xs"]) auto
  have e: "{fs_inMemLogSize w | j w. (j, w) \<in> set (x # xs) \<and> \<not> outdated r w} =
      (if outdated r v then {} else {fs_inMemLogSize v}) \<union>
      {fs_inMemLogSize w | j w. (j, w) \<in> set xs \<and> \<not> outdated r w}" using x by auto
  let ?S = "{fs_inMemLogSize w | j w. (j, w) \<in> set xs \<and> \<not> outdated r w}"
  show ?case
  proof (cases "outdated r v")
    case True
    then show ?thesis unfolding e using Cons.IH [of True m] x by simp
  next
    case False
    let ?m = "if m < fs_inMemLogSize v then fs_inMemLogSize v else m"
    have "Max (insert m (insert (fs_inMemLogSize v) ?S)) = Max (insert ?m ?S)"
      by (rule Max_insert_insert [OF f])
    moreover have "fold (\<lambda>(k, v). follower_round r v) (x # xs) (g, m) = fold (\<lambda>(k, v). follower_round r v) xs (g, ?m)"
      using False x by simp
    ultimately show ?thesis unfolding e using False x by (simp only: Cons.IH) simp
  qed
qed

lemma limitedByInMemSize_load:
  assumes "il_Enabled r"
  shows "snd (limitedByInMemSize r) =
    (if il_limited r then load r \<ge> rl_maxSize (il_rl r) * 7 div 10 else load r > rl_maxSize (il_rl r))"
proof -
  let ?S = "{fs_inMemLogSize v | k v. fmlookup (il_followerSizes r) k = Some v \<and> \<not> outdated r v}"
  have s: "{fs_inMemLogSize v | k v. (k, v) \<in> set (sorted_bindings (il_followerSizes r)) \<and> \<not> outdated r v} = ?S"
    by (simp add: set_sorted_bindings)
  have "?S \<subseteq> (\<lambda>(k, v). fs_inMemLogSize v) ` set (sorted_bindings (il_followerSizes r))"
    by (force simp: set_sorted_bindings)
  then have "finite ?S" by (rule finite_subset) simp
  then have "load r = (if il_Get r > Max (insert 0 ?S) then il_Get r else Max (insert 0 ?S))"
    unfolding load_def by (rule Max_insert_zero)
  moreover obtain d m where f: "fold (\<lambda>(k, v). follower_round r v) (sorted_bindings (il_followerSizes r)) (False, 0) = (d, m)"
    by fastforce
  moreover have "m = Max (insert 0 ?S)"
    using fold_follower_round [of r "sorted_bindings (il_followerSizes r)" False 0] unfolding f s by simp
  ultimately have "load r = (if il_Get r > m then il_Get r else m)" by (simp only:)
  then show ?thesis using assms f by (simp add: limitedByInMemSize_def Let_def)
qed

lemma limitedByInMemSize_frame:
  "il_tick (fst (limitedByInMemSize r)) = il_tick r" "il_tickLimited (fst (limitedByInMemSize r)) = il_tickLimited r"
  "il_rl (fst (limitedByInMemSize r)) = il_rl r" "il_limited (fst (limitedByInMemSize r)) = il_limited r"
  by (simp_all add: limitedByInMemSize_def gc_def Let_def split: prod.splits)

lemma limitedByInMemSize_followers:
  "fmlookup (il_followerSizes (fst (limitedByInMemSize r))) k = Some v \<Longrightarrow> fmlookup (il_followerSizes r) k = Some v"
  "fmlookup (il_followerSizes r) k = Some v \<Longrightarrow> \<not> outdated r v \<Longrightarrow>
     fmlookup (il_followerSizes (fst (limitedByInMemSize r))) k = Some v"
  by (auto simp: limitedByInMemSize_def gc_def Let_def split: prod.splits if_splits)

text \<open>The threshold for leaving the limited state, with the product not wrapping.\<close>

lemma release_threshold:
  "unat m * 7 < 2 ^ 64 \<Longrightarrow> unat (m * 7 div 10) = unat m * 7 div 10" for m :: u64
  by (simp add: unat_div unat_word_ariths)

text \<open>C29. Rate limiting has hysteresis. When the limiter is enabled and seven times its limit fits 64 bits,
  the answer may change only if it never changed before or did so more than ten ticks ago; then the
  node becomes limited exactly if the load (its own in-memory log size or one reported by a follower
  within the last three ticks) exceeds the limit, and stays limited until the load is below seven
  tenths of it. A change is stamped with the current tick, and a call forgets only outdated reports.\<close>

theorem rate_limit_hysteresis:
  assumes e: "il_Enabled r" and fits: "unat (rl_maxSize (il_rl r)) * 7 < 2 ^ 64"
    and step: "RateLimited r = (r', limited)"
  shows "limited = il_limited r' \<and>
    il_limited r' =
      (if il_tickLimited r = 0 \<or> il_tick r - il_tickLimited r > 10
       then (if il_limited r then unat (load r) \<ge> unat (rl_maxSize (il_rl r)) * 7 div 10
             else load r > rl_maxSize (il_rl r))
       else il_limited r) \<and>
    il_tickLimited r' = (if il_limited r' = il_limited r then il_tickLimited r else il_tick r) \<and>
    (\<forall>k v. fmlookup (il_followerSizes r) k = Some v \<and> \<not> outdated r v \<longrightarrow>
      fmlookup (il_followerSizes r') k = Some v)"
proof -
  obtain r1 b where l: "limitedByInMemSize r = (r1, b)" by fastforce
  have b: "b = (if il_limited r then unat (load r) \<ge> unat (rl_maxSize (il_rl r)) * 7 div 10
      else load r > rl_maxSize (il_rl r))"
    using limitedByInMemSize_load [OF e] l release_threshold [OF fits] by (simp add: word_le_nat_alt)
  have f: "il_tick r1 = il_tick r" "il_tickLimited r1 = il_tickLimited r" "il_limited r1 = il_limited r"
    using limitedByInMemSize_frame [of r] l by simp_all
  have r': "r' = (if b \<noteq> il_limited r \<and> (il_tickLimited r = 0 \<or> il_tick r - il_tickLimited r > 10)
      then r1\<lparr>il_limited := b, il_tickLimited := il_tick r\<rparr> else r1)" and "limited = il_limited r'"
    using step l f by (auto simp: RateLimited_def Let_def ChangeTickThreashold_def)
  moreover have "fmlookup (il_followerSizes r1) k = Some v"
    if "fmlookup (il_followerSizes r) k = Some v" "\<not> outdated r v" for k v
    using limitedByInMemSize_followers(2) [OF that] l by simp
  ultimately show ?thesis using b f by simp
qed

text \<open>A limiter with limit 1000 that was limited at tick 5 and is at tick 20 with 600 bytes of log: it is
  released.\<close>

definition demo_limiter :: inmem_limiter where
  "demo_limiter = \<lparr>il_tick = 20, il_tickLimited = 5, il_rl = \<lparr>rl_size = 600, rl_maxSize = 1000\<rparr>,
     il_followerSizes = fmempty, il_limited = True\<rparr>"

theorem rate_limit_hysteresis_witness:
  "RateLimited demo_limiter = (demo_limiter\<lparr>il_limited := False, il_tickLimited := 20\<rparr>, False) \<and>
   \<not> il_limited (fst (RateLimited demo_limiter)) \<and> unat (load demo_limiter) < 700"
proof -
  have step: "RateLimited demo_limiter = (demo_limiter\<lparr>il_limited := False, il_tickLimited := 20\<rparr>, False)"
    by (simp add: RateLimited_def limitedByInMemSize_def demo_limiter_def il_Enabled_def rl_Enabled_def
        il_Get_def ChangeTickThreashold_def)
  have "il_Enabled demo_limiter" "unat (rl_maxSize (il_rl demo_limiter)) * 7 < 2 ^ 64"
    by (simp_all add: demo_limiter_def il_Enabled_def rl_Enabled_def)
  from rate_limit_hysteresis [OF this step] step show ?thesis by (simp add: demo_limiter_def not_le)
qed

text \<open>Without that bound the threshold wraps: with a limit of $2^{63}$ bytes a limited node is released
  only below one tenth of the limit, not below seven.\<close>

lemma release_threshold_wraps: "(2 ^ 63 :: u64) * 7 div 10 = 2 ^ 63 div 10"
  by simp

end
