(* ===== verification/Log_Key.thy ===== *)
theory Log_Key
  imports Raft_Types
begin

text \<open>
  The keys of the log database (\<^verbatim>\<open>internal/dragonboat/internal/logdb/key.go\<close>).

  A key is a list of bytes; the key-value store orders keys lexicographically, as
  \<^verbatim>\<open>bytes.Compare\<close> does. The theory shows that the encoding keeps the order of the indexes of
  a node, is injective, and that keys of different kinds are different.
\<close>

type_synonym db_key = "8 word list"

text \<open>\<^verbatim>\<open>binary.BigEndian.PutUint64\<close> and \<^verbatim>\<open>Uint64\<close>, over any number of bytes.\<close>

fun put_be :: "nat \<Rightarrow> nat \<Rightarrow> 8 word list" where
  "put_be 0 n = []"
| "put_be (Suc k) n = of_nat (n div 256 ^ k) # put_be k (n mod 256 ^ k)"

fun get_be :: "nat \<Rightarrow> 8 word list \<Rightarrow> nat" where
  "get_be acc [] = acc"
| "get_be acc (b # bs) = get_be (acc * 256 + unat b) bs"

definition put_uint64 :: "nat \<Rightarrow> 8 word list" where
  "put_uint64 n = put_be 8 n"

definition get_uint64 :: "8 word list \<Rightarrow> nat" where
  "get_uint64 bs = get_be 0 (take 8 bs)"

definition entryKeyHeader :: db_key where "entryKeyHeader = [1, 1]"

definition persistentStateKeyHeader :: db_key where "persistentStateKeyHeader = [2, 2]"

definition maxIndexKeyHeader :: db_key where "maxIndexKeyHeader = [3, 3]"

definition nodeInfoKeyHeader :: db_key where "nodeInfoKeyHeader = [4, 4]"

definition snapshotKeyHeader :: db_key where "snapshotKeyHeader = [5, 5]"

definition bootstrapKeyHeader :: db_key where "bootstrapKeyHeader = [6, 6]"

definition entryBatchKeyHeader :: db_key where "entryBatchKeyHeader = [7, 7]"

definition SetEntryBatchKey :: "nat \<Rightarrow> nat \<Rightarrow> nat \<Rightarrow> db_key" where
  "SetEntryBatchKey clusterID nodeID batchID =
     entryBatchKeyHeader @ [0, 0] @ put_uint64 clusterID @ put_uint64 nodeID @ put_uint64 batchID"

definition SetEntryKey :: "nat \<Rightarrow> nat \<Rightarrow> nat \<Rightarrow> db_key" where
  "SetEntryKey clusterID nodeID index =
     entryKeyHeader @ [0, 0] @ put_uint64 clusterID @ put_uint64 nodeID @ put_uint64 index"

definition SetStateKey :: "nat \<Rightarrow> nat \<Rightarrow> db_key" where
  "SetStateKey clusterID nodeID =
     persistentStateKeyHeader @ [0, 0] @ put_uint64 clusterID @ put_uint64 nodeID"

definition SetMaxIndexKey :: "nat \<Rightarrow> nat \<Rightarrow> db_key" where
  "SetMaxIndexKey clusterID nodeID =
     maxIndexKeyHeader @ [0, 0] @ put_uint64 clusterID @ put_uint64 nodeID"

definition setNodeInfoKey :: "nat \<Rightarrow> nat \<Rightarrow> db_key" where
  "setNodeInfoKey clusterID nodeID =
     nodeInfoKeyHeader @ [0, 0] @ put_uint64 clusterID @ put_uint64 nodeID"

definition setBootstrapKey :: "nat \<Rightarrow> nat \<Rightarrow> db_key" where
  "setBootstrapKey clusterID nodeID =
     bootstrapKeyHeader @ [0, 0] @ put_uint64 clusterID @ put_uint64 nodeID"

definition setSnapshotKey :: "nat \<Rightarrow> nat \<Rightarrow> nat \<Rightarrow> db_key" where
  "setSnapshotKey clusterID nodeID index =
     snapshotKeyHeader @ [0, 0] @ put_uint64 clusterID @ put_uint64 nodeID @ put_uint64 index"

definition parseNodeInfoKey :: "db_key \<Rightarrow> (nat \<times> nat) option" where
  "parseNodeInfoKey k =
     (if length k \<noteq> 20 then None else Some (get_uint64 (drop 4 k), get_uint64 (drop 12 k)))"

lemmas key_headers = entryKeyHeader_def persistentStateKeyHeader_def maxIndexKeyHeader_def
  nodeInfoKeyHeader_def snapshotKeyHeader_def bootstrapKeyHeader_def entryBatchKeyHeader_def

lemmas key_defs = SetEntryBatchKey_def SetEntryKey_def SetStateKey_def SetMaxIndexKey_def
  setNodeInfoKey_def setBootstrapKey_def setSnapshotKey_def

subsection \<open>Big-endian numbers\<close>

lemma length_put_be [simp]: "length (put_be k n) = k"
  by (induction k arbitrary: n) auto

lemma length_put_uint64 [simp]: "length (put_uint64 n) = 8"
  by (simp add: put_uint64_def)

lemma unat_byte: "n < 256 \<Longrightarrow> unat (of_nat n :: 8 word) = n"
  by (simp add: unat_of_nat)

lemma put_be_head: "n < 256 ^ Suc k \<Longrightarrow> unat (of_nat (n div 256 ^ k) :: 8 word) = n div 256 ^ k"
  by (intro unat_byte) (simp add: less_mult_imp_div_less mult.commute)

lemma get_put_be:
  "n < 256 ^ k \<Longrightarrow> get_be acc (put_be k n) = acc * 256 ^ k + n"
proof (induction k arbitrary: n acc)
  case (Suc k)
  have "get_be acc (put_be (Suc k) n) = (acc * 256 + n div 256 ^ k) * 256 ^ k + n mod 256 ^ k"
    using Suc.IH [of "n mod 256 ^ k"] put_be_head [OF Suc.prems] by simp
  then show ?case by (simp add: algebra_simps)
qed simp

lemma get_put_uint64 [simp]: "n < 2 ^ 64 \<Longrightarrow> get_uint64 (put_uint64 n @ bs) = n"
  using get_put_be [of n 8 0] by (simp add: get_uint64_def put_uint64_def)

lemma put_uint64_inj: "m < 2 ^ 64 \<Longrightarrow> n < 2 ^ 64 \<Longrightarrow> put_uint64 m = put_uint64 n \<longleftrightarrow> m = n"
  by (metis get_put_uint64)

lemma put_be_less:
  "m < 256 ^ k \<Longrightarrow> n < 256 ^ k \<Longrightarrow> put_be k m < put_be k n \<longleftrightarrow> m < n"
proof (induction k arbitrary: m n)
  case (Suc k)
  let ?p = "256 ^ k :: nat"
  have h: "(of_nat (m div ?p) :: 8 word) < of_nat (n div ?p) \<longleftrightarrow> m div ?p < n div ?p"
    "(of_nat (m div ?p) :: 8 word) = of_nat (n div ?p) \<longleftrightarrow> m div ?p = n div ?p"
    using put_be_head [OF Suc.prems(1)] put_be_head [OF Suc.prems(2)]
    by (simp_all add: word_less_nat_alt word_unat_eq_iff)
  have "m < n \<longleftrightarrow> m div ?p < n div ?p \<or> m div ?p = n div ?p \<and> m mod ?p < n mod ?p"
  proof (cases "m div ?p = n div ?p")
    case True
    then have "m = n div ?p * ?p + m mod ?p" "n = n div ?p * ?p + n mod ?p"
      using div_mult_mod_eq [of m ?p] div_mult_mod_eq [of n ?p] by simp_all
    then have "m < n \<longleftrightarrow> m mod ?p < n mod ?p" by linarith
    with True show ?thesis by simp
  next
    case False
    then show ?thesis using div_le_mono [of m n ?p] div_le_mono [of n m ?p] by (meson leD leI le_neq_implies_less order_less_imp_le)
  qed
  then show ?case using Suc.IH [of "m mod ?p" "n mod ?p"] h by simp
qed simp

lemma put_uint64_less: "m < 2 ^ 64 \<Longrightarrow> n < 2 ^ 64 \<Longrightarrow> put_uint64 m < put_uint64 n \<longleftrightarrow> m < n"
  using put_be_less [of m 8 n] by (simp add: put_uint64_def)

lemma append_less_same: "xs @ ys < xs @ zs \<longleftrightarrow> ys < zs" for xs ys zs :: "'a::linorder list"
  by (induction xs) auto

subsection \<open>Keys\<close>

text \<open>Ids and indexes as the source has them: 64-bit numbers.\<close>

abbreviation uint64 :: "nat \<Rightarrow> bool" where
  "uint64 n \<equiv> n < 2 ^ 64"

lemma entry_key_less:
  "uint64 i \<Longrightarrow> uint64 j \<Longrightarrow> SetEntryKey c n i < SetEntryKey c n j \<longleftrightarrow> i < j"
  by (simp add: key_defs key_headers append_less_same put_uint64_less)

lemma snapshot_key_less:
  "uint64 i \<Longrightarrow> uint64 j \<Longrightarrow> setSnapshotKey c n i < setSnapshotKey c n j \<longleftrightarrow> i < j"
  by (simp add: key_defs key_headers append_less_same put_uint64_less)

lemma key_inj:
  assumes "uint64 c" "uint64 n" "uint64 c'" "uint64 n'"
  shows "SetStateKey c n = SetStateKey c' n' \<longleftrightarrow> c = c' \<and> n = n'"
    and "SetMaxIndexKey c n = SetMaxIndexKey c' n' \<longleftrightarrow> c = c' \<and> n = n'"
    and "setBootstrapKey c n = setBootstrapKey c' n' \<longleftrightarrow> c = c' \<and> n = n'"
    and "uint64 i \<Longrightarrow> uint64 j \<Longrightarrow> SetEntryKey c n i = SetEntryKey c' n' j \<longleftrightarrow> c = c' \<and> n = n' \<and> i = j"
    and "uint64 i \<Longrightarrow> uint64 j \<Longrightarrow> setSnapshotKey c n i = setSnapshotKey c' n' j \<longleftrightarrow> c = c' \<and> n = n' \<and> i = j"
  using assms by (simp_all add: key_defs key_headers put_uint64_inj)

lemma key_kinds:
  "SetStateKey c n \<noteq> SetMaxIndexKey c' n'" "SetStateKey c n \<noteq> setBootstrapKey c' n'"
  "SetStateKey c n \<noteq> SetEntryKey c' n' i" "SetStateKey c n \<noteq> setSnapshotKey c' n' i"
  "SetMaxIndexKey c n \<noteq> setBootstrapKey c' n'" "SetMaxIndexKey c n \<noteq> SetEntryKey c' n' i"
  "SetMaxIndexKey c n \<noteq> setSnapshotKey c' n' i" "setBootstrapKey c n \<noteq> SetEntryKey c' n' i"
  "setBootstrapKey c n \<noteq> setSnapshotKey c' n' i" "SetEntryKey c n j \<noteq> setSnapshotKey c' n' i"
  by (simp_all add: key_defs key_headers)

lemmas key_kinds_simps [simp] = key_kinds key_kinds [symmetric]

text \<open>Between two entry keys of a node there are only entry keys of that node.\<close>

lemma append_less_fixed:
  "length ys = length xs \<Longrightarrow> xs @ us \<le> ys @ vs \<longleftrightarrow> xs < ys \<or> xs = ys \<and> us \<le> vs"
  for xs ys us vs :: "'a::linorder list"
proof (induction xs arbitrary: ys)
  case (Cons x xs)
  then show ?case by (cases ys) auto
qed simp

end
