(* ===== verification/Log_Db.thy ===== *)
theory Log_Db
  imports Log_Key "HOL-Library.Monad_Syntax"
begin

text \<open>
  The log database of the Raft library (\<^verbatim>\<open>internal/dragonboat/internal/logdb/db.go\<close>, \<^verbatim>\<open>plain.go\<close>,
  \<^verbatim>\<open>cache.go\<close>) over a key-value store.

  The store is a finite map from byte keys to values, iterated in key order as
  \<^verbatim>\<open>KV.IterateValue\<close> does. A value is kept as the record it encodes, tagged with its kind; the
  byte format of entries is the subject of theory \<open>Entry_Codec\<close>. Operations that read a value of
  the wrong kind, or nothing where an entry must be, panic in the source and are \<^const>\<open>None\<close> here.
  Write batches are lists of operations that \<^verbatim>\<open>CommitWriteBatch\<close> applies in order.
\<close>

datatype db_value = DbEntry entry | DbState hard_state | DbMaxIndex nat | DbSnapshot raft_snapshot
  | DbBootstrap bootstrap

type_synonym kv_store = "(db_key, db_value) fmap"

datatype write_op = Put db_key db_value | Delete db_key

fun apply_op :: "write_op \<Rightarrow> kv_store \<Rightarrow> kv_store" where
  "apply_op (Put k v) kvs = fmupd k v kvs"
| "apply_op (Delete k) kvs = fmdrop k kvs"

definition CommitWriteBatch :: "kv_store \<Rightarrow> write_op list \<Rightarrow> kv_store" where
  "CommitWriteBatch kvs wb = fold apply_op wb kvs"

text \<open>The bindings \<^verbatim>\<open>IterateValue\<close> passes to its callback, in order, as long as the callback asks for more.\<close>

definition IterateValue :: "kv_store \<Rightarrow> db_key \<Rightarrow> db_key \<Rightarrow> bool \<Rightarrow> (db_key \<times> db_value) list" where
  "IterateValue kvs fk lk inc =
     filter (\<lambda>(k, v). fk \<le> k \<and> (if inc then k \<le> lk else k < lk)) (sorted_bindings kvs)"

definition BulkRemoveEntries :: "kv_store \<Rightarrow> db_key \<Rightarrow> db_key \<Rightarrow> kv_store" where
  "BulkRemoveEntries kvs fk lk = fmfilter (\<lambda>k. \<not> (fk \<le> k \<and> k < lk)) kvs"

subsection \<open>The cache\<close>

type_synonym node_info = "nat \<times> nat"

record cache =
  ca_ps :: "(node_info, hard_state) fmap"
  ca_maxIndex :: "(node_info, nat) fmap"

definition newCache :: cache where
  "newCache = \<lparr>ca_ps = fmempty, ca_maxIndex = fmempty\<rparr>"

definition setState :: "cache \<Rightarrow> nat \<Rightarrow> nat \<Rightarrow> hard_state \<Rightarrow> cache \<times> bool" where
  "setState r clusterID nodeID st =
     (case fmlookup (ca_ps r) (clusterID, nodeID) of
        None \<Rightarrow> (r\<lparr>ca_ps := fmupd (clusterID, nodeID) st (ca_ps r)\<rparr>, True)
      | Some v \<Rightarrow>
          if isStateEqual v st then (r, False)
          else (r\<lparr>ca_ps := fmupd (clusterID, nodeID) st (ca_ps r)\<rparr>, True))"

definition cache_setMaxIndex :: "cache \<Rightarrow> nat \<Rightarrow> nat \<Rightarrow> nat \<Rightarrow> cache" where
  "cache_setMaxIndex r clusterID nodeID maxIndex =
     r\<lparr>ca_maxIndex := fmupd (clusterID, nodeID) maxIndex (ca_maxIndex r)\<rparr>"

definition cache_getMaxIndex :: "cache \<Rightarrow> nat \<Rightarrow> nat \<Rightarrow> nat option" where
  "cache_getMaxIndex r clusterID nodeID = fmlookup (ca_maxIndex r) (clusterID, nodeID)"

subsection \<open>Plain entries\<close>

fun plain_record :: "nat \<Rightarrow> nat \<Rightarrow> entry list \<Rightarrow> write_op list \<Rightarrow> nat \<Rightarrow> write_op list \<times> nat" where
  "plain_record clusterID nodeID [] wb maxIndex = (wb, maxIndex)"
| "plain_record clusterID nodeID (ent # ents) wb maxIndex =
     plain_record clusterID nodeID ents (wb @ [Put (SetEntryKey clusterID nodeID (e_Index ent)) (DbEntry ent)])
       (if e_Index ent > maxIndex then e_Index ent else maxIndex)"

definition getEntry :: "kv_store \<Rightarrow> nat \<Rightarrow> nat \<Rightarrow> nat \<Rightarrow> entry option" where
  "getEntry kvs clusterID nodeID index =
     (case fmlookup kvs (SetEntryKey clusterID nodeID index) of Some (DbEntry e) \<Rightarrow> Some e | _ \<Rightarrow> None)"

text \<open>The callback of \<^verbatim>\<open>iterate\<close>, run over the bindings of the range.\<close>

fun iterate_op :: "nat \<Rightarrow> nat \<Rightarrow> (db_key \<times> db_value) list \<Rightarrow> entry list \<Rightarrow> nat \<Rightarrow> (entry list \<times> nat) option" where
  "iterate_op expectedIndex maxSize [] ents sz = Some (ents, sz)"
| "iterate_op expectedIndex maxSize ((k, v) # kvs) ents sz =
     (case v of
        DbEntry e \<Rightarrow>
          if e_Index e \<noteq> expectedIndex then Some (ents, sz)
          else
            (let sz' = sz + SizeUpperLimit e; ents' = ents @ [e]
             in if sz' > maxSize then Some (ents', sz')
                else iterate_op (expectedIndex + 1) maxSize kvs ents' sz')
      | _ \<Rightarrow> None)"

definition plain_iterate :: "kv_store \<Rightarrow> entry list \<Rightarrow> nat \<Rightarrow> nat \<Rightarrow> nat \<Rightarrow> nat \<Rightarrow> nat \<Rightarrow> nat \<Rightarrow> nat \<Rightarrow>
    (entry list \<times> nat) option" where
  "plain_iterate kvs ents maxIndex sz clusterID nodeID low high maxSize =
     (if low + 1 = high \<and> low \<le> maxIndex then
        do { e \<leftarrow> getEntry kvs clusterID nodeID low;
             Some (ents @ [e], sz + SizeUpperLimit e) }
      else
        (let high' = (if high > maxIndex + 1 then maxIndex + 1 else high)
         in iterate_op low maxSize
              (IterateValue kvs (SetEntryKey clusterID nodeID low) (SetEntryKey clusterID nodeID high') False)
              ents sz))"

definition plain_getRange :: "kv_store \<Rightarrow> nat \<Rightarrow> nat \<Rightarrow> nat \<Rightarrow> nat \<Rightarrow> (nat \<times> nat) option" where
  "plain_getRange kvs clusterID nodeID snapshotIndex maxIndex =
     (case IterateValue kvs (SetEntryKey clusterID nodeID snapshotIndex) (SetEntryKey clusterID nodeID maxIndex) True of
        [] \<Rightarrow> if maxIndex \<noteq> 0 then None else Some (0, 0)
      | (k, v) # _ \<Rightarrow>
          (case v of
             DbEntry e \<Rightarrow>
               if e_Index e = 0 then (if maxIndex \<noteq> 0 then None else Some (0, 0))
               else Some (e_Index e, maxIndex + 1 - e_Index e)
           | _ \<Rightarrow> None))"

subsection \<open>The database of a shard\<close>

record db =
  db_cs :: cache
  db_kvs :: kv_store

definition openRDB :: "kv_store \<Rightarrow> db" where
  "openRDB kvs = \<lparr>db_cs = newCache, db_kvs = kvs\<rparr>"

datatype db_error = ErrNoSavedLog | ErrNoBootstrapInfo

record raft_state =
  rs_State :: hard_state
  rs_FirstIndex :: nat
  rs_EntryCount :: nat

definition hasEntryRecord :: "kv_store \<Rightarrow> bool \<Rightarrow> bool" where
  "hasEntryRecord kvs batched =
     (let m = 2 ^ 64 - 1;
          (fk, lk) = (if \<not> batched then (SetEntryKey 0 0 0, SetEntryKey m m m)
                      else (SetEntryBatchKey 0 0 0, SetEntryBatchKey m m m))
      in IterateValue kvs fk lk True \<noteq> [])"

definition listNodeInfo :: "db \<Rightarrow> (nat \<times> nat) list option" where
  "listNodeInfo r =
     (let m = 2 ^ 64 - 1
      in those (map (\<lambda>(k, v). parseNodeInfoKey k)
           (IterateValue (db_kvs r) (setBootstrapKey 0 0) (setBootstrapKey m m) True)))"

definition getMaxIndex :: "db \<Rightarrow> nat \<Rightarrow> nat \<Rightarrow> (db_error + nat) option" where
  "getMaxIndex r clusterID nodeID =
     (case cache_getMaxIndex (db_cs r) clusterID nodeID of
        Some v \<Rightarrow> Some (Inr v)
      | None \<Rightarrow>
          (case fmlookup (db_kvs r) (SetMaxIndexKey clusterID nodeID) of
             None \<Rightarrow> Some (Inl ErrNoSavedLog)
           | Some (DbMaxIndex m) \<Rightarrow> Some (Inr m)
           | Some _ \<Rightarrow> None))"

definition getState :: "db \<Rightarrow> nat \<Rightarrow> nat \<Rightarrow> (db_error + hard_state) option" where
  "getState r clusterID nodeID =
     (case fmlookup (db_kvs r) (SetStateKey clusterID nodeID) of
        None \<Rightarrow> Some (Inl ErrNoSavedLog)
      | Some (DbState st) \<Rightarrow> Some (Inr st)
      | Some _ \<Rightarrow> None)"

definition getRange :: "db \<Rightarrow> nat \<Rightarrow> nat \<Rightarrow> nat \<Rightarrow> (nat \<times> nat) option" where
  "getRange r clusterID nodeID snapshotIndex =
     do { m \<leftarrow> getMaxIndex r clusterID nodeID;
          (case m of
             Inl _ \<Rightarrow> Some (snapshotIndex, 0)
           | Inr maxIndex \<Rightarrow>
               if snapshotIndex = maxIndex then Some (snapshotIndex, 0)
               else plain_getRange (db_kvs r) clusterID nodeID snapshotIndex maxIndex) }"

definition readRaftState :: "db \<Rightarrow> nat \<Rightarrow> nat \<Rightarrow> nat \<Rightarrow> (db_error + raft_state) option" where
  "readRaftState r clusterID nodeID snapshotIndex =
     do { (firstIndex, len) \<leftarrow> getRange r clusterID nodeID snapshotIndex;
          st \<leftarrow> getState r clusterID nodeID;
          Some (case st of
             Inl err \<Rightarrow> Inl err
           | Inr s \<Rightarrow> Inr \<lparr>rs_State = s, rs_FirstIndex = firstIndex, rs_EntryCount = len\<rparr>) }"

subsection \<open>Writing\<close>

definition saveMaxIndex :: "write_op list \<Rightarrow> nat \<Rightarrow> nat \<Rightarrow> nat \<Rightarrow> write_op list" where
  "saveMaxIndex wb clusterID nodeID index = wb @ [Put (SetMaxIndexKey clusterID nodeID) (DbMaxIndex index)]"

definition setMaxIndex :: "db \<Rightarrow> write_op list \<Rightarrow> nat \<Rightarrow> nat \<Rightarrow> nat \<Rightarrow> db \<times> write_op list" where
  "setMaxIndex r wb clusterID nodeID maxIndex =
     (r\<lparr>db_cs := cache_setMaxIndex (db_cs r) clusterID nodeID maxIndex\<rparr>,
      saveMaxIndex wb clusterID nodeID maxIndex)"

definition saveSnapshot :: "write_op list \<Rightarrow> nat \<Rightarrow> nat \<Rightarrow> raft_snapshot \<Rightarrow> write_op list" where
  "saveSnapshot wb clusterID nodeID ss =
     (if IsEmptySnapshot ss then wb
      else wb @ [Put (setSnapshotKey clusterID nodeID (ss_Index ss)) (DbSnapshot ss)])"

definition saveBootstrap :: "write_op list \<Rightarrow> nat \<Rightarrow> nat \<Rightarrow> bootstrap \<Rightarrow> write_op list" where
  "saveBootstrap wb clusterID nodeID bs = wb @ [Put (setBootstrapKey clusterID nodeID) (DbBootstrap bs)]"

definition saveStateAllocs :: "write_op list \<Rightarrow> nat \<Rightarrow> nat \<Rightarrow> hard_state \<Rightarrow> write_op list" where
  "saveStateAllocs wb clusterID nodeID st = wb @ [Put (SetStateKey clusterID nodeID) (DbState st)]"

definition saveState :: "db \<Rightarrow> nat \<Rightarrow> nat \<Rightarrow> hard_state \<Rightarrow> write_op list \<Rightarrow> db \<times> write_op list" where
  "saveState r clusterID nodeID st wb =
     (if IsEmptyState st then (r, wb)
      else
        (let (cs, changed) = setState (db_cs r) clusterID nodeID st
         in (r\<lparr>db_cs := cs\<rparr>,
             if changed then wb @ [Put (SetStateKey clusterID nodeID) (DbState st)] else wb)))"

text \<open>One round of the first loop of \<^verbatim>\<open>saveRaftState\<close>, and one of \<^verbatim>\<open>saveEntries\<close>.\<close>

definition save_meta :: "raft_update \<Rightarrow> db \<times> write_op list \<Rightarrow> (db \<times> write_op list) option" where
  "save_meta ud = (\<lambda>(r, wb).
     let (r1, wb1) = saveState r (ud_ClusterID ud) (ud_NodeID ud) (ud_State ud) wb
     in if IsEmptySnapshot (ud_Snapshot ud) then Some (r1, wb1)
        else if ud_EntriesToSave ud \<noteq> [] \<and> ss_Index (ud_Snapshot ud) > e_Index (last (ud_EntriesToSave ud)) then None
        else
          (let wb2 = saveSnapshot wb1 (ud_ClusterID ud) (ud_NodeID ud) (ud_Snapshot ud)
           in Some (setMaxIndex r1 wb2 (ud_ClusterID ud) (ud_NodeID ud) (ss_Index (ud_Snapshot ud)))))"

definition saveEntries :: "raft_update \<Rightarrow> db \<times> write_op list \<Rightarrow> db \<times> write_op list" where
  "saveEntries ud = (\<lambda>(r, wb).
     if ud_EntriesToSave ud = [] then (r, wb)
     else
       (let (wb1, mi) = plain_record (ud_ClusterID ud) (ud_NodeID ud) (ud_EntriesToSave ud) wb 0
        in if mi > 0 then setMaxIndex r wb1 (ud_ClusterID ud) (ud_NodeID ud) mi else (r, wb1)))"

fun save_all_meta :: "raft_update list \<Rightarrow> db \<times> write_op list \<Rightarrow> (db \<times> write_op list) option" where
  "save_all_meta [] s = Some s"
| "save_all_meta (ud # uds) s = do { s' \<leftarrow> save_meta ud s; save_all_meta uds s' }"

definition saveRaftState :: "db \<Rightarrow> raft_update list \<Rightarrow> db option" where
  "saveRaftState r updates =
     do { s \<leftarrow> save_all_meta updates (r, []);
          let (r2, wb2) = fold saveEntries updates s;
          Some (r2\<lparr>db_kvs := CommitWriteBatch (db_kvs r2) wb2\<rparr>) }"

definition saveBootstrapInfo :: "db \<Rightarrow> nat \<Rightarrow> nat \<Rightarrow> bootstrap \<Rightarrow> db" where
  "saveBootstrapInfo r clusterID nodeID bs =
     r\<lparr>db_kvs := CommitWriteBatch (db_kvs r) (saveBootstrap [] clusterID nodeID bs)\<rparr>"

definition getBootstrapInfo :: "db \<Rightarrow> nat \<Rightarrow> nat \<Rightarrow> (db_error + bootstrap) option" where
  "getBootstrapInfo r clusterID nodeID =
     (case fmlookup (db_kvs r) (setBootstrapKey clusterID nodeID) of
        None \<Rightarrow> Some (Inl ErrNoBootstrapInfo)
      | Some (DbBootstrap b) \<Rightarrow> Some (Inr b)
      | Some _ \<Rightarrow> None)"

definition saveSnapshots :: "db \<Rightarrow> raft_update list \<Rightarrow> db" where
  "saveSnapshots r updates =
     r\<lparr>db_kvs := CommitWriteBatch (db_kvs r)
       (foldl (\<lambda>wb ud. if ss_Index (ud_Snapshot ud) > 0
            then saveSnapshot wb (ud_ClusterID ud) (ud_NodeID ud) (ud_Snapshot ud) else wb) [] updates)\<rparr>"

definition deleteSnapshot :: "db \<Rightarrow> nat \<Rightarrow> nat \<Rightarrow> nat \<Rightarrow> db" where
  "deleteSnapshot r clusterID nodeID snapshotIndex =
     r\<lparr>db_kvs := fmdrop (setSnapshotKey clusterID nodeID snapshotIndex) (db_kvs r)\<rparr>"

definition as_snapshot :: "db_value \<Rightarrow> raft_snapshot option" where
  "as_snapshot v = (case v of DbSnapshot ss \<Rightarrow> Some ss | _ \<Rightarrow> None)"

definition listSnapshots :: "db \<Rightarrow> nat \<Rightarrow> nat \<Rightarrow> nat \<Rightarrow> raft_snapshot list option" where
  "listSnapshots r clusterID nodeID index =
     those (map (\<lambda>(k, v). as_snapshot v)
       (IterateValue (db_kvs r) (setSnapshotKey clusterID nodeID 0) (setSnapshotKey clusterID nodeID index) True))"

definition removeEntriesTo :: "db \<Rightarrow> nat \<Rightarrow> nat \<Rightarrow> nat \<Rightarrow> db" where
  "removeEntriesTo r clusterID nodeID index =
     r\<lparr>db_kvs := BulkRemoveEntries (db_kvs r) (SetEntryKey clusterID nodeID 0) (SetEntryKey clusterID nodeID index)\<rparr>"

definition saveRemoveNodeData :: "write_op list \<Rightarrow> raft_snapshot list \<Rightarrow> nat \<Rightarrow> nat \<Rightarrow> write_op list" where
  "saveRemoveNodeData wb snapshots clusterID nodeID =
     wb @ [Delete (SetStateKey clusterID nodeID), Delete (setBootstrapKey clusterID nodeID),
           Delete (SetMaxIndexKey clusterID nodeID)] @
       map (\<lambda>ss. Delete (setSnapshotKey clusterID nodeID (ss_Index ss))) snapshots"

definition removeNodeData :: "db \<Rightarrow> nat \<Rightarrow> nat \<Rightarrow> db option" where
  "removeNodeData r clusterID nodeID =
     do { snapshots \<leftarrow> listSnapshots r clusterID nodeID (2 ^ 64 - 1);
          let r1 = r\<lparr>db_kvs := CommitWriteBatch (db_kvs r) (saveRemoveNodeData [] snapshots clusterID nodeID)\<rparr>;
          let r2 = r1\<lparr>db_cs := cache_setMaxIndex (db_cs r1) clusterID nodeID 0\<rparr>;
          Some (removeEntriesTo r2 clusterID nodeID (2 ^ 64 - 1)) }"

definition importSnapshot :: "db \<Rightarrow> raft_snapshot \<Rightarrow> nat \<Rightarrow> db option" where
  "importSnapshot r ss nodeID =
     (if ss_Type ss = 0 then None
      else
        do { snapshots \<leftarrow> listSnapshots r (ss_ClusterId ss) nodeID (2 ^ 64 - 1);
             let selectedss = filter (\<lambda>cur. ss_Index cur \<ge> ss_Index ss) snapshots;
             let wb = saveRemoveNodeData [] selectedss (ss_ClusterId ss) nodeID;
             let wb = saveBootstrap wb (ss_ClusterId ss) nodeID
               \<lparr>bs_Addresses = fmempty, bs_Join = True, bs_Type = ss_Type ss\<rparr>;
             let wb = saveStateAllocs wb (ss_ClusterId ss) nodeID
               \<lparr>hs_Term = ss_Term ss, hs_Vote = 0, hs_Commit = ss_Index ss\<rparr>;
             let wb = saveSnapshot wb (ss_ClusterId ss) nodeID ss;
             let wb = saveMaxIndex wb (ss_ClusterId ss) nodeID (ss_Index ss);
             Some (r\<lparr>db_kvs := CommitWriteBatch (db_kvs r) wb\<rparr>) })"

definition iterateEntries :: "db \<Rightarrow> entry list \<Rightarrow> nat \<Rightarrow> nat \<Rightarrow> nat \<Rightarrow> nat \<Rightarrow> nat \<Rightarrow> nat \<Rightarrow> (entry list \<times> nat) option" where
  "iterateEntries r ents sz clusterID nodeID low high maxSize =
     do { m \<leftarrow> getMaxIndex r clusterID nodeID;
          (case m of
             Inl _ \<Rightarrow> Some (ents, sz)
           | Inr maxIndex \<Rightarrow> plain_iterate (db_kvs r) ents maxIndex sz clusterID nodeID low high maxSize) }"

end
