(* ===== verification/Log_Db_Correct.thy ===== *)
theory Log_Db_Correct
  imports Log_Db
begin

text \<open>
  What the log database promises its readers: the entries saved for a node are read back, a save that
  starts below the old end truncates the log, and nodes do not see each other's records.
\<close>

subsection \<open>Well-formed stores\<close>

definition kv_shape :: "db_key \<Rightarrow> db_value \<Rightarrow> bool" where
  "kv_shape k v \<longleftrightarrow> (\<exists>c n. uint64 c \<and> uint64 n \<and>
     (case v of
        DbEntry e \<Rightarrow> uint64 (e_Index e) \<and> k = SetEntryKey c n (e_Index e)
      | DbState st \<Rightarrow> k = SetStateKey c n
      | DbMaxIndex m \<Rightarrow> uint64 (m + 1) \<and> k = SetMaxIndexKey c n
      | DbSnapshot ss \<Rightarrow> uint64 (ss_Index ss) \<and> k = setSnapshotKey c n (ss_Index ss)
      | DbBootstrap bs \<Rightarrow> k = setBootstrapKey c n))"

definition kv_wf :: "kv_store \<Rightarrow> bool" where
  "kv_wf kvs \<longleftrightarrow> (\<forall>k v. fmlookup kvs k = Some v \<longrightarrow> kv_shape k v)"

definition db_wf :: "db \<Rightarrow> bool" where
  "db_wf d \<longleftrightarrow> kv_wf (db_kvs d) \<and>
     (\<forall>c n m. fmlookup (ca_maxIndex (db_cs d)) (c, n) = Some m \<longrightarrow> uint64 c \<and> uint64 n \<and>
        (fmlookup (db_kvs d) (SetMaxIndexKey c n) = Some (DbMaxIndex m) \<or>
         m = 0 \<and> fmlookup (db_kvs d) (SetMaxIndexKey c n) = None))"

lemma key_prefix_between:
  fixes p q u v w :: "8 word list"
  assumes "length p = length q" and "p @ u \<le> q @ v" and "q @ v \<le> p @ w"
  shows "p = q"
  using assms append_less_fixed [of q p u v] append_less_fixed [of p q v w] by auto

lemma entry_key_between:
  assumes "kv_shape k v" and "uint64 c" "uint64 n" "uint64 low" "uint64 high"
    and "SetEntryKey c n low \<le> k" and "k \<le> SetEntryKey c n high"
  shows "\<exists>e. v = DbEntry e \<and> uint64 (e_Index e) \<and> k = SetEntryKey c n (e_Index e)"
proof -
  from assms(1) obtain c' n' where cn: "uint64 c'" "uint64 n'" and
    sh: "case v of DbEntry e \<Rightarrow> uint64 (e_Index e) \<and> k = SetEntryKey c' n' (e_Index e)
      | DbState st \<Rightarrow> k = SetStateKey c' n' | DbMaxIndex m \<Rightarrow> uint64 (m + 1) \<and> k = SetMaxIndexKey c' n'
      | DbSnapshot ss \<Rightarrow> uint64 (ss_Index ss) \<and> k = setSnapshotKey c' n' (ss_Index ss)
      | DbBootstrap bs \<Rightarrow> k = setBootstrapKey c' n'" unfolding kv_shape_def by blast
  show ?thesis
  proof (cases v)
    case (DbEntry e)
    then have k: "k = SetEntryKey c' n' (e_Index e)" "uint64 (e_Index e)" using sh by simp_all
    have "put_uint64 c @ put_uint64 n = put_uint64 c' @ put_uint64 n'"
      by (rule key_prefix_between [of _ _ "put_uint64 low" "put_uint64 (e_Index e)" "put_uint64 high"])
        (use assms(6,7) in \<open>simp_all add: k key_defs key_headers\<close>)
    then have "c = c' \<and> n = n'" using assms(2,3) cn by (simp add: put_uint64_inj)
    with DbEntry k show ?thesis by simp
  qed (use sh assms(7) in \<open>simp_all add: key_defs key_headers\<close>)
qed

lemma getEntry_Some:
  assumes "kv_wf kvs" and "uint64 c" "uint64 n" "uint64 i"
  shows "getEntry kvs c n i = Some e \<longleftrightarrow> fmlookup kvs (SetEntryKey c n i) = Some (DbEntry e)"
    and "getEntry kvs c n i = Some e \<Longrightarrow> e_Index e = i"
    and "fmlookup kvs (SetEntryKey c n i) = Some v \<Longrightarrow> v = DbEntry (the (getEntry kvs c n i)) \<and> getEntry kvs c n i \<noteq> None"
proof -
  have *: "\<exists>e. v = DbEntry e \<and> e_Index e = i" if "fmlookup kvs (SetEntryKey c n i) = Some v" for v
  proof -
    have "kv_shape (SetEntryKey c n i) v" using assms(1) that by (simp add: kv_wf_def)
    then obtain e where "v = DbEntry e" "uint64 (e_Index e)" "SetEntryKey c n i = SetEntryKey c n (e_Index e)"
      using entry_key_between [OF _ assms(2,3,4,4)] by blast
    then show ?thesis using key_inj(4) [OF assms(2,3,2,3)] assms(4) by metis
  qed
  show "getEntry kvs c n i = Some e \<longleftrightarrow> fmlookup kvs (SetEntryKey c n i) = Some (DbEntry e)"
    by (auto simp: getEntry_def split: option.splits db_value.splits)
  then show "getEntry kvs c n i = Some e \<Longrightarrow> e_Index e = i" using * by auto
  show "fmlookup kvs (SetEntryKey c n i) = Some v \<Longrightarrow> v = DbEntry (the (getEntry kvs c n i)) \<and> getEntry kvs c n i \<noteq> None"
    using * [of v] by (auto simp: getEntry_def)
qed

text \<open>Iterating over a range of entry keys visits exactly the entries stored there, in index order.\<close>

lemma set_IterateValue:
  "(k, v) \<in> set (IterateValue kvs fk lk inc) \<longleftrightarrow>
     fmlookup kvs k = Some v \<and> fk \<le> k \<and> (if inc then k \<le> lk else k < lk)"
  by (auto simp: IterateValue_def set_sorted_bindings)

lemma sorted_IterateValue: "sorted (map fst (IterateValue kvs fk lk inc))" "distinct (map fst (IterateValue kvs fk lk inc))"
proof -
  have "sorted (map fst (sorted_bindings kvs))" "distinct (map fst (sorted_bindings kvs))" by simp_all
  then show "sorted (map fst (IterateValue kvs fk lk inc))" "distinct (map fst (IterateValue kvs fk lk inc))"
    unfolding IterateValue_def by (auto intro: sorted_filter distinct_map_filter)
qed

lemma IterateValue_eqI:
  assumes "sorted (map fst xs)" "distinct (map fst xs)"
    and "\<And>k v. (k, v) \<in> set xs \<longleftrightarrow> fmlookup kvs k = Some v \<and> fk \<le> k \<and> (if inc then k \<le> lk else k < lk)"
  shows "IterateValue kvs fk lk inc = xs"
proof (rule map_sorted_distinct_set_unique [where f = fst])
  show s: "set (IterateValue kvs fk lk inc) = set xs" using assms(3) set_IterateValue by auto
  show "inj_on fst (set (IterateValue kvs fk lk inc) \<union> set xs)"
    unfolding s using assms(2) by (simp add: distinct_map)
qed (use assms(1,2) sorted_IterateValue in auto)

lemma IterateValue_entries:
  assumes w: "kv_wf kvs" and b: "uint64 c" "uint64 n" "uint64 low" "uint64 high"
  shows "IterateValue kvs (SetEntryKey c n low) (SetEntryKey c n high) False =
    map (\<lambda>i. (SetEntryKey c n i, DbEntry (the (getEntry kvs c n i))))
      (filter (\<lambda>i. getEntry kvs c n i \<noteq> None) [low..<high])" (is "_ = map ?f ?is")
proof (rule IterateValue_eqI)
  have u: "uint64 i" if "i \<in> set ?is" for i using that b(4) by auto
  have m: "map fst (map ?f ?is) = map (SetEntryKey c n) ?is" by simp
  have "sorted_wrt (<) ?is" by (intro sorted_wrt_filter) simp
  then have "sorted_wrt (\<lambda>i j. SetEntryKey c n i < SetEntryKey c n j) ?is"
    by (rule sorted_wrt_mono_rel [rotated]) (use u in \<open>simp add: entry_key_less\<close>)
  then have "sorted_wrt (<) (map (SetEntryKey c n) ?is)" by (simp add: sorted_wrt_map)
  then show "sorted (map fst (map ?f ?is))" "distinct (map fst (map ?f ?is))"
    unfolding m by (simp_all add: strict_sorted_iff)
  fix k v
  show "(k, v) \<in> set (map ?f ?is) \<longleftrightarrow> fmlookup kvs k = Some v \<and> SetEntryKey c n low \<le> k \<and>
      (if False then k \<le> SetEntryKey c n high else k < SetEntryKey c n high)" (is "?l \<longleftrightarrow> ?r")
  proof
    assume ?l
    then obtain i where i: "low \<le> i" "i < high" "getEntry kvs c n i \<noteq> None" "k = SetEntryKey c n i"
      "v = DbEntry (the (getEntry kvs c n i))" by auto
    moreover have "uint64 i" using i b by simp
    moreover from i(3) obtain e where "getEntry kvs c n i = Some e" by auto
    ultimately show ?r using getEntry_Some(1) [OF w b(1,2), of i e] entry_key_less [of i high c n] b
      entry_key_less [of i low c n] by (auto simp: not_less [symmetric])
  next
    assume r: ?r
    then have sh: "kv_shape k v" using w by (simp add: kv_wf_def)
    obtain e where e: "v = DbEntry e" "uint64 (e_Index e)" "k = SetEntryKey c n (e_Index e)"
      using entry_key_between [OF sh b] r by (auto simp: less_imp_le)
    then have "low \<le> e_Index e" "e_Index e < high"
      using r b entry_key_less [of "e_Index e" high c n] entry_key_less [of "e_Index e" low c n]
      by (auto simp: not_less [symmetric])
    moreover have "getEntry kvs c n (e_Index e) = Some e" using e r getEntry_Some(1) [OF w b(1,2) e(2)] by simp
    ultimately show ?l using e by force
  qed
qed

subsection \<open>Reading\<close>

text \<open>The log of a node as the database shows it: the entries up to the recorded maximum index.\<close>

definition last_index :: "db \<Rightarrow> nat \<Rightarrow> nat \<Rightarrow> nat" where
  "last_index d c n = (case getMaxIndex d c n of Some (Inr m) \<Rightarrow> m | _ \<Rightarrow> 0)"

definition stored_entry :: "db \<Rightarrow> nat \<Rightarrow> nat \<Rightarrow> nat \<Rightarrow> entry option" where
  "stored_entry d c n i = (if i \<le> last_index d c n then getEntry (db_kvs d) c n i else None)"

text \<open>The longest run of consecutive entries from an index on, and how much of it fits a size limit:
  everything up to and including the entry that goes past the limit.\<close>

fun stored_run :: "(nat \<Rightarrow> entry option) \<Rightarrow> nat \<Rightarrow> nat \<Rightarrow> entry list" where
  "stored_run f i 0 = []"
| "stored_run f i (Suc k) = (case f i of None \<Rightarrow> [] | Some e \<Rightarrow> e # stored_run f (Suc i) k)"

fun fit :: "nat \<Rightarrow> nat \<Rightarrow> entry list \<Rightarrow> entry list" where
  "fit maxSize sz [] = []"
| "fit maxSize sz (e # es) = e # (if sz + SizeUpperLimit e > maxSize then [] else fit maxSize (sz + SizeUpperLimit e) es)"

lemma stored_run_cong: "(\<And>j. i \<le> j \<Longrightarrow> j < i + k \<Longrightarrow> f j = g j) \<Longrightarrow> stored_run f i k = stored_run g i k"
  by (induction k arbitrary: i) (auto split: option.splits)

lemma stored_run_cut: "(\<And>j. b \<le> j \<Longrightarrow> f j = None) \<Longrightarrow> stored_run f i k = stored_run f i (min k (b - i))"
proof (induction k arbitrary: i)
  case (Suc k)
  then show ?case
  proof (cases "b \<le> i")
    case False
    then have "min (Suc k) (b - i) = Suc (min k (b - Suc i))" by simp
    with Suc show ?thesis by (simp split: option.splits)
  qed simp
qed simp

lemma iterate_op_run:
  assumes "\<And>j e. f j = Some e \<Longrightarrow> e_Index e = j"
  shows "iterate_op i maxSize (map (\<lambda>j. (key j, DbEntry (the (f j)))) (filter (\<lambda>j. f j \<noteq> None) [i..<i + k])) ents sz =
    Some (ents @ fit maxSize sz (stored_run f i k), sz + GetEntrySliceSize (fit maxSize sz (stored_run f i k)))"
proof (induction k arbitrary: i ents sz)
  case 0
  then show ?case by (simp add: GetEntrySliceSize_def)
next
  case (Suc k)
  have u: "[i..<i + Suc k] = i # [Suc i..<Suc i + k]" by (simp add: upt_rec)
  show ?case
  proof (cases "f i")
    case None
    show ?thesis
    proof (cases "filter (\<lambda>j. f j \<noteq> None) [Suc i..<Suc i + k]")
      case (Cons j js)
      then have "j \<in> set (filter (\<lambda>j. f j \<noteq> None) [Suc i..<Suc i + k])" by (simp only: list.set_intros)
      then have "i < j" "f j \<noteq> None" by auto
      then have "e_Index (the (f j)) \<noteq> i" using assms [of j] by auto
      with None Cons show ?thesis unfolding u by (simp add: GetEntrySliceSize_def del: upt_Suc)
    next
      case Nil
      with None show ?thesis unfolding u by (simp add: GetEntrySliceSize_def del: upt_Suc)
    qed
  next
    case (Some e)
    then have "e_Index e = i" by (rule assms)
    with Some Suc.IH [of "Suc i" "ents @ [e]" "sz + SizeUpperLimit e"] show ?thesis
      unfolding u by (simp add: Let_def GetEntrySliceSize_def del: upt_Suc)
  qed
qed

lemma max_index_bound:
  assumes "db_wf d" and "uint64 c" "uint64 n" and "getMaxIndex d c n = Some (Inr m)"
  shows "uint64 (m + 1)"
proof -
  have "m = 0 \<or> fmlookup (db_kvs d) (SetMaxIndexKey c n) = Some (DbMaxIndex m)"
    using assms by (fastforce simp: getMaxIndex_def cache_getMaxIndex_def db_wf_def split: option.splits db_value.splits)
  then show ?thesis
  proof
    assume "fmlookup (db_kvs d) (SetMaxIndexKey c n) = Some (DbMaxIndex m)"
    then have "kv_shape (SetMaxIndexKey c n) (DbMaxIndex m)" using assms(1) by (simp add: db_wf_def kv_wf_def)
    then show ?thesis by (auto simp: kv_shape_def)
  qed simp
qed

lemma stored_entry_index:
  assumes "db_wf d" and "uint64 c" "uint64 n" and "stored_entry d c n i = Some e"
  shows "e_Index e = i"
proof -
  have i: "i \<le> last_index d c n" "getEntry (db_kvs d) c n i = Some e"
    using assms(4) by (auto simp: stored_entry_def split: if_splits)
  moreover have "uint64 (last_index d c n)"
    using max_index_bound [OF assms(1-3)] by (auto simp: last_index_def split: option.splits sum.splits)
  ultimately show ?thesis using getEntry_Some(2) [of "db_kvs d" c n i e] assms by (simp add: db_wf_def)
qed

lemma IterateValue_stored:
  assumes w: "db_wf d" and b: "uint64 c" "uint64 n" "uint64 low" "uint64 h" and h: "h \<le> last_index d c n + 1"
  shows "IterateValue (db_kvs d) (SetEntryKey c n low) (SetEntryKey c n h) False =
    map (\<lambda>i. (SetEntryKey c n i, DbEntry (the (stored_entry d c n i))))
      (filter (\<lambda>i. stored_entry d c n i \<noteq> None) [low..<low + (h - low)])"
proof -
  have "IterateValue (db_kvs d) (SetEntryKey c n low) (SetEntryKey c n h) False =
      map (\<lambda>i. (SetEntryKey c n i, DbEntry (the (getEntry (db_kvs d) c n i))))
        (filter (\<lambda>i. getEntry (db_kvs d) c n i \<noteq> None) [low..<h])"
    using IterateValue_entries [OF _ b] w by (simp add: db_wf_def)
  moreover have "[low..<low + (h - low)] = [low..<h]" by (cases "low \<le> h") simp_all
  moreover have "getEntry (db_kvs d) c n i = stored_entry d c n i" if "i \<in> set [low..<h]" for i
    using that h by (simp add: stored_entry_def)
  ultimately show ?thesis by (auto intro!: map_cong filter_cong)
qed

lemma iterateEntries_run:
  assumes w: "db_wf d" and b: "uint64 c" "uint64 n" "uint64 low" and m: "getMaxIndex d c n = Some (Inr m)"
    and single: "low + 1 = high \<Longrightarrow> low \<le> m \<Longrightarrow> stored_entry d c n low \<noteq> None"
  shows "iterateEntries d [] 0 c n low high maxSize =
    (let run = fit maxSize 0 (stored_run (stored_entry d c n) low (high - low))
     in Some (run, GetEntrySliceSize run))"
proof -
  let ?g = "getEntry (db_kvs d) c n" and ?f = "stored_entry d c n"
  define h where "h = (if high > m + 1 then m + 1 else high)"
  have bm: "uint64 (m + 1)" using max_index_bound [OF w b(1,2) m] .
  have li: "last_index d c n = m" using m by (simp add: last_index_def)
  have hm: "h \<le> m + 1" by (simp add: h_def)
  show ?thesis
  proof (cases "low + 1 = high \<and> low \<le> m")
    case True
    then obtain e where e: "?g low = Some e" using single li by (auto simp: stored_entry_def)
    have "high - low = Suc 0" using True by auto
    then show ?thesis using True m li e
      by (simp add: iterateEntries_def plain_iterate_def stored_entry_def GetEntrySliceSize_def)
  next
    case False
    have "iterateEntries d [] 0 c n low high maxSize = plain_iterate (db_kvs d) [] m 0 c n low high maxSize"
      using m by (simp add: iterateEntries_def)
    also have "\<dots> = iterate_op low maxSize (IterateValue (db_kvs d) (SetEntryKey c n low) (SetEntryKey c n h) False) [] 0"
      unfolding plain_iterate_def if_not_P [OF False] Let_def h_def ..
    also have "IterateValue (db_kvs d) (SetEntryKey c n low) (SetEntryKey c n h) False =
        map (\<lambda>i. (SetEntryKey c n i, DbEntry (the (?f i)))) (filter (\<lambda>i. ?f i \<noteq> None) [low..<low + (h - low)])"
      using IterateValue_stored [OF w b _ _] bm hm li by simp
    also have "iterate_op low maxSize \<dots> [] 0 =
        (let run = fit maxSize 0 (stored_run ?f low (h - low)) in Some (run, GetEntrySliceSize run))"
      using iterate_op_run [of ?f low maxSize "SetEntryKey c n" "h - low" "[]" 0] stored_entry_index [OF w b(1,2)]
      by (simp add: Let_def)
    also have "stored_run ?f low (h - low) = stored_run ?f low (high - low)"
    proof -
      have "h - low = min (high - low) (m + 1 - low)" by (simp add: h_def)
      moreover have "?f j = None" if "m + 1 \<le> j" for j using that li by (simp add: stored_entry_def)
      ultimately show ?thesis using stored_run_cut [of "m + 1" ?f low "high - low"] by simp
    qed
    finally show ?thesis .
  qed
qed

text \<open>C26. Reading entries. For a well-formed database, reading the range from \<open>low\<close> to \<open>high\<close> returns the
  longest gap-free run of the node's stored entries that starts at \<open>low\<close>, cut after the first entry
  with which the total size exceeds the limit, together with that size. (A request for the single entry
  \<open>low\<close> must ask for one that is there, or the process stops.)\<close>

theorem iterate_reads_run:
  assumes w: "db_wf d" and b: "uint64 c" "uint64 n" "uint64 low" and m: "getMaxIndex d c n = Some (Inr m)"
    and single: "low + 1 = high \<Longrightarrow> low \<le> m \<Longrightarrow> stored_entry d c n low \<noteq> None"
  shows "iterateEntries d [] 0 c n low high maxSize =
    (let run = fit maxSize 0 (stored_run (stored_entry d c n) low (high - low))
     in Some (run, GetEntrySliceSize run))"
  by (rule iterateEntries_run [OF assms])

subsection \<open>Saving\<close>

text \<open>The cache of hard states agrees with the store.\<close>

definition state_cached :: "db \<Rightarrow> bool" where
  "state_cached d \<longleftrightarrow> (\<forall>c n st. fmlookup (ca_ps (db_cs d)) (c, n) = Some st \<longrightarrow>
     uint64 c \<and> uint64 n \<and> fmlookup (db_kvs d) (SetStateKey c n) = Some (DbState st))"

abbreviation entry_puts :: "nat \<Rightarrow> nat \<Rightarrow> entry list \<Rightarrow> write_op list" where
  "entry_puts c n es \<equiv> map (\<lambda>e. Put (SetEntryKey c n (e_Index e)) (DbEntry e)) es"

lemma plain_record_eq:
  assumes "consecutive i es" and "es \<noteq> []" and "mi \<le> i"
  shows "plain_record c n es wb mi = (wb @ entry_puts c n es, i + length es - 1)"
  using assms
proof (induction es arbitrary: i wb mi)
  case (Cons e es)
  show ?case
  proof (cases "es = []")
    case False
    then show ?thesis using Cons.IH [of "Suc i" i] Cons.prems by (auto split: if_splits)
  qed (use Cons.prems in auto)
qed simp

fun op_key :: "write_op \<Rightarrow> db_key" where
  "op_key (Put k v) = k"
| "op_key (Delete k) = k"

lemma commit_untouched: "k \<notin> op_key ` set wb \<Longrightarrow> fmlookup (fold apply_op wb kvs) k = fmlookup kvs k"
proof (induction wb arbitrary: kvs)
  case (Cons x wb)
  then show ?case by (cases x) auto
qed simp

lemma commit_entries:
  assumes "consecutive i es" and "uint64 c" "uint64 n" "uint64 (i + length es)" "uint64 j"
  shows "fmlookup (fold apply_op (entry_puts c n es) kvs) (SetEntryKey c n j) =
    (if i \<le> j \<and> j < i + length es then Some (DbEntry (es ! (j - i))) else fmlookup kvs (SetEntryKey c n j))"
  using assms(1,4)
proof (induction es arbitrary: i kvs)
  case (Cons e es)
  have k: "SetEntryKey c n (e_Index e) = SetEntryKey c n j \<longleftrightarrow> i = j"
    using Cons.prems key_inj(4) [OF assms(2,3,2,3)] assms(5) by simp
  show ?case
  proof (cases "i = j")
    case True
    then have "fmlookup (fold apply_op (entry_puts c n es) (fmupd (SetEntryKey c n (e_Index e)) (DbEntry e) kvs))
      (SetEntryKey c n j) = fmlookup (fmupd (SetEntryKey c n (e_Index e)) (DbEntry e) kvs) (SetEntryKey c n j)"
      using Cons.IH [of "Suc i"] Cons.prems by simp
    with True k show ?thesis by simp
  next
    case False
    then show ?thesis using Cons.IH [of "Suc i"] Cons.prems k by (auto simp: nth_Cons' Suc_diff_Suc)
  qed
qed auto

text \<open>What one update adds to the write batch and to the cache.\<close>

definition state_put :: "db \<Rightarrow> raft_update \<Rightarrow> write_op list" where
  "state_put d ud =
     (if IsEmptyState (ud_State ud) \<or> \<not> snd (setState (db_cs d) (ud_ClusterID ud) (ud_NodeID ud) (ud_State ud)) then []
      else [Put (SetStateKey (ud_ClusterID ud) (ud_NodeID ud)) (DbState (ud_State ud))])"

definition snapshot_put :: "raft_update \<Rightarrow> write_op list" where
  "snapshot_put ud =
     (if IsEmptySnapshot (ud_Snapshot ud) then []
      else [Put (setSnapshotKey (ud_ClusterID ud) (ud_NodeID ud) (ss_Index (ud_Snapshot ud))) (DbSnapshot (ud_Snapshot ud)),
            Put (SetMaxIndexKey (ud_ClusterID ud) (ud_NodeID ud)) (DbMaxIndex (ss_Index (ud_Snapshot ud)))])"

definition update_ok :: "raft_update \<Rightarrow> nat \<Rightarrow> bool" where
  "update_ok ud i \<longleftrightarrow> uint64 (ud_ClusterID ud) \<and> uint64 (ud_NodeID ud) \<and>
     consecutive i (ud_EntriesToSave ud) \<and> ud_EntriesToSave ud \<noteq> [] \<and> 0 < i \<and>
     uint64 (i + length (ud_EntriesToSave ud)) \<and> ss_Index (ud_Snapshot ud) < i + length (ud_EntriesToSave ud)"

lemma setState_maxIndex: "ca_maxIndex (fst (setState r c n st)) = ca_maxIndex r"
  by (simp add: setState_def split: option.splits)

lemma saveRaftState_single:
  assumes u: "update_ok ud i"
  defines "c \<equiv> ud_ClusterID ud" and "n \<equiv> ud_NodeID ud" and "m \<equiv> i + length (ud_EntriesToSave ud) - 1"
  shows "\<exists>d'. saveRaftState d [ud] = Some d' \<and>
    db_kvs d' = fold apply_op (state_put d ud @ snapshot_put ud @ entry_puts c n (ud_EntriesToSave ud) @
      [Put (SetMaxIndexKey c n) (DbMaxIndex m)]) (db_kvs d) \<and>
    ca_ps (db_cs d') = (if IsEmptyState (ud_State ud) then ca_ps (db_cs d)
      else ca_ps (fst (setState (db_cs d) c n (ud_State ud)))) \<and>
    fmlookup (ca_maxIndex (db_cs d')) = (fmlookup (ca_maxIndex (db_cs d)))((c, n) \<mapsto> m)"
proof -
  let ?es = "ud_EntriesToSave ud"
  have con: "consecutive i ?es" "?es \<noteq> []" "0 < i" using u by (simp_all add: update_ok_def)
  then have p: "plain_record c n ?es wb 0 = (wb @ entry_puts c n ?es, m)" for wb
    using plain_record_eq [of i ?es 0] by (simp add: m_def)
  have m0: "m > 0" using con by (cases ?es) (auto simp: m_def)
  have l: "\<not> e_Index (last ?es) < ss_Index (ud_Snapshot ud)"
    using consecutive_last [OF con(1,2)] u by (simp add: update_ok_def)
  let ?cs = "if IsEmptyState (ud_State ud) then db_cs d else fst (setState (db_cs d) c n (ud_State ud))"
  have st: "saveState d c n (ud_State ud) [] = (d\<lparr>db_cs := ?cs\<rparr>, state_put d ud)"
    by (simp add: saveState_def state_put_def split_def flip: c_def n_def)
  obtain r where meta: "save_meta ud (d, []) = Some (r, state_put d ud @ snapshot_put ud)"
    and r: "db_kvs r = db_kvs d" "ca_ps (db_cs r) = ca_ps ?cs"
      "\<And>x. x \<noteq> (c, n) \<Longrightarrow> fmlookup (ca_maxIndex (db_cs r)) x = fmlookup (ca_maxIndex (db_cs d)) x"
    using l con(2) by (cases "IsEmptySnapshot (ud_Snapshot ud)")
      (auto simp: save_meta_def st snapshot_put_def saveSnapshot_def setMaxIndex_def saveMaxIndex_def
        cache_setMaxIndex_def setState_maxIndex simp flip: c_def n_def)
  have "saveEntries ud (r, wb) = (r\<lparr>db_cs := cache_setMaxIndex (db_cs r) c n m\<rparr>,
      wb @ entry_puts c n ?es @ [Put (SetMaxIndexKey c n) (DbMaxIndex m)])" for wb
    using con(2) m0 by (simp add: saveEntries_def p setMaxIndex_def saveMaxIndex_def flip: c_def n_def)
  then have "saveRaftState d [ud] = Some (r\<lparr>db_cs := cache_setMaxIndex (db_cs r) c n m,
      db_kvs := fold apply_op (state_put d ud @ snapshot_put ud @ entry_puts c n ?es @
        [Put (SetMaxIndexKey c n) (DbMaxIndex m)]) (db_kvs d)\<rparr>)"
    by (simp add: saveRaftState_def meta CommitWriteBatch_def r(1))
  then show ?thesis using r(2,3) by (auto simp: cache_setMaxIndex_def fun_eq_iff)
qed

fun put_shaped :: "write_op \<Rightarrow> bool" where
  "put_shaped (Put k v) = kv_shape k v"
| "put_shaped (Delete k) = True"

lemma kv_wf_commit: "kv_wf kvs \<Longrightarrow> list_all put_shaped wb \<Longrightarrow> kv_wf (fold apply_op wb kvs)"
proof (induction wb arbitrary: kvs)
  case (Cons x wb)
  have "kv_wf (apply_op x kvs)" using Cons.prems by (cases x) (auto simp: kv_wf_def)
  with Cons show ?case by simp
qed simp

lemma isStateEqual_iff [simp]: "isStateEqual a b \<longleftrightarrow> a = b"
  by (cases a, cases b) (auto simp: isStateEqual_def)

lemma update_puts_shaped:
  assumes u: "update_ok ud i"
  shows "list_all put_shaped (state_put d ud @ snapshot_put ud @
    entry_puts (ud_ClusterID ud) (ud_NodeID ud) (ud_EntriesToSave ud) @
    [Put (SetMaxIndexKey (ud_ClusterID ud) (ud_NodeID ud)) (DbMaxIndex (i + length (ud_EntriesToSave ud) - 1))])"
proof -
  have b: "uint64 (ud_ClusterID ud)" "uint64 (ud_NodeID ud)" "ud_EntriesToSave ud \<noteq> []" "0 < i"
    "uint64 (i + length (ud_EntriesToSave ud))" "ss_Index (ud_Snapshot ud) < i + length (ud_EntriesToSave ud)"
    and con: "consecutive i (ud_EntriesToSave ud)" using u by (simp_all add: update_ok_def)
  have e: "uint64 (e_Index e)" if e: "e \<in> set (ud_EntriesToSave ud)" for e
  proof -
    obtain j where "j < length (ud_EntriesToSave ud)" "e = ud_EntriesToSave ud ! j"
      using e by (auto simp: in_set_conv_nth)
    then show ?thesis using con b(5) by (simp add: consecutive_nth)
  qed
  have shape: "kv_shape (SetEntryKey (ud_ClusterID ud) (ud_NodeID ud) (e_Index e)) (DbEntry e)"
    if "e \<in> set (ud_EntriesToSave ud)" for e using e [OF that] b(1,2) by (auto simp: kv_shape_def)
  have "list_all put_shaped (state_put d ud)" using b(1,2) by (auto simp: state_put_def kv_shape_def)
  moreover have "uint64 (ss_Index (ud_Snapshot ud) + 1)" "uint64 (ss_Index (ud_Snapshot ud))"
    using b(5,6) by (simp_all del: numeral_power_eq_of_nat_cancel_iff)
  then have "list_all put_shaped (snapshot_put ud)" using b(1,2) by (auto simp: snapshot_put_def kv_shape_def)
  moreover have "kv_shape (SetMaxIndexKey (ud_ClusterID ud) (ud_NodeID ud)) (DbMaxIndex (i + length (ud_EntriesToSave ud) - 1))"
    using b by (auto simp: kv_shape_def)
  ultimately show ?thesis using shape by (auto simp: list_all_iff)
qed

lemma saved_lookup:
  assumes u: "update_ok ud i" and b: "uint64 c" "uint64 n"
    and kvs: "kvs' = fold apply_op (state_put d ud @ snapshot_put ud @
      entry_puts (ud_ClusterID ud) (ud_NodeID ud) (ud_EntriesToSave ud) @
      [Put (SetMaxIndexKey (ud_ClusterID ud) (ud_NodeID ud)) (DbMaxIndex m)]) kvs"
  defines "own \<equiv> c = ud_ClusterID ud \<and> n = ud_NodeID ud"
  shows "uint64 j \<Longrightarrow> fmlookup kvs' (SetEntryKey c n j) =
      (if own \<and> i \<le> j \<and> j < i + length (ud_EntriesToSave ud) then Some (DbEntry (ud_EntriesToSave ud ! (j - i)))
       else fmlookup kvs (SetEntryKey c n j))"
    and "fmlookup kvs' (SetMaxIndexKey c n) = (if own then Some (DbMaxIndex m) else fmlookup kvs (SetMaxIndexKey c n))"
    and "fmlookup kvs' (SetStateKey c n) =
      (if own \<and> state_put d ud \<noteq> [] then Some (DbState (ud_State ud)) else fmlookup kvs (SetStateKey c n))"
proof -
  let ?c = "ud_ClusterID ud" and ?n = "ud_NodeID ud" and ?es = "ud_EntriesToSave ud"
  let ?pre = "state_put d ud @ snapshot_put ud"
  have ub: "uint64 ?c" "uint64 ?n" "consecutive i ?es" "uint64 (i + length ?es)" using u by (simp_all add: update_ok_def)
  have pre: "SetEntryKey x y z \<notin> op_key ` set ?pre" for x y z
    by (simp add: state_put_def snapshot_put_def)
  define mid where "mid = fold apply_op ?pre kvs"
  have kvs2: "kvs' = fmupd (SetMaxIndexKey ?c ?n) (DbMaxIndex m) (fold apply_op (entry_puts ?c ?n ?es) mid)"
    using kvs by (simp add: mid_def)
  have mid: "k \<notin> op_key ` set ?pre \<Longrightarrow> fmlookup mid k = fmlookup kvs k" for k
    unfolding mid_def by (rule commit_untouched)
  show "fmlookup kvs' (SetMaxIndexKey c n) = (if own then Some (DbMaxIndex m) else fmlookup kvs (SetMaxIndexKey c n))"
  proof (cases own)
    case False
    then have "SetMaxIndexKey ?c ?n \<noteq> SetMaxIndexKey c n" using key_inj(2) [OF ub(1,2) b] by (auto simp: own_def)
    moreover have "SetMaxIndexKey c n \<notin> op_key ` set (entry_puts ?c ?n ?es)" by auto
    moreover have "SetMaxIndexKey c n \<notin> op_key ` set ?pre"
      using calculation(1) by (auto simp: state_put_def snapshot_put_def)
    ultimately show ?thesis using False mid by (simp add: kvs2 commit_untouched)
  qed (simp add: kvs2 own_def)
  show "fmlookup kvs' (SetStateKey c n) =
      (if own \<and> state_put d ud \<noteq> [] then Some (DbState (ud_State ud)) else fmlookup kvs (SetStateKey c n))"
  proof -
    have "SetStateKey c n \<notin> op_key ` set (entry_puts ?c ?n ?es)" by auto
    then have "fmlookup kvs' (SetStateKey c n) = fmlookup mid (SetStateKey c n)"
      by (simp add: kvs2 commit_untouched)
    then show ?thesis using key_inj(1) [OF ub(1,2) b]
      by (auto simp: mid_def state_put_def snapshot_put_def own_def)
  qed
  show "fmlookup kvs' (SetEntryKey c n j) =
      (if own \<and> i \<le> j \<and> j < i + length ?es then Some (DbEntry (?es ! (j - i))) else fmlookup kvs (SetEntryKey c n j))"
    if j: "uint64 j"
  proof (cases own)
    case True
    then show ?thesis using commit_entries [OF ub(3,1,2,4) j] mid [OF pre]
      by (simp add: kvs2 own_def)
  next
    case False
    have "SetEntryKey c n j \<notin> op_key ` set (entry_puts ?c ?n ?es)"
    proof
      assume "SetEntryKey c n j \<in> op_key ` set (entry_puts ?c ?n ?es)"
      then obtain e where "e \<in> set ?es" "SetEntryKey c n j = SetEntryKey ?c ?n (e_Index e)" by auto
      moreover have "uint64 (e_Index e)"
        using \<open>e \<in> set ?es\<close> ub(3,4) by (auto simp: in_set_conv_nth consecutive_nth)
      ultimately show False using key_inj(4) [OF b ub(1,2) j] False by (auto simp: own_def)
    qed
    then show ?thesis using False mid [OF pre] by (simp add: kvs2 commit_untouched)
  qed
qed

lemma last_index_cached:
  "fmlookup (ca_maxIndex (db_cs d)) (c, n) = Some m \<Longrightarrow> last_index d c n = m"
  by (simp add: last_index_def getMaxIndex_def cache_getMaxIndex_def)

lemma last_index_cong:
  assumes "fmlookup (ca_maxIndex (db_cs d)) (c, n) = fmlookup (ca_maxIndex (db_cs d')) (c, n)"
    and "fmlookup (db_kvs d) (SetMaxIndexKey c n) = fmlookup (db_kvs d') (SetMaxIndexKey c n)"
  shows "last_index d c n = last_index d' c n"
  unfolding last_index_def getMaxIndex_def cache_getMaxIndex_def assms ..

lemma last_index_uint64: "db_wf d \<Longrightarrow> uint64 c \<Longrightarrow> uint64 n \<Longrightarrow> uint64 (last_index d c n)"
  using max_index_bound [of d c n] by (auto simp: last_index_def split: option.splits sum.splits)

lemma setState_ps:
  "fmlookup (ca_ps (fst (setState r c n st))) x = (if x = (c, n) then Some st else fmlookup (ca_ps r) x)"
  "\<not> snd (setState r c n st) \<Longrightarrow> fmlookup (ca_ps r) (c, n) = Some st"
  by (auto simp: setState_def split: option.splits if_splits)

text \<open>C25. Saving an update. When a node hands over consecutive entries that start at \<open>i\<close>, not beyond one
  past its last index, the save succeeds; afterwards the log of that node is the old one below \<open>i\<close>
  followed by exactly the new entries (what was stored beyond them is no longer visible), its hard
  state is the one handed over unless that was empty, no other node sees a change, and the database
  stays well-formed.\<close>

theorem save_extends_log:
  assumes w: "db_wf d" and sc: "state_cached d" and u: "update_ok ud i"
    and gap: "i \<le> last_index d (ud_ClusterID ud) (ud_NodeID ud) + 1"
  shows "\<exists>d'. saveRaftState d [ud] = Some d' \<and> db_wf d' \<and> state_cached d' \<and>
    (\<forall>j. stored_entry d' (ud_ClusterID ud) (ud_NodeID ud) j =
      (if j < i then stored_entry d (ud_ClusterID ud) (ud_NodeID ud) j
       else if j < i + length (ud_EntriesToSave ud) then Some (ud_EntriesToSave ud ! (j - i)) else None)) \<and>
    getState d' (ud_ClusterID ud) (ud_NodeID ud) =
      (if IsEmptyState (ud_State ud) then getState d (ud_ClusterID ud) (ud_NodeID ud) else Some (Inr (ud_State ud))) \<and>
    (\<forall>c n j. uint64 c \<and> uint64 n \<and> (c, n) \<noteq> (ud_ClusterID ud, ud_NodeID ud) \<longrightarrow>
      stored_entry d' c n j = stored_entry d c n j \<and> getState d' c n = getState d c n)"
proof -
  let ?c = "ud_ClusterID ud" and ?n = "ud_NodeID ud" and ?es = "ud_EntriesToSave ud" and ?st = "ud_State ud"
  define m where "m = i + length ?es - 1"
  have ub: "uint64 ?c" "uint64 ?n" "?es \<noteq> []" "0 < i" "uint64 (i + length ?es)" using u by (simp_all add: update_ok_def)
  then have im: "i \<le> m" "i + length ?es = m + 1" by (cases ?es; simp add: m_def)+
  obtain d' where d': "saveRaftState d [ud] = Some d'"
    and kvs: "db_kvs d' = fold apply_op (state_put d ud @ snapshot_put ud @ entry_puts ?c ?n ?es @
      [Put (SetMaxIndexKey ?c ?n) (DbMaxIndex m)]) (db_kvs d)"
    and ps: "ca_ps (db_cs d') = (if IsEmptyState ?st then ca_ps (db_cs d) else ca_ps (fst (setState (db_cs d) ?c ?n ?st)))"
    and mi: "fmlookup (ca_maxIndex (db_cs d')) = (fmlookup (ca_maxIndex (db_cs d)))((?c, ?n) \<mapsto> m)"
    using saveRaftState_single [OF u, of d] unfolding m_def by blast
  note look = saved_lookup [OF u _ _ kvs]
  have kw: "kv_wf (db_kvs d)" "kv_wf (db_kvs d')"
    using w kv_wf_commit [OF _ update_puts_shaped [OF u]] by (auto simp: db_wf_def kvs m_def)
  have "db_wf d'" using w kw(2) look(2) ub unfolding db_wf_def by (auto simp: mi)
  moreover have stput: "state_put d ud \<noteq> [] \<longleftrightarrow> \<not> IsEmptyState ?st \<and> snd (setState (db_cs d) ?c ?n ?st)"
    by (simp add: state_put_def)
  have st: "fmlookup (db_kvs d') (SetStateKey ?c ?n) = Some (DbState ?st)" if "\<not> IsEmptyState ?st"
    using look(3) [OF ub(1,2)] setState_ps(2) [of "db_cs d" ?c ?n ?st] sc that stput
    by (auto simp: state_cached_def)
  have "state_cached d'"
    using sc look(3) ub st stput unfolding state_cached_def ps by (auto simp: setState_ps(1) split: if_splits)
  moreover have l': "last_index d' ?c ?n = m" by (rule last_index_cached) (simp add: mi)
  have "stored_entry d' ?c ?n j = (if j < i then stored_entry d ?c ?n j
      else if j < i + length ?es then Some (?es ! (j - i)) else None)" for j
  proof (cases "j \<le> m")
    case True
    then have "uint64 j" using ub(5) im by simp
    with True show ?thesis using look(1) [OF ub(1,2), of j] l' gap im
      by (auto simp: stored_entry_def getEntry_def)
  qed (use l' im in \<open>auto simp: stored_entry_def\<close>)
  moreover have "getState d' ?c ?n = (if IsEmptyState ?st then getState d ?c ?n else Some (Inr ?st))"
    using st look(3) [OF ub(1,2)] stput by (auto simp: getState_def)
  moreover have "stored_entry d' c n j = stored_entry d c n j \<and> getState d' c n = getState d c n"
    if cn: "uint64 c" "uint64 n" "(c, n) \<noteq> (?c, ?n)" for c n j
  proof -
    have l: "last_index d' c n = last_index d c n" using look(2) [OF cn(1,2)] cn(3) mi by (intro last_index_cong) auto
    moreover have "getEntry (db_kvs d') c n j = getEntry (db_kvs d) c n j" if "uint64 j"
      using look(1) [OF cn(1,2) that] cn(3) by (auto simp: getEntry_def)
    ultimately show ?thesis using look(3) [OF cn(1,2)] cn(3) last_index_uint64 [OF w cn(1,2)]
      by (auto simp: stored_entry_def getState_def)
  qed
  ultimately show ?thesis using d' by blast
qed

definition demo_entry :: entry where
  "demo_entry = empty_entry\<lparr>e_Term := 3, e_Index := 1\<rparr>"

definition demo_update :: raft_update where
  "demo_update = \<lparr>ud_ClusterID = 7, ud_NodeID = 1, ud_State = \<lparr>hs_Term = 3, hs_Vote = 1, hs_Commit = 0\<rparr>,
     ud_FastApply = False, ud_EntriesToSave = [demo_entry], ud_CommittedEntries = [], ud_MoreCommittedEntries = False,
     ud_Snapshot = empty_snapshot, ud_ReadyToReads = [], ud_Messages = [], ud_LastApplied = 0,
     ud_UpdateCommit = \<lparr>uc_Processed = 0, uc_LastApplied = 0, uc_StableLogTo = 0, uc_StableLogTerm = 0,
       uc_StableSnapshotTo = 0, uc_ReadyToRead = 0\<rparr>, ud_DroppedEntries = [], ud_DroppedReadIndexes = []\<rparr>"

lemma demo_update_ok: "update_ok demo_update 1"
  by (simp add: update_ok_def demo_update_def demo_entry_def empty_snapshot_def)

theorem save_extends_log_witness:
  "\<exists>d'. saveRaftState (openRDB fmempty) [demo_update] = Some d' \<and> db_wf d' \<and>
    stored_entry d' 7 1 1 = Some demo_entry \<and> stored_entry d' 7 1 2 = None \<and>
    getState d' 7 1 = Some (Inr \<lparr>hs_Term = 3, hs_Vote = 1, hs_Commit = 0\<rparr>)"
proof -
  have "db_wf (openRDB fmempty)" "state_cached (openRDB fmempty)"
    by (simp_all add: db_wf_def kv_wf_def state_cached_def openRDB_def newCache_def)
  from save_extends_log [OF this demo_update_ok] show ?thesis
    by (auto simp: demo_update_def IsEmptyState_def emptyState_def)
qed

definition demo_store :: db where
  "demo_store = openRDB (fmupd (SetEntryKey 7 1 1) (DbEntry demo_entry)
     (fmupd (SetMaxIndexKey 7 1) (DbMaxIndex 1) fmempty))"

theorem iterate_reads_run_witness:
  "db_wf demo_store \<and> iterateEntries demo_store [] 0 7 1 1 5 1000 = Some ([demo_entry], 128)"
proof -
  have "kv_shape (SetMaxIndexKey 7 1) (DbMaxIndex 1)" "kv_shape (SetEntryKey 7 1 1) (DbEntry demo_entry)"
    unfolding kv_shape_def by (rule exI [of _ 7], rule exI [of _ 1], simp add: demo_entry_def)+
  then have w: "db_wf demo_store"
    by (auto simp: db_wf_def kv_wf_def demo_store_def openRDB_def newCache_def)
  have m: "getMaxIndex demo_store 7 1 = Some (Inr 1)"
    by (simp add: demo_store_def openRDB_def newCache_def getMaxIndex_def cache_getMaxIndex_def)
  then have "last_index demo_store 7 1 = 1" by (simp add: last_index_def)
  then have run: "stored_run (stored_entry demo_store 7 1) 1 4 = [demo_entry]"
    by (simp add: numeral_eq_Suc stored_entry_def getEntry_def demo_store_def openRDB_def)
  show ?thesis using w iterate_reads_run [OF w _ _ _ m, of 1 5 1000] run
    by (simp add: SizeUpperLimit_def EntryNonCmdFieldsSize_def demo_entry_def empty_entry_def GetEntrySliceSize_def)
qed

subsection \<open>Removing a node\<close>

lemma deletes_keep_None: "fmlookup kvs k = None \<Longrightarrow> fmlookup (fold apply_op (map Delete ks) kvs) k = None"
  by (induction ks arbitrary: kvs) auto

text \<open>C28. Removing the data of a node deletes its hard state from the store but leaves the cached copy. If the
  node is created again and its first hard state happens to be the cached one, the save is skipped and
  reading the state back reports that none was saved.\<close>

theorem removed_state_not_saved_again:
  assumes r: "removeNodeData d c n = Some d1" and cached: "fmlookup (ca_ps (db_cs d)) (c, n) = Some (ud_State ud)"
    and ud: "ud_ClusterID ud = c" "ud_NodeID ud = n" "IsEmptySnapshot (ud_Snapshot ud)" "ud_EntriesToSave ud = []"
  shows "\<exists>d2. saveRaftState d1 [ud] = Some d2 \<and> getState d2 c n = Some (Inl ErrNoSavedLog)"
proof -
  obtain sns where d1: "d1 = removeEntriesTo (d\<lparr>db_kvs := CommitWriteBatch (db_kvs d) (saveRemoveNodeData [] sns c n),
      db_cs := cache_setMaxIndex (db_cs d) c n 0\<rparr>) c n (2 ^ 64 - 1)"
    using r by (auto simp: removeNodeData_def bind_eq_Some_conv)
  let ?ks = "setBootstrapKey c n # SetMaxIndexKey c n # map (\<lambda>ss. setSnapshotKey c n (ss_Index ss)) sns"
  have ops: "saveRemoveNodeData [] sns c n = Delete (SetStateKey c n) # map Delete ?ks"
    by (simp add: saveRemoveNodeData_def)
  have "fmlookup (CommitWriteBatch (db_kvs d) (saveRemoveNodeData [] sns c n)) (SetStateKey c n) = None"
    unfolding CommitWriteBatch_def ops by (simp only: fold_Cons comp_apply, rule deletes_keep_None) simp
  then have "fmlookup (db_kvs d1) (SetStateKey c n) = None"
    by (simp add: d1 removeEntriesTo_def BulkRemoveEntries_def)
  moreover have "fmlookup (ca_ps (db_cs d1)) (c, n) = Some (ud_State ud)"
    using cached by (simp add: d1 removeEntriesTo_def cache_setMaxIndex_def)
  ultimately show ?thesis using ud
    by (auto simp: saveRaftState_def save_meta_def saveState_def setState_def saveEntries_def CommitWriteBatch_def
        getState_def)
qed

definition demo_cached :: db where
  "demo_cached = \<lparr>db_cs = newCache\<lparr>ca_ps := fmupd (7, 1) (ud_State demo_update) fmempty\<rparr>,
     db_kvs = fmupd (SetStateKey 7 1) (DbState (ud_State demo_update)) fmempty\<rparr>"

theorem removed_state_not_saved_again_witness:
  "\<exists>d1 d2. removeNodeData demo_cached 7 1 = Some d1 \<and>
    saveRaftState d1 [demo_update\<lparr>ud_EntriesToSave := []\<rparr>] = Some d2 \<and> getState d2 7 1 = Some (Inl ErrNoSavedLog)"
proof -
  have "IterateValue (db_kvs demo_cached) (setSnapshotKey 7 1 0) (setSnapshotKey 7 1 (2 ^ 64 - 1)) True = []"
    unfolding IterateValue_def
    by (rule filter_False) (auto simp: set_sorted_bindings demo_cached_def key_defs key_headers split: if_splits)
  then obtain d1 where r: "removeNodeData demo_cached 7 1 = Some d1"
    by (simp add: removeNodeData_def listSnapshots_def)
  have "\<exists>d2. saveRaftState d1 [demo_update\<lparr>ud_EntriesToSave := []\<rparr>] = Some d2 \<and> getState d2 7 1 = Some (Inl ErrNoSavedLog)"
    by (rule removed_state_not_saved_again [OF r])
      (simp_all add: demo_cached_def demo_update_def newCache_def empty_snapshot_def IsEmptySnapshot_def)
  with r show ?thesis by blast
qed

end
