(* ===== verification/Entry_Codec.thy ===== *)
theory Entry_Codec
  imports Log_Key
begin

unbundle bit_operations_syntax

text \<open>
  The byte format of log entries (\<^verbatim>\<open>internal/dragonboat/raftpb/raft_optimized.go\<close>): \<^verbatim>\<open>Entry.Size\<close>,
  \<^verbatim>\<open>Entry.MarshalTo\<close> and \<^verbatim>\<open>Entry.Unmarshal\<close>.

  The record \<open>wire_entry\<close> is the Go struct at its machine widths. Encoding gives the bytes written to the
  buffer. Decoding carries the position \<open>i\<close> and the bytes from there on; numbers under construction are
  natural numbers truncated to the width of the Go variable after every step. An error is a value, with the
  choice between end-of-input and size-exceeded made from the position as the label \<^verbatim>\<open>eof\<close> does.
\<close>

record wire_entry =
  w_Term :: u64
  w_Index :: u64
  w_Type :: "32 word"
  w_Key :: u64
  w_ClientID :: u64
  w_SeriesID :: u64
  w_RespondedTo :: u64
  w_Cmd :: "8 word list"

definition empty_wire_entry :: wire_entry where
  "empty_wire_entry = \<lparr>w_Term = 0, w_Index = 0, w_Type = 0, w_Key = 0, w_ClientID = 0, w_SeriesID = 0,
     w_RespondedTo = 0, w_Cmd = []\<rparr>"

definition ColferSizeMax :: nat where
  "ColferSizeMax = 8 * 1024 * 1024 * 1024 * 1024"

subsection \<open>Encoding\<close>

text \<open>The loop that writes seven bits per byte, lowest first.\<close>

lemma drop_bit_7_less: "\<not> x < 0x80 \<Longrightarrow> drop_bit 7 x < x" for x :: nat
  by (simp add: drop_bit_eq_div)

function varint :: "nat \<Rightarrow> 8 word list" where
  "varint x = (if x \<ge> 0x80 then of_nat (x OR 0x80) # varint (drop_bit 7 x) else [of_nat x])"
  by pat_completeness auto

termination
  by (relation "measure (\<lambda>x. x)") (auto simp: drop_bit_7_less)

declare varint.simps [simp del]

definition put_u64 :: "8 word \<Rightarrow> u64 \<Rightarrow> 8 word list" where
  "put_u64 tag x =
     (if x \<ge> push_bit 49 1 then (tag OR 0x80) # put_uint64 (unat x)
      else if x \<noteq> 0 then tag # varint (unat x)
      else [])"

definition put_type :: "32 word \<Rightarrow> 8 word list" where
  "put_type v =
     (if v \<noteq> 0 then
        (if 0 \<le>s v then 2 # varint (unat v) else (2 OR 0x80) # varint (unat (NOT v + 1)))
      else [])"

definition put_cmd :: "8 word list \<Rightarrow> 8 word list" where
  "put_cmd cmd = (if length cmd \<noteq> 0 then 7 # varint (length cmd) @ cmd else [])"

definition marshalTo :: "wire_entry \<Rightarrow> 8 word list" where
  "marshalTo e = put_u64 0 (w_Term e) @ put_u64 1 (w_Index e) @ put_type (w_Type e) @ put_u64 3 (w_Key e) @
     put_u64 4 (w_ClientID e) @ put_u64 5 (w_SeriesID e) @ put_u64 6 (w_RespondedTo e) @ put_cmd (w_Cmd e) @ [0x7f]"

subsection \<open>Size\<close>

text \<open>The loops \<^verbatim>\<open>for l += 2; x >= 0x80; l++ { x >>= 7 }\<close>.\<close>

function size_loop :: "nat \<Rightarrow> nat \<Rightarrow> nat" where
  "size_loop l x = (if x \<ge> 0x80 then size_loop (l + 1) (drop_bit 7 x) else l)"
  by pat_completeness auto

termination
  by (relation "measure (\<lambda>(l, x). x)") (auto simp: drop_bit_7_less)

declare size_loop.simps [simp del]

definition size_u64 :: "nat \<Rightarrow> u64 \<Rightarrow> nat" where
  "size_u64 l x = (if x \<ge> push_bit 49 1 then l + 9 else if x \<noteq> 0 then size_loop (l + 2) (unat x) else l)"

definition size_type :: "nat \<Rightarrow> 32 word \<Rightarrow> nat" where
  "size_type l v = (if v \<noteq> 0 then size_loop (l + 2) (unat (if v <s 0 then NOT v + 1 else v)) else l)"

definition Size :: "wire_entry \<Rightarrow> nat option" where
  "Size e =
     (let l = size_u64 (size_u64 1 (w_Term e)) (w_Index e);
          l = size_type l (w_Type e);
          l = size_u64 (size_u64 (size_u64 (size_u64 l (w_Key e)) (w_ClientID e)) (w_SeriesID e)) (w_RespondedTo e);
          x = length (w_Cmd e)
      in if x \<noteq> 0 \<and> x > ColferSizeMax then None
         else
           (let l = (if x \<noteq> 0 then size_loop (l + x + 2) x else l)
            in if l > ColferSizeMax then None else Some l))"

subsection \<open>Decoding\<close>

datatype unmarshal_error = EOF | ColferMax | ColferError nat

definition eof :: "nat \<Rightarrow> unmarshal_error" where
  "eof i = (if i \<ge> ColferSizeMax then ColferMax else EOF)"

fun and_then :: "'e + 'a \<Rightarrow> ('a \<Rightarrow> 'e + 'b) \<Rightarrow> 'e + 'b" where
  "and_then (Inl e) f = Inl e"
| "and_then (Inr x) f = f x"

text \<open>The continuation bytes of a number of \<open>w\<close> bits, from shift 7 on; the loop for 64-bit numbers stops
  unconditionally at shift 56. A byte is available whenever the loop reads one.\<close>

fun var_loop :: "nat \<Rightarrow> bool \<Rightarrow> nat \<Rightarrow> nat \<Rightarrow> nat \<Rightarrow> 8 word list \<Rightarrow> unmarshal_error + nat \<times> nat \<times> 8 word list" where
  "var_loop w stop56 shift x i [] = Inl (eof i)"
| "var_loop w stop56 shift x i (b # rest) =
     (if rest = [] then Inl (eof (i + 1))
      else if b < 0x80 \<or> stop56 \<and> shift = 56
      then Inr (take_bit w (x OR push_bit shift (unat b)), i + 1, rest)
      else var_loop w stop56 (shift + 7) (take_bit w (x OR push_bit shift (unat (b AND 0x7f)))) (i + 1) rest)"

text \<open>The result of a field block: the value if the field is present, then the next header, the position after
  it and the bytes from there.\<close>

type_synonym 'a field = "unmarshal_error + 'a option \<times> 8 word \<times> nat \<times> 8 word list"

text \<open>A value is followed by the header of the next field.\<close>

definition next_header :: "'a \<Rightarrow> nat \<Rightarrow> 8 word list \<Rightarrow> 'a field" where
  "next_header v i rest = Inr (Some v, hd rest, i + 1, tl rest)"

definition get_var :: "nat \<Rightarrow> bool \<Rightarrow> nat \<Rightarrow> 8 word list \<Rightarrow> unmarshal_error + nat \<times> nat \<times> 8 word list" where
  "get_var w stop56 i rest =
     (if length rest \<le> 1 then Inl (eof (i + 1))
      else
        (let x = hd rest
         in if x \<ge> 0x80 then var_loop w stop56 7 (unat (x AND 0x7f)) (i + 1) (tl rest)
            else Inr (unat x, i + 1, tl rest)))"

definition get_u64 :: "8 word \<Rightarrow> 8 word \<Rightarrow> nat \<Rightarrow> 8 word list \<Rightarrow> u64 field" where
  "get_u64 tag header i rest =
     (if header = tag then
        and_then (get_var 64 True i rest) (\<lambda>(x, i, rest). next_header (of_nat x) i rest)
      else if header = tag OR 0x80 then
        (if length rest \<le> 8 then Inl (eof (i + 8))
         else next_header (of_nat (get_uint64 rest)) (i + 8) (drop 8 rest))
      else Inr (None, header, i, rest))"

definition get_type :: "8 word \<Rightarrow> nat \<Rightarrow> 8 word list \<Rightarrow> (32 word) field" where
  "get_type header i rest =
     (if header = 2 then
        and_then (get_var 32 False i rest) (\<lambda>(x, i, rest). next_header (of_nat x) i rest)
      else if header = 2 OR 0x80 then
        and_then (get_var 32 False i rest) (\<lambda>(x, i, rest). next_header (NOT (of_nat x) + 1) i rest)
      else Inr (None, header, i, rest))"

fun len_loop :: "nat \<Rightarrow> nat \<Rightarrow> nat \<Rightarrow> 8 word list \<Rightarrow> unmarshal_error + nat \<times> nat \<times> 8 word list" where
  "len_loop shift x i [] = Inl (eof i)"
| "len_loop shift x i (b # rest) =
     (if b < 0x80 then Inr (take_bit 64 (x OR push_bit shift (unat b)), i + 1, rest)
      else len_loop (shift + 7) (take_bit 64 (x OR push_bit shift (unat (b AND 0x7f)))) (i + 1) rest)"

definition get_cmd :: "8 word \<Rightarrow> nat \<Rightarrow> 8 word list \<Rightarrow> (8 word list) field" where
  "get_cmd header i rest =
     (if header = 7 then
        (case rest of
           [] \<Rightarrow> Inl (eof i)
         | b # rest' \<Rightarrow>
             and_then
               (if b \<ge> 0x80 then len_loop 7 (unat (b AND 0x7f)) (i + 1) rest' else Inr (unat b, i + 1, rest'))
               (\<lambda>(x, i, rest).
                  if x > ColferSizeMax then Inl ColferMax
                  else if length rest \<le> x then Inl (eof (i + x))
                  else next_header (take x rest) (i + x) (drop x rest)))
      else Inr (None, header, i, rest))"

text \<open>A field that is absent leaves the struct as it was.\<close>

definition set_field :: "('a \<Rightarrow> wire_entry \<Rightarrow> wire_entry) \<Rightarrow> 'a option \<Rightarrow> wire_entry \<Rightarrow> wire_entry" where
  "set_field upd v e = (case v of None \<Rightarrow> e | Some x \<Rightarrow> upd x e)"

type_synonym decoder = "wire_entry \<times> 8 word \<times> nat \<times> 8 word list"

definition field_block :: "(8 word \<Rightarrow> nat \<Rightarrow> 8 word list \<Rightarrow> 'a field) \<Rightarrow> ('a \<Rightarrow> wire_entry \<Rightarrow> wire_entry) \<Rightarrow>
    decoder \<Rightarrow> unmarshal_error + decoder" where
  "field_block get upd = (\<lambda>(e, header, i, rest).
     and_then (get header i rest) (\<lambda>(v, header, i, rest). Inr (set_field upd v e, header, i, rest)))"

definition read_Term :: "decoder \<Rightarrow> unmarshal_error + decoder" where
  "read_Term = field_block (get_u64 0) (\<lambda>x e. e\<lparr>w_Term := x\<rparr>)"

definition read_Index :: "decoder \<Rightarrow> unmarshal_error + decoder" where
  "read_Index = field_block (get_u64 1) (\<lambda>x e. e\<lparr>w_Index := x\<rparr>)"

definition read_Type :: "decoder \<Rightarrow> unmarshal_error + decoder" where
  "read_Type = field_block get_type (\<lambda>x e. e\<lparr>w_Type := x\<rparr>)"

definition read_Key :: "decoder \<Rightarrow> unmarshal_error + decoder" where
  "read_Key = field_block (get_u64 3) (\<lambda>x e. e\<lparr>w_Key := x\<rparr>)"

definition read_ClientID :: "decoder \<Rightarrow> unmarshal_error + decoder" where
  "read_ClientID = field_block (get_u64 4) (\<lambda>x e. e\<lparr>w_ClientID := x\<rparr>)"

definition read_SeriesID :: "decoder \<Rightarrow> unmarshal_error + decoder" where
  "read_SeriesID = field_block (get_u64 5) (\<lambda>x e. e\<lparr>w_SeriesID := x\<rparr>)"

definition read_RespondedTo :: "decoder \<Rightarrow> unmarshal_error + decoder" where
  "read_RespondedTo = field_block (get_u64 6) (\<lambda>x e. e\<lparr>w_RespondedTo := x\<rparr>)"

definition read_Cmd :: "decoder \<Rightarrow> unmarshal_error + decoder" where
  "read_Cmd = field_block get_cmd (\<lambda>x e. e\<lparr>w_Cmd := x\<rparr>)"

definition finish :: "decoder \<Rightarrow> unmarshal_error + wire_entry \<times> nat" where
  "finish = (\<lambda>(e, header, i, rest).
     if header \<noteq> 0x7f then Inl (ColferError (i - 1))
     else if i < ColferSizeMax then Inr (e, i)
     else Inl (eof i))"

definition unmarshal :: "wire_entry \<Rightarrow> 8 word list \<Rightarrow> unmarshal_error + wire_entry \<times> nat" where
  "unmarshal e data =
     (if data = [] then Inl EOF
      else
        and_then (and_then (and_then (and_then (and_then (and_then (and_then (and_then
          (read_Term (e, hd data, 1, tl data)) read_Index) read_Type) read_Key) read_ClientID) read_SeriesID)
          read_RespondedTo) read_Cmd) finish)"

definition Unmarshal :: "wire_entry \<Rightarrow> 8 word list \<Rightarrow> unmarshal_error + wire_entry" where
  "Unmarshal e data = and_then (unmarshal e data) (\<lambda>(e, i). Inr e)"

subsection \<open>Numbers\<close>

lemma or_push_bit: "x < 2 ^ s \<Longrightarrow> x OR push_bit s b = x + b * 2 ^ s" for x b :: nat
proof -
  assume x: "x < 2 ^ s"
  have "x + push_bit s b = x OR push_bit s b"
  proof (rule disjunctive_add)
    fix n
    show "\<not> bit x n \<or> \<not> bit (push_bit s b) n"
    proof (cases "n < s")
      case False
      then have "\<not> bit x n" using x
        by (metis bit_take_bit_iff not_less take_bit_nat_eq_self)
      then show ?thesis by simp
    qed (simp add: bit_push_bit_iff)
  qed
  then show ?thesis by (simp add: push_bit_eq_mult mult.commute)
qed

lemma varint_small: "x < 0x80 \<Longrightarrow> varint x = [of_nat x]"
  by (simp add: varint.simps)

lemma varint_large: "0x80 \<le> x \<Longrightarrow> varint x = of_nat (x OR 0x80) # varint (x div 128)"
  by (subst varint.simps) (simp add: drop_bit_eq_div)

lemma varint_nonempty [simp]: "varint x \<noteq> []"
  by (subst varint.simps) simp

text \<open>The byte written for the low seven bits of a number.\<close>

lemma low_byte:
  "(0x80 :: 8 word) \<le> of_nat (x OR 0x80)" "unat (of_nat (x OR 0x80) AND 0x7f :: 8 word) = x mod 128"
proof -
  have b: "bit (of_nat (x OR 0x80) :: 8 word) 7"
    by (simp add: bit_simps)
  have "unat (0x80 :: 8 word) \<le> unat (of_nat (x OR 0x80) :: 8 word)"
  proof -
    have "bit (unat (of_nat (x OR 0x80) :: 8 word)) 7" using b by (simp add: bit_unsigned_iff)
    then have "\<not> unat (of_nat (x OR 0x80) :: 8 word) < 2 ^ 7"
      by (metis bit_take_bit_iff less_irrefl take_bit_nat_eq_self)
    then show ?thesis by simp
  qed
  then show "(0x80 :: 8 word) \<le> of_nat (x OR 0x80)" by (simp add: word_le_nat_alt)
  have "(of_nat (x OR 0x80) AND 0x7f :: 8 word) = of_nat (take_bit 7 x)"
  proof (rule bit_word_eqI)
    fix n assume "n < LENGTH(8)"
    have "(0x7f :: 8 word) = mask 7" "(0x80 :: nat) = push_bit 7 1" by (simp_all add: mask_eq_exp_minus_1)
    then have "bit (0x7f :: 8 word) n \<longleftrightarrow> n < 7" "bit (0x80 :: nat) n \<longleftrightarrow> n = 7"
      by (simp_all only: bit_mask_iff bit_push_bit_iff bit_1_iff) auto
    then show "bit (of_nat (x OR 0x80) AND 0x7f :: 8 word) n = bit (of_nat (take_bit 7 x) :: 8 word) n"
      using \<open>n < LENGTH(8)\<close> by (auto simp: bit_simps)
  qed
  then show "unat (of_nat (x OR 0x80) AND 0x7f :: 8 word) = x mod 128"
    by (simp add: take_bit_eq_mod unat_of_nat)
qed

text \<open>Reading back what the writing loop wrote.\<close>

lemma combine_bits: "(x :: nat) mod 128 * 2 ^ s + x div 128 * 2 ^ (s + 7) = x * 2 ^ s"
proof -
  have "x * 2 ^ s = (x mod 128 + x div 128 * 128) * 2 ^ s" by simp
  also have "\<dots> = x mod 128 * 2 ^ s + x div 128 * (128 * 2 ^ s)" by (simp only: distrib_right mult.assoc)
  also have "128 * 2 ^ s = (2 :: nat) ^ (s + 7)" by (simp add: power_add)
  finally show ?thesis ..
qed

lemma mod_bits_less: "a < 2 ^ s \<Longrightarrow> a + (x :: nat) mod 128 * 2 ^ s < 2 ^ (s + 7)"
proof -
  assume "a < 2 ^ s"
  then have "a + x mod 128 * 2 ^ s < 2 ^ s + x mod 128 * 2 ^ s" by simp
  also have "\<dots> = (x mod 128 + 1) * 2 ^ s" by simp
  also have "\<dots> \<le> 128 * 2 ^ s" by (intro mult_right_mono) (simp_all add: Suc_leI)
  also have "128 * 2 ^ s = (2 :: nat) ^ (s + 7)" by (simp add: power_add)
  finally show ?thesis .
qed

lemma var_loop_varint:
  assumes "a < 2 ^ s" and "a + x * 2 ^ s < 2 ^ w" and "stop56 \<Longrightarrow> x < 2 ^ (56 - s)"
  shows "var_loop w stop56 s a i (varint x @ h # rest) = Inr (a + x * 2 ^ s, i + length (varint x), h # rest)"
  using assms
proof (induction x arbitrary: a s i rule: less_induct)
  case (less x)
  show ?case
  proof (cases "x < 0x80")
    case True
    then have "unat (of_nat x :: 8 word) = x" "(of_nat x :: 8 word) < 0x80"
      by (simp_all add: unat_of_nat word_less_nat_alt)
    with True less.prems show ?thesis
      by (simp add: varint_small or_push_bit take_bit_nat_eq_self)
  next
    case False
    let ?b = "of_nat (x OR 0x80) :: 8 word"
    have v: "varint x = ?b # varint (x div 128)" using False by (simp add: varint_large)
    have b: "\<not> ?b < 0x80" "unat (?b AND 0x7f) = x mod 128" using low_byte [of x] by auto
    have s: "stop56 \<Longrightarrow> s + 7 \<le> 56"
    proof (rule ccontr)
      assume "stop56" "\<not> s + 7 \<le> 56"
      then have "(2 :: nat) ^ (56 - s) \<le> 2 ^ 7" by (intro power_increasing) auto
      with less.prems(3) \<open>stop56\<close> False show False by simp
    qed
    have sum: "a + x mod 128 * 2 ^ s + x div 128 * 2 ^ (s + 7) = a + x * 2 ^ s"
      using combine_bits [of x s] by simp
    have t: "take_bit w (a OR push_bit s (unat (?b AND 0x7f))) = a + x mod 128 * 2 ^ s"
      using less.prems(1,2) sum unfolding b(2) by (simp add: or_push_bit take_bit_nat_eq_self)
    have "var_loop w stop56 (s + 7) (a + x mod 128 * 2 ^ s) (i + 1) (varint (x div 128) @ h # rest) =
        Inr (a + x mod 128 * 2 ^ s + x div 128 * 2 ^ (s + 7), i + 1 + length (varint (x div 128)), h # rest)"
    proof (rule less.IH)
      show "x div 128 < x" using False by simp
      show "a + x mod 128 * 2 ^ s < 2 ^ (s + 7)" by (rule mod_bits_less [OF less.prems(1)])
      show "a + x mod 128 * 2 ^ s + x div 128 * 2 ^ (s + 7) < 2 ^ w" using sum less.prems(2) by simp
      show "x div 128 < 2 ^ (56 - (s + 7))" if "stop56"
      proof -
        have "56 - s = 56 - (s + 7) + 7" using s [OF that] by simp
        then have "x < 2 ^ (56 - (s + 7)) * 128" using less.prems(3) [OF that] by (simp only: power_add) simp
        then show ?thesis by (rule less_mult_imp_div_less)
      qed
    qed
    then show ?thesis using b(1) s t sum unfolding v by auto
  qed
qed

lemma len_loop_varint:
  assumes "a < 2 ^ s" and "a + x * 2 ^ s < 2 ^ 64"
  shows "len_loop s a i (varint x @ rest) = Inr (a + x * 2 ^ s, i + length (varint x), rest)"
  using assms
proof (induction x arbitrary: a s i rule: less_induct)
  case (less x)
  show ?case
  proof (cases "x < 0x80")
    case True
    then have "unat (of_nat x :: 8 word) = x" "(of_nat x :: 8 word) < 0x80"
      by (simp_all add: unat_of_nat word_less_nat_alt)
    with True less.prems show ?thesis by (simp add: varint_small or_push_bit take_bit_nat_eq_self)
  next
    case False
    let ?b = "of_nat (x OR 0x80) :: 8 word"
    have v: "varint x = ?b # varint (x div 128)" using False by (simp add: varint_large)
    have b: "\<not> ?b < 0x80" "unat (?b AND 0x7f) = x mod 128" using low_byte [of x] by auto
    have sum: "a + x mod 128 * 2 ^ s + x div 128 * 2 ^ (s + 7) = a + x * 2 ^ s"
      using combine_bits [of x s] by simp
    have t: "take_bit 64 (a OR push_bit s (unat (?b AND 0x7f))) = a + x mod 128 * 2 ^ s"
      using less.prems sum unfolding b(2) or_push_bit [OF less.prems(1)] by (intro take_bit_nat_eq_self) linarith
    have "len_loop (s + 7) (a + x mod 128 * 2 ^ s) (i + 1) (varint (x div 128) @ rest) =
        Inr (a + x mod 128 * 2 ^ s + x div 128 * 2 ^ (s + 7), i + 1 + length (varint (x div 128)), rest)"
      by (rule less.IH) (use False mod_bits_less [OF less.prems(1)] sum less.prems(2) in simp_all)
    then show ?thesis using b(1) t sum unfolding v by auto
  qed
qed

lemma get_var_varint:
  assumes "x < 2 ^ w" and "stop56 \<Longrightarrow> x < 2 ^ 56"
  shows "get_var w stop56 i (varint x @ h # rest) = Inr (x, i + length (varint x), h # rest)"
proof (cases "x < 0x80")
  case True
  then have "unat (of_nat x :: 8 word) = x" "\<not> (of_nat x :: 8 word) \<ge> 0x80"
    by (simp_all add: unat_of_nat word_le_nat_alt)
  with True show ?thesis by (simp add: varint_small get_var_def)
next
  case False
  have sum: "x mod 128 + x div 128 * 2 ^ 7 = x" by simp
  have "var_loop w stop56 7 (x mod 128) (i + 1) (varint (x div 128) @ h # rest) =
      Inr (x mod 128 + x div 128 * 2 ^ 7, i + 1 + length (varint (x div 128)), h # rest)"
  proof (rule var_loop_varint)
    show "x mod 128 < 2 ^ 7" by simp
    show "x mod 128 + x div 128 * 2 ^ 7 < 2 ^ w" using assms(1) sum by simp
    show "x div 128 < 2 ^ (56 - 7)" if "stop56"
      using assms(2) [OF that] less_mult_imp_div_less [of x "2 ^ 49" 128] by simp
  qed
  then have "var_loop w stop56 7 (x mod 128) (i + 1) (varint (x div 128) @ h # rest) =
      Inr (x, i + 1 + length (varint (x div 128)), h # rest)" unfolding sum .
  moreover have "varint x = of_nat (x OR 0x80) # varint (x div 128)" using False by (simp add: varint_large)
  moreover have "\<not> length (varint x @ h # rest) \<le> 1" by (cases "varint x") simp_all
  ultimately show ?thesis using low_byte [of x] by (simp add: get_var_def)
qed

lemma length_varint: "x < 2 ^ (7 * Suc k) \<Longrightarrow> length (varint x) \<le> Suc k"
proof (induction k arbitrary: x)
  case 0
  then show ?case by (simp add: varint_small)
next
  case (Suc k)
  show ?case
  proof (cases "x < 0x80")
    case False
    have "x < 2 ^ (7 * Suc k) * 128" using Suc.prems by (simp add: power_add)
    then have "x div 128 < 2 ^ (7 * Suc k)" by (rule less_mult_imp_div_less)
    with Suc.IH False show ?thesis by (simp add: varint_large)
  qed (simp add: varint_small)
qed

subsection \<open>Fields\<close>

lemma get_u64_put:
  assumes "x \<noteq> 0" and "tag OR 0x80 \<noteq> tag"
  shows "get_u64 tag (hd (put_u64 tag x)) i (tl (put_u64 tag x) @ h # t) =
    Inr (Some x, h, i + length (put_u64 tag x), t)"
proof (cases "push_bit 49 1 \<le> x")
  case True
  have "uint64 (unat x)" using unsigned_less [of x] by simp
  then have "get_uint64 (put_uint64 (unat x) @ h # t) = unat x" by (rule get_put_uint64)
  with True assms(2) show ?thesis by (simp add: put_u64_def get_u64_def next_header_def)
next
  case False
  then have "unat x < 2 ^ 49" by (simp add: word_le_nat_alt)
  then have "get_var 64 True i (varint (unat x) @ h # t) = Inr (unat x, i + length (varint (unat x)), h # t)"
    by (intro get_var_varint) simp_all
  with False assms(1) show ?thesis by (simp add: put_u64_def get_u64_def next_header_def)
qed

lemma get_type_put:
  assumes "v \<noteq> 0"
  shows "get_type (hd (put_type v)) i (tl (put_type v) @ h # t) = Inr (Some v, h, i + length (put_type v), t)"
proof -
  have g: "get_var 32 False i (varint (unat x) @ h # t) = Inr (unat x, i + length (varint (unat x)), h # t)" for x :: "32 word"
    by (rule get_var_varint) (use unsigned_less [of x] in simp_all)
  have "NOT (NOT v + 1) + 1 = v" by (simp add: minus_eq_not_plus_1 [symmetric])
  then show ?thesis using assms g [of v] g [of "NOT v + 1"]
    by (simp add: put_type_def get_type_def next_header_def)
qed

lemma get_cmd_put:
  assumes "c \<noteq> []" and "length c \<le> ColferSizeMax"
  shows "get_cmd (hd (put_cmd c)) i (tl (put_cmd c) @ h # t) = Inr (Some c, h, i + length (put_cmd c), t)"
proof -
  let ?n = "length c"
  have max: "?n < 2 ^ 64" using assms(2) by (simp add: ColferSizeMax_def)
  obtain b bs where v: "varint ?n = b # bs" by (cases "varint ?n") auto
  have "(if b \<ge> 0x80 then len_loop 7 (unat (b AND 0x7f)) (i + 1) (bs @ c @ h # t) else Inr (unat b, i + 1, bs @ c @ h # t)) =
      Inr (?n, i + length (varint ?n), c @ h # t)"
  proof (cases "?n < 0x80")
    case True
    then have "b = of_nat ?n" "bs = []" using v by (simp_all add: varint_small)
    moreover have "unat (of_nat ?n :: 8 word) = ?n" "\<not> (of_nat ?n :: 8 word) \<ge> 0x80"
      using True by (simp_all add: unat_of_nat word_le_nat_alt)
    ultimately show ?thesis using v by simp
  next
    case False
    have sum: "?n mod 128 + ?n div 128 * 2 ^ 7 = ?n" by simp
    have bs: "b = of_nat (?n OR 0x80)" "bs = varint (?n div 128)" using v False by (simp_all add: varint_large)
    have "len_loop 7 (?n mod 128) (i + 1) (varint (?n div 128) @ c @ h # t) =
        Inr (?n mod 128 + ?n div 128 * 2 ^ 7, i + 1 + length (varint (?n div 128)), c @ h # t)"
      by (rule len_loop_varint) (use max sum in simp_all)
    then show ?thesis using low_byte [of ?n] v bs unfolding sum by simp
  qed
  then show ?thesis using assms v by (simp add: put_cmd_def get_cmd_def next_header_def)
qed

lemma hd_put:
  "hd (put_u64 tag x @ t) \<in> {tag, tag OR 0x80, hd t}" "hd (put_type v @ t) \<in> {2, 2 OR 0x80, hd t}"
  "hd (put_cmd c @ t) \<in> {7, hd t}"
  by (auto simp: put_u64_def put_type_def put_cmd_def)

text \<open>A block that meets the encoding of its field reads it; one that meets the header of a later field
  leaves everything as it is.\<close>

lemma block_reads:
  assumes "bs \<noteq> [] \<Longrightarrow> get (hd bs) i (tl bs @ t) = Inr (Some x, hd t, i + length bs, tl t)"
    and "bs = [] \<Longrightarrow> get (hd t) i (tl t) = Inr (None, hd t, i, tl t)"
  shows "field_block get upd (e, hd (bs @ t), i, tl (bs @ t)) =
    Inr (if bs = [] then e else upd x e, hd t, i + length bs, tl t)"
  using assms by (cases bs) (auto simp: field_block_def set_field_def)

lemma block_u64:
  assumes "t \<noteq> []" and "hd t \<noteq> tag" "hd t \<noteq> tag OR 0x80" and "tag OR 0x80 \<noteq> tag"
  shows "field_block (get_u64 tag) upd (e, hd (put_u64 tag x @ t), i, tl (put_u64 tag x @ t)) =
    Inr (if x = 0 then e else upd x e, hd t, i + length (put_u64 tag x), tl t)"
proof -
  have n: "put_u64 tag x = [] \<longleftrightarrow> x = 0" by (auto simp: put_u64_def word_le_nat_alt)
  have t: "hd t # tl t = t" using assms(1) by simp
  show ?thesis
    using block_reads [of "put_u64 tag x" "get_u64 tag" i t x upd e] get_u64_put [of x tag i "hd t" "tl t"] assms n
    by (simp add: t get_u64_def)
qed

lemma block_type:
  assumes "t \<noteq> []" and "hd t \<noteq> 2" "hd t \<noteq> 2 OR 0x80"
  shows "field_block get_type upd (e, hd (put_type x @ t), i, tl (put_type x @ t)) =
    Inr (if x = 0 then e else upd x e, hd t, i + length (put_type x), tl t)"
proof -
  have n: "put_type x = [] \<longleftrightarrow> x = 0" by (auto simp: put_type_def)
  have t: "hd t # tl t = t" using assms(1) by simp
  show ?thesis
    using block_reads [of "put_type x" get_type i t x upd e] get_type_put [of x i "hd t" "tl t"] assms n
    by (simp add: t get_type_def)
qed

lemma block_cmd:
  assumes "t \<noteq> []" and "hd t \<noteq> 7" and "length c \<le> ColferSizeMax"
  shows "field_block get_cmd upd (e, hd (put_cmd c @ t), i, tl (put_cmd c @ t)) =
    Inr (if c = [] then e else upd c e, hd t, i + length (put_cmd c), tl t)"
proof -
  have n: "put_cmd c = [] \<longleftrightarrow> c = []" by (auto simp: put_cmd_def)
  have t: "hd t # tl t = t" using assms(1) by simp
  show ?thesis
    using block_reads [of "put_cmd c" get_cmd i t c upd e] get_cmd_put [of c i "hd t" "tl t"] assms n
    by (simp add: t get_cmd_def)
qed

subsection \<open>Whole entries\<close>

lemma absent_is_zero:
  "w_Term e = 0 \<Longrightarrow> (if x = 0 then e else e\<lparr>w_Term := x\<rparr>) = e\<lparr>w_Term := x\<rparr>"
  "w_Index e = 0 \<Longrightarrow> (if x = 0 then e else e\<lparr>w_Index := x\<rparr>) = e\<lparr>w_Index := x\<rparr>"
  "w_Type e = 0 \<Longrightarrow> (if y = 0 then e else e\<lparr>w_Type := y\<rparr>) = e\<lparr>w_Type := y\<rparr>"
  "w_Key e = 0 \<Longrightarrow> (if x = 0 then e else e\<lparr>w_Key := x\<rparr>) = e\<lparr>w_Key := x\<rparr>"
  "w_ClientID e = 0 \<Longrightarrow> (if x = 0 then e else e\<lparr>w_ClientID := x\<rparr>) = e\<lparr>w_ClientID := x\<rparr>"
  "w_SeriesID e = 0 \<Longrightarrow> (if x = 0 then e else e\<lparr>w_SeriesID := x\<rparr>) = e\<lparr>w_SeriesID := x\<rparr>"
  "w_RespondedTo e = 0 \<Longrightarrow> (if x = 0 then e else e\<lparr>w_RespondedTo := x\<rparr>) = e\<lparr>w_RespondedTo := x\<rparr>"
  "w_Cmd e = [] \<Longrightarrow> (if c = [] then e else e\<lparr>w_Cmd := c\<rparr>) = e\<lparr>w_Cmd := c\<rparr>"
  by (cases e; simp)+

text \<open>The bytes from a field on, followed by whatever the buffer holds after the entry.\<close>

definition tail8 :: "8 word list \<Rightarrow> 8 word list" where "tail8 r = 0x7f # r"

definition tail7 :: "wire_entry \<Rightarrow> 8 word list \<Rightarrow> 8 word list" where
  "tail7 e r = put_cmd (w_Cmd e) @ tail8 r"

definition tail6 :: "wire_entry \<Rightarrow> 8 word list \<Rightarrow> 8 word list" where
  "tail6 e r = put_u64 6 (w_RespondedTo e) @ tail7 e r"

definition tail5 :: "wire_entry \<Rightarrow> 8 word list \<Rightarrow> 8 word list" where
  "tail5 e r = put_u64 5 (w_SeriesID e) @ tail6 e r"

definition tail4 :: "wire_entry \<Rightarrow> 8 word list \<Rightarrow> 8 word list" where
  "tail4 e r = put_u64 4 (w_ClientID e) @ tail5 e r"

definition tail3 :: "wire_entry \<Rightarrow> 8 word list \<Rightarrow> 8 word list" where
  "tail3 e r = put_u64 3 (w_Key e) @ tail4 e r"

definition tail2 :: "wire_entry \<Rightarrow> 8 word list \<Rightarrow> 8 word list" where
  "tail2 e r = put_type (w_Type e) @ tail3 e r"

definition tail1 :: "wire_entry \<Rightarrow> 8 word list \<Rightarrow> 8 word list" where
  "tail1 e r = put_u64 1 (w_Index e) @ tail2 e r"

definition tail0 :: "wire_entry \<Rightarrow> 8 word list \<Rightarrow> 8 word list" where
  "tail0 e r = put_u64 0 (w_Term e) @ tail1 e r"

lemmas tail_defs = tail0_def tail1_def tail2_def tail3_def tail4_def tail5_def tail6_def tail7_def tail8_def

lemma tail_nonempty [simp]:
  "tail8 r \<noteq> []" "tail7 e r \<noteq> []" "tail6 e r \<noteq> []" "tail5 e r \<noteq> []" "tail4 e r \<noteq> []" "tail3 e r \<noteq> []" "tail2 e r \<noteq> []" "tail1 e r \<noteq> []" "tail0 e r \<noteq> []"
  by (simp_all add: tail_defs)

lemma tail8_head: "hd (tail8 r) = 0x7f"
  by (simp add: tail8_def)

lemma tail7_head: "hd (tail7 e r) \<in> {7, 0x7f}"
  using hd_put(3) [of "w_Cmd e" "tail8 r"] tail8_head [of r] unfolding tail7_def by auto

lemma tail6_head: "hd (tail6 e r) \<in> {6, 0x86, 7, 0x7f}"
  using hd_put(1) [of 6 "w_RespondedTo e" "tail7 e r"] tail7_head [of e r] unfolding tail6_def by auto

lemma tail5_head: "hd (tail5 e r) \<in> {5, 0x85, 6, 0x86, 7, 0x7f}"
  using hd_put(1) [of 5 "w_SeriesID e" "tail6 e r"] tail6_head [of e r] unfolding tail5_def by auto

lemma tail4_head: "hd (tail4 e r) \<in> {4, 0x84, 5, 0x85, 6, 0x86, 7, 0x7f}"
  using hd_put(1) [of 4 "w_ClientID e" "tail5 e r"] tail5_head [of e r] unfolding tail4_def by auto

lemma tail3_head: "hd (tail3 e r) \<in> {3, 0x83, 4, 0x84, 5, 0x85, 6, 0x86, 7, 0x7f}"
  using hd_put(1) [of 3 "w_Key e" "tail4 e r"] tail4_head [of e r] unfolding tail3_def by auto

lemma tail2_head: "hd (tail2 e r) \<in> {2, 0x82, 3, 0x83, 4, 0x84, 5, 0x85, 6, 0x86, 7, 0x7f}"
  using hd_put(2) [of "w_Type e" "tail3 e r"] tail3_head [of e r] unfolding tail2_def by auto

lemma tail1_head: "hd (tail1 e r) \<in> {1, 0x81, 2, 0x82, 3, 0x83, 4, 0x84, 5, 0x85, 6, 0x86, 7, 0x7f}"
  using hd_put(1) [of 1 "w_Index e" "tail2 e r"] tail2_head [of e r] unfolding tail1_def by auto

lemma read_tail:
  shows "read_Term (d, hd (tail0 e r), i, tl (tail0 e r)) = Inr (if w_Term e = 0 then d else d\<lparr>w_Term := w_Term e\<rparr>,
      hd (tail1 e r), i + length (put_u64 0 (w_Term e)), tl (tail1 e r))"
    and "read_Index (d, hd (tail1 e r), i, tl (tail1 e r)) = Inr (if w_Index e = 0 then d else d\<lparr>w_Index := w_Index e\<rparr>,
      hd (tail2 e r), i + length (put_u64 1 (w_Index e)), tl (tail2 e r))"
    and "read_Type (d, hd (tail2 e r), i, tl (tail2 e r)) = Inr (if w_Type e = 0 then d else d\<lparr>w_Type := w_Type e\<rparr>,
      hd (tail3 e r), i + length (put_type (w_Type e)), tl (tail3 e r))"
    and "read_Key (d, hd (tail3 e r), i, tl (tail3 e r)) = Inr (if w_Key e = 0 then d else d\<lparr>w_Key := w_Key e\<rparr>,
      hd (tail4 e r), i + length (put_u64 3 (w_Key e)), tl (tail4 e r))"
    and "read_ClientID (d, hd (tail4 e r), i, tl (tail4 e r)) = Inr (if w_ClientID e = 0 then d else d\<lparr>w_ClientID := w_ClientID e\<rparr>,
      hd (tail5 e r), i + length (put_u64 4 (w_ClientID e)), tl (tail5 e r))"
    and "read_SeriesID (d, hd (tail5 e r), i, tl (tail5 e r)) = Inr (if w_SeriesID e = 0 then d else d\<lparr>w_SeriesID := w_SeriesID e\<rparr>,
      hd (tail6 e r), i + length (put_u64 5 (w_SeriesID e)), tl (tail6 e r))"
    and "read_RespondedTo (d, hd (tail6 e r), i, tl (tail6 e r)) = Inr (if w_RespondedTo e = 0 then d else d\<lparr>w_RespondedTo := w_RespondedTo e\<rparr>,
      hd (tail7 e r), i + length (put_u64 6 (w_RespondedTo e)), tl (tail7 e r))"
    and "length (w_Cmd e) \<le> ColferSizeMax \<Longrightarrow> read_Cmd (d, hd (tail7 e r), i, tl (tail7 e r)) = Inr (if w_Cmd e = [] then d else d\<lparr>w_Cmd := w_Cmd e\<rparr>,
      hd (tail8 r), i + length (put_cmd (w_Cmd e)), tl (tail8 r))"
proof -
  show "read_Term (d, hd (tail0 e r), i, tl (tail0 e r)) = Inr (if w_Term e = 0 then d else d\<lparr>w_Term := w_Term e\<rparr>,
      hd (tail1 e r), i + length (put_u64 0 (w_Term e)), tl (tail1 e r))"
    unfolding read_Term_def tail0_def by (rule block_u64) (use tail1_head [of e r] in auto)
  show "read_Index (d, hd (tail1 e r), i, tl (tail1 e r)) = Inr (if w_Index e = 0 then d else d\<lparr>w_Index := w_Index e\<rparr>,
      hd (tail2 e r), i + length (put_u64 1 (w_Index e)), tl (tail2 e r))"
    unfolding read_Index_def tail1_def by (rule block_u64) (use tail2_head [of e r] in auto)
  show "read_Type (d, hd (tail2 e r), i, tl (tail2 e r)) = Inr (if w_Type e = 0 then d else d\<lparr>w_Type := w_Type e\<rparr>,
      hd (tail3 e r), i + length (put_type (w_Type e)), tl (tail3 e r))"
    unfolding read_Type_def tail2_def by (rule block_type) (use tail3_head [of e r] in auto)
  show "read_Key (d, hd (tail3 e r), i, tl (tail3 e r)) = Inr (if w_Key e = 0 then d else d\<lparr>w_Key := w_Key e\<rparr>,
      hd (tail4 e r), i + length (put_u64 3 (w_Key e)), tl (tail4 e r))"
    unfolding read_Key_def tail3_def by (rule block_u64) (use tail4_head [of e r] in auto)
  show "read_ClientID (d, hd (tail4 e r), i, tl (tail4 e r)) = Inr (if w_ClientID e = 0 then d else d\<lparr>w_ClientID := w_ClientID e\<rparr>,
      hd (tail5 e r), i + length (put_u64 4 (w_ClientID e)), tl (tail5 e r))"
    unfolding read_ClientID_def tail4_def by (rule block_u64) (use tail5_head [of e r] in auto)
  show "read_SeriesID (d, hd (tail5 e r), i, tl (tail5 e r)) = Inr (if w_SeriesID e = 0 then d else d\<lparr>w_SeriesID := w_SeriesID e\<rparr>,
      hd (tail6 e r), i + length (put_u64 5 (w_SeriesID e)), tl (tail6 e r))"
    unfolding read_SeriesID_def tail5_def by (rule block_u64) (use tail6_head [of e r] in auto)
  show "read_RespondedTo (d, hd (tail6 e r), i, tl (tail6 e r)) = Inr (if w_RespondedTo e = 0 then d else d\<lparr>w_RespondedTo := w_RespondedTo e\<rparr>,
      hd (tail7 e r), i + length (put_u64 6 (w_RespondedTo e)), tl (tail7 e r))"
    unfolding read_RespondedTo_def tail6_def by (rule block_u64) (use tail7_head [of e r] in auto)
  show "read_Cmd (d, hd (tail7 e r), i, tl (tail7 e r)) = Inr (if w_Cmd e = [] then d else d\<lparr>w_Cmd := w_Cmd e\<rparr>,
      hd (tail8 r), i + length (put_cmd (w_Cmd e)), tl (tail8 r))" if "length (w_Cmd e) \<le> ColferSizeMax"
    unfolding read_Cmd_def tail7_def by (rule block_cmd) (use tail8_head [of r] that in auto)
qed

lemma unmarshal_marshalTo:
  assumes c: "length (w_Cmd e) \<le> ColferSizeMax" and l: "length (marshalTo e) < ColferSizeMax"
  shows "unmarshal empty_wire_entry (marshalTo e @ extra) = Inr (e, length (marshalTo e))"
proof -
  have m: "marshalTo e @ extra = tail0 e extra" by (simp add: marshalTo_def tail_defs)
  have n: "1 + length (put_u64 0 (w_Term e)) + length (put_u64 1 (w_Index e)) + length (put_type (w_Type e)) +
      length (put_u64 3 (w_Key e)) + length (put_u64 4 (w_ClientID e)) + length (put_u64 5 (w_SeriesID e)) +
      length (put_u64 6 (w_RespondedTo e)) + length (put_cmd (w_Cmd e)) = length (marshalTo e)"
    by (simp add: marshalTo_def)
  show ?thesis unfolding unmarshal_def m
    by (simp add: read_tail c finish_def tail8_head absent_is_zero empty_wire_entry_def n [simplified] l)
qed

subsection \<open>Sizes\<close>

lemma size_loop_varint: "size_loop l x + 1 = l + length (varint x)"
proof (induction l x rule: size_loop.induct)
  case (1 l x)
  then show ?case by (subst size_loop.simps, subst varint.simps) auto
qed

lemma size_loop_eq: "size_loop (l + 2) x = l + 1 + length (varint x)"
  using size_loop_varint [of "l + 2" x] by simp

lemma size_loop_Suc: "size_loop (Suc (Suc l)) x = Suc (l + length (varint x))"
  using size_loop_eq [of l x] by simp

lemma size_loop_small: "x < 0x80 \<Longrightarrow> size_loop l x = l"
  by (simp add: size_loop.simps)

lemma size_loop_large: "0x80 \<le> x \<Longrightarrow> size_loop l x = size_loop (l + 1) (x div 128)"
  by (subst size_loop.simps) (simp add: drop_bit_eq_div)

lemma size_fields:
  "size_u64 l x = l + length (put_u64 tag x)" "size_type l v = l + length (put_type v)"
proof -
  show "size_u64 l x = l + length (put_u64 tag x)"
    by (cases "push_bit 49 1 \<le> x"; cases "x = 0") (simp_all add: size_u64_def put_u64_def size_loop_Suc)
  show "size_type l v = l + length (put_type v)"
    by (cases "v = 0"; cases "v <s 0")
      (simp_all add: size_type_def put_type_def size_loop_Suc word_sless_alt word_sle_eq not_le)
qed

lemma put_bounds:
  "length (put_u64 tag x) \<le> 9" "length (put_type v) \<le> 6"
  "length c \<le> ColferSizeMax \<Longrightarrow> length (put_cmd c) \<le> length c + 8"
proof -
  show "length (put_u64 tag x) \<le> 9"
  proof (cases "push_bit 49 1 \<le> x")
    case False
    then have "unat x < 2 ^ (7 * Suc 6)" by (simp add: word_le_nat_alt)
    from length_varint [OF this] False show ?thesis by (simp add: put_u64_def)
  qed (simp add: put_u64_def)
  have "length (varint (unat w)) \<le> Suc 4" for w :: "32 word"
  proof (rule length_varint)
    have "unat w < 2 ^ LENGTH(32)" by (rule unsigned_less)
    then show "unat w < 2 ^ (7 * Suc 4)" by simp
  qed
  from this [of v] this [of "NOT v + 1"] show "length (put_type v) \<le> 6" by (simp add: put_type_def)
  assume "length c \<le> ColferSizeMax"
  then have "length c < 2 ^ (7 * Suc 6)" by (simp add: ColferSizeMax_def)
  from length_varint [OF this] show "length (put_cmd c) \<le> length c + 8" by (simp add: put_cmd_def)
qed

lemma Size_marshalTo:
  assumes "Size e = Some n"
  shows "n = length (marshalTo e)" and "length (w_Cmd e) \<le> ColferSizeMax" and "n \<le> ColferSizeMax"
proof -
  let ?l = "1 + length (put_u64 0 (w_Term e)) + length (put_u64 1 (w_Index e)) + length (put_type (w_Type e)) +
    length (put_u64 3 (w_Key e)) + length (put_u64 4 (w_ClientID e)) + length (put_u64 5 (w_SeriesID e)) +
    length (put_u64 6 (w_RespondedTo e))"
  have l: "size_u64 (size_u64 (size_u64 (size_u64 (size_type (size_u64 (size_u64 1 (w_Term e)) (w_Index e)) (w_Type e))
      (w_Key e)) (w_ClientID e)) (w_SeriesID e)) (w_RespondedTo e) = ?l"
    unfolding size_fields(1) [of _ "w_Term e" 0] size_fields(1) [of _ "w_Index e" 1] size_fields(1) [of _ "w_Key e" 3]
      size_fields(1) [of _ "w_ClientID e" 4] size_fields(1) [of _ "w_SeriesID e" 5]
      size_fields(1) [of _ "w_RespondedTo e" 6] size_fields(2) by simp
  have c: "(if length (w_Cmd e) \<noteq> 0 then size_loop (?l + length (w_Cmd e) + 2) (length (w_Cmd e)) else ?l) =
      ?l + length (put_cmd (w_Cmd e))"
    unfolding size_loop_eq by (simp add: put_cmd_def)
  show "n = length (marshalTo e)" "length (w_Cmd e) \<le> ColferSizeMax" "n \<le> ColferSizeMax"
    using assms unfolding Size_def Let_def l c by (auto simp: marshalTo_def split: if_splits)
qed

text \<open>C27. Storing and loading an entry. For an entry whose size is within the format's limit, the size computed
  beforehand is the number of bytes written, it fits the buffer of \<^verbatim>\<open>SizeUpperLimit\<close> bytes the log database
  provides, and reading the bytes back, whatever follows them, gives the same entry.\<close>

theorem entry_codec_roundtrip:
  assumes n: "Size e = Some n" and l: "n < ColferSizeMax"
  shows "length (marshalTo e) = n \<and> n \<le> EntryNonCmdFieldsSize + length (w_Cmd e) \<and>
    Unmarshal empty_wire_entry (marshalTo e @ extra) = Inr e"
proof -
  note s = Size_marshalTo [OF n]
  have "length (marshalTo e) \<le> 9 + (9 + (6 + (9 + (9 + (9 + (9 + ((length (w_Cmd e) + 8) + 1)))))))"
    unfolding marshalTo_def length_append
    by (intro add_mono put_bounds s(2)) simp
  then show ?thesis using s l unmarshal_marshalTo [OF s(2), of extra]
    by (simp add: Unmarshal_def EntryNonCmdFieldsSize_def)
qed

theorem entry_codec_roundtrip_witness:
  "Size \<lparr>w_Term = 3, w_Index = 300, w_Type = 1, w_Key = 2 ^ 50, w_ClientID = 0, w_SeriesID = 0, w_RespondedTo = 0,
      w_Cmd = [1, 2]\<rparr> = Some 21 \<and>
   Unmarshal empty_wire_entry (marshalTo \<lparr>w_Term = 3, w_Index = 300, w_Type = 1, w_Key = 2 ^ 50, w_ClientID = 0,
      w_SeriesID = 0, w_RespondedTo = 0, w_Cmd = [1, 2]\<rparr> @ [9]) =
     Inr \<lparr>w_Term = 3, w_Index = 300, w_Type = 1, w_Key = 2 ^ 50, w_ClientID = 0, w_SeriesID = 0, w_RespondedTo = 0,
      w_Cmd = [1, 2]\<rparr>"
proof -
  let ?e = "\<lparr>w_Term = 3, w_Index = 300, w_Type = 1, w_Key = 2 ^ 50, w_ClientID = 0, w_SeriesID = 0,
    w_RespondedTo = 0, w_Cmd = [1, 2]\<rparr>"
  have s: "Size ?e = Some 21"
    by (simp add: Size_def size_u64_def size_type_def size_loop_small size_loop_large ColferSizeMax_def word_sless_alt)
  with entry_codec_roundtrip [OF s, of "[9]"] show ?thesis by (simp add: ColferSizeMax_def)
qed

end
