(* ===== verification/Log_Reader.thy ===== *)
theory Log_Reader
  imports Log_Db
begin

text \<open>
  The window a Raft node has on its log database (\<^verbatim>\<open>internal/dragonboat/internal/logdb/logreader.go\<close>):
  the range of persisted entries, the term of the entry before it, and the last snapshot.

  The errors of the interface \<^verbatim>\<open>raft.ILogDB\<close> are values; the two errors without a name of their own are
  \<open>ErrOther\<close>. The outer option is the panic of the database below.
\<close>

datatype log_error = ErrCompacted | ErrUnavailable | ErrSnapshotOutOfDate | ErrOther

record log_reader =
  lr_clusterID :: nat
  lr_nodeID :: nat
  lr_logdb :: db
  lr_state :: hard_state
  lr_snapshot :: raft_snapshot
  lr_markerIndex :: nat
  lr_markerTerm :: nat
  lr_length :: nat

definition NewLogReader :: "nat \<Rightarrow> nat \<Rightarrow> db \<Rightarrow> log_reader" where
  "NewLogReader clusterID nodeID logdb = \<lparr>lr_clusterID = clusterID, lr_nodeID = nodeID, lr_logdb = logdb,
     lr_state = emptyState, lr_snapshot = empty_snapshot, lr_markerIndex = 0, lr_markerTerm = 0, lr_length = 1\<rparr>"

definition NodeState :: "log_reader \<Rightarrow> hard_state \<times> membership" where
  "NodeState lr = (lr_state lr, ss_Membership (lr_snapshot lr))"

definition lr_firstIndex :: "log_reader \<Rightarrow> nat" where
  "lr_firstIndex lr = lr_markerIndex lr + 1"

definition lr_lastIndex :: "log_reader \<Rightarrow> nat" where
  "lr_lastIndex lr = lr_markerIndex lr + lr_length lr - 1"

definition GetRange :: "log_reader \<Rightarrow> nat \<times> nat" where
  "GetRange lr = (lr_firstIndex lr, lr_lastIndex lr)"

definition lr_Snapshot :: "log_reader \<Rightarrow> raft_snapshot" where
  "lr_Snapshot lr = lr_snapshot lr"

definition maxEntrySliceSize :: nat where
  "maxEntrySliceSize = 4 * 1024 * 1024"

definition entriesLocked :: "log_reader \<Rightarrow> nat \<Rightarrow> nat \<Rightarrow> nat \<Rightarrow> (log_error + entry list \<times> nat) option" where
  "entriesLocked lr low high maxSize =
     (if low > high then Some (Inl ErrOther)
      else if low \<le> lr_markerIndex lr then Some (Inl ErrCompacted)
      else if high > lr_lastIndex lr + 1 then Some (Inl ErrUnavailable)
      else
        (let maxEntries = maxEntrySliceSize div entry_struct_size;
             high' = (if high - low > maxEntries then low + maxEntries else high)
         in do { (ents, sz) \<leftarrow> iterateEntries (lr_logdb lr) [] 0 (lr_clusterID lr) (lr_nodeID lr) low high' maxSize;
                 Some (if length ents = high' - low \<or> sz > maxSize then Inr (ents, sz)
                       else if ents \<noteq> [] then
                         (if e_Index (hd ents) > low then Inl ErrCompacted
                          else if lr_lastIndex lr \<le> e_Index (last ents) + 1 then Inl ErrUnavailable
                          else Inl ErrOther)
                       else Inl ErrUnavailable) }))"

definition lr_Entries :: "log_reader \<Rightarrow> nat \<Rightarrow> nat \<Rightarrow> nat \<Rightarrow> (log_error + entry list) option" where
  "lr_Entries lr low high maxSize =
     do { r \<leftarrow> entriesLocked lr low high maxSize;
          Some (case r of
             Inl err \<Rightarrow> Inl err
           | Inr (ents, sz) \<Rightarrow>
               if maxSize > 0 \<and> sz > maxSize \<and> length ents > 1 then Inr (butlast ents)
               else if maxSize = 0 \<and> sz > maxSize \<and> length ents > 1 then Inr (take 1 ents)
               else Inr ents) }"

definition termLocked :: "log_reader \<Rightarrow> nat \<Rightarrow> (log_error + nat) option" where
  "termLocked lr index =
     (if index = lr_markerIndex lr then Some (Inr (lr_markerTerm lr))
      else
        do { r \<leftarrow> entriesLocked lr index (index + 1) 0;
             Some (case r of
                Inl err \<Rightarrow> Inl err
              | Inr (ents, _) \<Rightarrow> (case ents of [] \<Rightarrow> Inr 0 | e # _ \<Rightarrow> Inr (e_Term e))) })"

definition lr_Term :: "log_reader \<Rightarrow> nat \<Rightarrow> (log_error + nat) option" where
  "lr_Term lr index = termLocked lr index"

definition ApplySnapshot :: "log_reader \<Rightarrow> raft_snapshot \<Rightarrow> log_reader \<times> log_error option" where
  "ApplySnapshot lr ss =
     (if ss_Index (lr_snapshot lr) \<ge> ss_Index ss then (lr, Some ErrSnapshotOutOfDate)
      else (lr\<lparr>lr_snapshot := ss, lr_markerIndex := ss_Index ss, lr_markerTerm := ss_Term ss, lr_length := 1\<rparr>, None))"

definition CreateSnapshot :: "log_reader \<Rightarrow> raft_snapshot \<Rightarrow> log_reader \<times> log_error option" where
  "CreateSnapshot lr ss =
     (if ss_Index (lr_snapshot lr) \<ge> ss_Index ss then (lr, Some ErrSnapshotOutOfDate)
      else (lr\<lparr>lr_snapshot := ss\<rparr>, None))"

definition SetRange :: "log_reader \<Rightarrow> nat \<Rightarrow> nat \<Rightarrow> log_reader option" where
  "SetRange lr firstIndex len =
     (if len = 0 then Some lr
      else
        (let first = lr_firstIndex lr; lst = firstIndex + len - 1
         in if lst < first then Some lr
            else
              (let (firstIndex', len') =
                     (if first > firstIndex then (first, len - (first - firstIndex)) else (firstIndex, len));
                   offset = firstIndex' - lr_markerIndex lr
               in if lr_length lr > offset then Some (lr\<lparr>lr_length := offset + len'\<rparr>)
                  else if lr_length lr = offset then Some (lr\<lparr>lr_length := lr_length lr + len'\<rparr>)
                  else None)))"

definition lr_Append :: "log_reader \<Rightarrow> entry list \<Rightarrow> log_reader option" where
  "lr_Append lr ents =
     (if ents = [] then Some lr
      else if e_Index (hd ents) + length ents - 1 \<noteq> e_Index (last ents) then None
      else SetRange lr (e_Index (hd ents)) (length ents))"

definition SetState :: "log_reader \<Rightarrow> hard_state \<Rightarrow> log_reader" where
  "SetState lr s = lr\<lparr>lr_state := s\<rparr>"

definition Compact :: "log_reader \<Rightarrow> nat \<Rightarrow> (log_reader \<times> log_error option) option" where
  "Compact lr index =
     (if index < lr_markerIndex lr then Some (lr, Some ErrCompacted)
      else if index > lr_lastIndex lr then Some (lr, Some ErrUnavailable)
      else
        do { t \<leftarrow> termLocked lr index;
             Some (case t of
                Inl err \<Rightarrow> (lr, Some err)
              | Inr term \<Rightarrow>
                  (lr\<lparr>lr_length := lr_length lr - (index - lr_markerIndex lr), lr_markerIndex := index,
                     lr_markerTerm := term\<rparr>, None)) })"

lemma maxEntries_pos: "maxEntrySliceSize div entry_struct_size = 52428"
  by (simp add: maxEntrySliceSize_def entry_struct_size_def)

end
