(* ===== verification/Raft_Log.thy ===== *)
theory Raft_Log
  imports Log_Reader Rate_Limiter
begin

text \<open>
  The log of a Raft node: the in-memory part (\<^verbatim>\<open>internal/dragonboat/internal/raft/inmemory.go\<close>) over the
  persisted part, and the log as Raft sees it (\<^verbatim>\<open>logentry.go\<close>).

  The rate limiter is shared between the node and its in-memory log; the model keeps it in the latter.
  Whether a slice is reallocated (the flag \<^verbatim>\<open>shrunk\<close> and the \<^verbatim>\<open>resize\<close> functions) has no effect on the
  entries and is left out. An index out of range, like \<^verbatim>\<open>panic\<close>, is \<^const>\<open>None\<close>.
\<close>

text \<open>Subtracting one from a 64-bit number.\<close>

definition u64_pred :: "nat \<Rightarrow> nat" where
  "u64_pred n = (if n = 0 then 2 ^ 64 - 1 else n - 1)"

definition entry_at :: "entry list \<Rightarrow> nat \<Rightarrow> entry option" where
  "entry_at es i = (if i < length es then Some (es ! i) else None)"

definition guard :: "bool \<Rightarrow> unit option" where
  "guard b = (if b then Some () else None)"

subsection \<open>The in-memory log\<close>

record in_memory =
  im_snapshot :: "raft_snapshot option"
  im_entries :: "entry list"
  im_markerIndex :: nat
  im_appliedToIndex :: nat
  im_appliedToTerm :: nat
  im_savedTo :: nat
  im_rl :: "inmem_limiter option"

definition newInMemory :: "nat \<Rightarrow> inmem_limiter option \<Rightarrow> in_memory" where
  "newInMemory lastIndex rl = \<lparr>im_snapshot = None, im_entries = [], im_markerIndex = lastIndex + 1,
     im_appliedToIndex = 0, im_appliedToTerm = 0, im_savedTo = lastIndex, im_rl = rl\<rparr>"

definition rateLimited :: "in_memory \<Rightarrow> bool" where
  "rateLimited im = (case im_rl im of None \<Rightarrow> False | Some rl \<Rightarrow> il_Enabled rl)"

definition checkMarkerIndex :: "in_memory \<Rightarrow> unit option" where
  "checkMarkerIndex im = guard (im_entries im = [] \<or> e_Index (hd (im_entries im)) = im_markerIndex im)"

definition im_getEntries :: "in_memory \<Rightarrow> nat \<Rightarrow> nat \<Rightarrow> entry list option" where
  "im_getEntries im low high =
     (let upperBound = im_markerIndex im + length (im_entries im)
      in if low > high \<or> low < im_markerIndex im then None
         else if high > upperBound then None
         else Some (take (high - low) (drop (low - im_markerIndex im) (im_entries im))))"

definition getSnapshotIndex :: "in_memory \<Rightarrow> nat option" where
  "getSnapshotIndex im = map_option ss_Index (im_snapshot im)"

definition im_getLastIndex :: "in_memory \<Rightarrow> nat option" where
  "im_getLastIndex im =
     (if im_entries im \<noteq> [] then Some (e_Index (last (im_entries im))) else getSnapshotIndex im)"

text \<open>The outer option is a panic, the inner one the flag whether the term is known here.\<close>

definition im_getTerm :: "in_memory \<Rightarrow> nat \<Rightarrow> nat option option" where
  "im_getTerm im index =
     (if index > 0 \<and> index = im_appliedToIndex im then
        (if im_appliedToTerm im = 0 then None else Some (Some (im_appliedToTerm im)))
      else if index < im_markerIndex im then
        Some (case im_snapshot im of
           Some ss \<Rightarrow> if ss_Index ss = index then Some (ss_Term ss) else None
         | None \<Rightarrow> None)
      else
        (case im_getLastIndex im of
           Some lst \<Rightarrow>
             if index \<le> lst then map_option (\<lambda>e. Some (e_Term e)) (entry_at (im_entries im) (index - im_markerIndex im))
             else Some None
         | None \<Rightarrow> Some None))"

definition im_entriesToSave :: "in_memory \<Rightarrow> entry list" where
  "im_entriesToSave im =
     (let idx = im_savedTo im + 1
      in if idx < im_markerIndex im \<or> idx - im_markerIndex im > length (im_entries im) then []
         else drop (idx - im_markerIndex im) (im_entries im))"

definition savedLogTo :: "in_memory \<Rightarrow> nat \<Rightarrow> nat \<Rightarrow> in_memory option" where
  "savedLogTo im index tm =
     (if index < im_markerIndex im then Some im
      else if im_entries im = [] then Some im
      else if index > e_Index (last (im_entries im)) then Some im
      else
        do { e \<leftarrow> entry_at (im_entries im) (index - im_markerIndex im);
             Some (if tm \<noteq> e_Term e then im else im\<lparr>im_savedTo := index\<rparr>) })"

definition savedSnapshotTo :: "in_memory \<Rightarrow> nat \<Rightarrow> in_memory" where
  "savedSnapshotTo im index =
     (case getSnapshotIndex im of
        Some idx \<Rightarrow> if idx = index then im\<lparr>im_snapshot := None\<rparr> else im
      | None \<Rightarrow> im)"

definition im_commitUpdate :: "in_memory \<Rightarrow> update_commit \<Rightarrow> in_memory option" where
  "im_commitUpdate im cu =
     do { im1 \<leftarrow> (if uc_StableLogTo cu > 0 then savedLogTo im (uc_StableLogTo cu) (uc_StableLogTerm cu) else Some im);
          Some (if uc_StableSnapshotTo cu > 0 then savedSnapshotTo im1 (uc_StableSnapshotTo cu) else im1) }"

definition limit_by :: "(inmem_limiter \<Rightarrow> u64 \<Rightarrow> inmem_limiter) \<Rightarrow> entry list \<Rightarrow> in_memory \<Rightarrow> in_memory" where
  "limit_by f es im =
     (if rateLimited im
      then im\<lparr>im_rl := map_option (\<lambda>rl. f rl (of_nat (GetEntrySliceInMemSize es))) (im_rl im)\<rparr> else im)"

definition appliedLogTo :: "in_memory \<Rightarrow> nat \<Rightarrow> in_memory option" where
  "appliedLogTo im index =
     (if index < im_markerIndex im then Some im
      else if im_entries im = [] then Some im
      else if index > e_Index (last (im_entries im)) then Some im
      else
        do { e \<leftarrow> entry_at (im_entries im) (index - im_markerIndex im);
             guard (e_Index e = index);
             let n = index + 1 - im_markerIndex im;
             let applied = take n (im_entries im);
             let im1 = im\<lparr>im_appliedToIndex := e_Index e, im_appliedToTerm := e_Term e,
                           im_entries := drop n (im_entries im), im_markerIndex := index + 1\<rparr>;
             checkMarkerIndex im1;
             Some (limit_by il_Decrease applied im1) })"

definition merge :: "in_memory \<Rightarrow> entry list \<Rightarrow> in_memory option" where
  "merge im ents =
     (if ents = [] then None
      else
        (let firstNewIndex = e_Index (hd ents)
         in do { im1 \<leftarrow>
                   (if firstNewIndex = im_markerIndex im + length (im_entries im) then
                      do { checkEntriesToAppend (im_entries im) ents;
                           Some (limit_by il_Increase ents (im\<lparr>im_entries := im_entries im @ ents\<rparr>)) }
                    else if firstNewIndex \<le> im_markerIndex im then
                      Some (limit_by il_Set ents
                        (im\<lparr>im_markerIndex := firstNewIndex, im_entries := ents, im_savedTo := u64_pred firstNewIndex\<rparr>))
                    else
                      do { existing \<leftarrow> im_getEntries im (im_markerIndex im) firstNewIndex;
                           checkEntriesToAppend existing ents;
                           Some (limit_by il_Set (ents @ existing)
                             (im\<lparr>im_entries := existing @ ents,
                                 im_savedTo := min (im_savedTo im) (u64_pred firstNewIndex)\<rparr>)) });
                 checkMarkerIndex im1;
                 Some im1 }))"

definition im_restore :: "in_memory \<Rightarrow> raft_snapshot \<Rightarrow> in_memory" where
  "im_restore im ss =
     limit_by il_Set []
       (im\<lparr>im_snapshot := Some ss, im_markerIndex := ss_Index ss + 1, im_appliedToIndex := ss_Index ss,
          im_appliedToTerm := ss_Term ss, im_entries := [], im_savedTo := ss_Index ss\<rparr>)"

subsection \<open>The entry log\<close>

record entry_log =
  el_logdb :: log_reader
  el_inmem :: in_memory
  el_committed :: nat
  el_processed :: nat

definition newEntryLog :: "log_reader \<Rightarrow> inmem_limiter option \<Rightarrow> entry_log" where
  "newEntryLog logdb rl =
     (let (firstIndex, lastIndex) = GetRange logdb
      in \<lparr>el_logdb = logdb, el_inmem = newInMemory lastIndex rl,
          el_committed = firstIndex - 1, el_processed = firstIndex - 1\<rparr>)"

definition firstIndex :: "entry_log \<Rightarrow> nat" where
  "firstIndex l = (case getSnapshotIndex (el_inmem l) of Some i \<Rightarrow> i + 1 | None \<Rightarrow> fst (GetRange (el_logdb l)))"

definition lastIndex :: "entry_log \<Rightarrow> nat" where
  "lastIndex l = (case im_getLastIndex (el_inmem l) of Some i \<Rightarrow> i | None \<Rightarrow> snd (GetRange (el_logdb l)))"

definition termEntryRange :: "entry_log \<Rightarrow> nat \<times> nat" where
  "termEntryRange l = (firstIndex l - 1, lastIndex l)"

definition entryRange :: "entry_log \<Rightarrow> (nat \<times> nat) option" where
  "entryRange l =
     (if im_snapshot (el_inmem l) \<noteq> None \<and> im_entries (el_inmem l) = [] then None
      else Some (firstIndex l, lastIndex l))"

definition log_term :: "entry_log \<Rightarrow> nat \<Rightarrow> (log_error + nat) option" where
  "log_term l index =
     (let (first, lst) = termEntryRange l
      in if index < first \<or> index > lst then Some (Inr 0)
         else
           do { t \<leftarrow> im_getTerm (el_inmem l) index;
                (case t of
                   Some tm \<Rightarrow> Some (Inr tm)
                 | None \<Rightarrow>
                     do { r \<leftarrow> lr_Term (el_logdb l) index;
                          (case r of
                             Inr tm \<Rightarrow> Some (Inr tm)
                           | Inl err \<Rightarrow> if err \<noteq> ErrCompacted \<and> err \<noteq> ErrUnavailable then None else Some (Inl err)) }) })"

definition lastTerm :: "entry_log \<Rightarrow> nat option" where
  "lastTerm l =
     do { t \<leftarrow> log_term l (lastIndex l);
          (case t of Inl _ \<Rightarrow> None | Inr tm \<Rightarrow> Some tm) }"

definition checkBound :: "entry_log \<Rightarrow> nat \<Rightarrow> nat \<Rightarrow> log_error option option" where
  "checkBound l low high =
     (if low > high then None
      else
        (case entryRange l of
           None \<Rightarrow> Some (Some ErrCompacted)
         | Some (first, lst) \<Rightarrow>
             if low < first then Some (Some ErrCompacted)
             else if high > lst + 1 then None
             else Some None))"

definition getEntriesFromLogDB :: "entry_log \<Rightarrow> nat \<Rightarrow> nat \<Rightarrow> nat \<Rightarrow> (log_error + entry list \<times> bool) option" where
  "getEntriesFromLogDB l low high maxSize =
     (if low \<ge> im_markerIndex (el_inmem l) then Some (Inr ([], True))
      else
        (let upperBound = min high (im_markerIndex (el_inmem l))
         in do { r \<leftarrow> lr_Entries (el_logdb l) low upperBound maxSize;
                 (case r of
                    Inl err \<Rightarrow> if err = ErrCompacted then Some (Inl ErrCompacted) else None
                  | Inr ents \<Rightarrow>
                      if length ents > upperBound - low then None
                      else Some (Inr (ents, length ents = upperBound - low))) }))"

definition getEntriesFromInMem :: "entry_log \<Rightarrow> entry list \<Rightarrow> nat \<Rightarrow> nat \<Rightarrow> entry list option" where
  "getEntriesFromInMem l ents low high =
     (if high \<le> im_markerIndex (el_inmem l) then Some ents
      else
        do { inmem \<leftarrow> im_getEntries (el_inmem l) (max low (im_markerIndex (el_inmem l))) high;
             if inmem \<noteq> [] then
               (if ents \<noteq> [] then do { checkEntriesToAppend ents inmem; Some (ents @ inmem) } else Some inmem)
             else Some ents })"

definition getUncommittedEntries :: "entry_log \<Rightarrow> entry list option" where
  "getUncommittedEntries l =
     (let lst = im_markerIndex (el_inmem l) + length (im_entries (el_inmem l))
      in getEntriesFromInMem l [] (el_committed l + 1) lst)"

definition log_getEntries :: "entry_log \<Rightarrow> nat \<Rightarrow> nat \<Rightarrow> nat \<Rightarrow> (log_error + entry list) option" where
  "log_getEntries l low high maxSize =
     do { b \<leftarrow> checkBound l low high;
          (case b of
             Some err \<Rightarrow> Some (Inl err)
           | None \<Rightarrow>
               if low = high then Some (Inr [])
               else
                 do { r \<leftarrow> getEntriesFromLogDB l low high maxSize;
                      (case r of
                         Inl err \<Rightarrow> Some (Inl err)
                       | Inr (ents, checkInMem) \<Rightarrow>
                           if \<not> checkInMem then Some (Inr ents)
                           else do { es \<leftarrow> getEntriesFromInMem l ents low high; Some (Inr (limitSize es maxSize)) }) }) }"

definition log_entries :: "entry_log \<Rightarrow> nat \<Rightarrow> nat \<Rightarrow> (log_error + entry list) option" where
  "log_entries l start maxSize =
     (if start > lastIndex l then Some (Inr [])
      else log_getEntries l start (lastIndex l + 1) maxSize)"

definition log_snapshot :: "entry_log \<Rightarrow> raft_snapshot" where
  "log_snapshot l = (case im_snapshot (el_inmem l) of Some ss \<Rightarrow> ss | None \<Rightarrow> lr_Snapshot (el_logdb l))"

definition firstNotAppliedIndex :: "entry_log \<Rightarrow> nat" where
  "firstNotAppliedIndex l = max (el_processed l + 1) (firstIndex l)"

definition toApplyIndexLimit :: "entry_log \<Rightarrow> nat" where
  "toApplyIndexLimit l = el_committed l + 1"

definition hasEntriesToApply :: "entry_log \<Rightarrow> bool" where
  "hasEntriesToApply l = (toApplyIndexLimit l > firstNotAppliedIndex l)"

definition hasMoreEntriesToApply :: "entry_log \<Rightarrow> nat \<Rightarrow> bool" where
  "hasMoreEntriesToApply l appliedTo = (el_committed l > appliedTo)"

definition getEntriesToApply :: "entry_log \<Rightarrow> nat \<Rightarrow> entry list option" where
  "getEntriesToApply l limit =
     (if hasEntriesToApply l then
        do { r \<leftarrow> log_getEntries l (firstNotAppliedIndex l) (toApplyIndexLimit l) limit;
             (case r of Inl _ \<Rightarrow> None | Inr ents \<Rightarrow> Some ents) }
      else Some [])"

text \<open>The soft setting \<^verbatim>\<open>MaxEntrySize\<close> (64 MiB).\<close>

definition maxEntriesToApplySize :: nat where
  "maxEntriesToApplySize = 64 * 1024 * 1024"

definition entriesToApply :: "entry_log \<Rightarrow> entry list option" where
  "entriesToApply l = getEntriesToApply l maxEntriesToApplySize"

definition entriesToSave :: "entry_log \<Rightarrow> entry list" where
  "entriesToSave l = im_entriesToSave (el_inmem l)"

definition matchTerm :: "entry_log \<Rightarrow> nat \<Rightarrow> nat \<Rightarrow> bool option" where
  "matchTerm l index tm =
     do { r \<leftarrow> log_term l index;
          Some (case r of Inl _ \<Rightarrow> False | Inr lt \<Rightarrow> lt = tm) }"

fun getConflictIndex :: "entry_log \<Rightarrow> entry list \<Rightarrow> nat option" where
  "getConflictIndex l [] = Some 0"
| "getConflictIndex l (e # es) =
     do { m \<leftarrow> matchTerm l (e_Index e) (e_Term e);
          if \<not> m then Some (e_Index e) else getConflictIndex l es }"

definition log_append :: "entry_log \<Rightarrow> entry list \<Rightarrow> entry_log option" where
  "log_append l ents =
     (if ents = [] then Some l
      else if e_Index (hd ents) \<le> el_committed l then None
      else do { im \<leftarrow> merge (el_inmem l) ents; Some (l\<lparr>el_inmem := im\<rparr>) })"

definition tryAppend :: "entry_log \<Rightarrow> nat \<Rightarrow> entry list \<Rightarrow> (entry_log \<times> bool) option" where
  "tryAppend l index ents =
     do { conflictIndex \<leftarrow> getConflictIndex l ents;
          if conflictIndex \<noteq> 0 then
            (if conflictIndex \<le> el_committed l then None
             else if conflictIndex < index + 1 \<or> conflictIndex - index - 1 > length ents then None
             else do { l' \<leftarrow> log_append l (drop (conflictIndex - index - 1) ents); Some (l', True) })
          else Some (l, False) }"

definition commitTo :: "entry_log \<Rightarrow> nat \<Rightarrow> entry_log option" where
  "commitTo l index =
     (if index \<le> el_committed l then Some l
      else if index > lastIndex l then None
      else Some (l\<lparr>el_committed := index\<rparr>))"

definition log_commitUpdate :: "entry_log \<Rightarrow> update_commit \<Rightarrow> entry_log option" where
  "log_commitUpdate l cu =
     do { im \<leftarrow> im_commitUpdate (el_inmem l) cu;
          let l1 = l\<lparr>el_inmem := im\<rparr>;
          l2 \<leftarrow> (if uc_Processed cu > 0 then
                  (if uc_Processed cu < el_processed l1 \<or> uc_Processed cu > el_committed l1 then None
                   else Some (l1\<lparr>el_processed := uc_Processed cu\<rparr>))
                else Some l1);
          (if uc_LastApplied cu > 0 then
             (if uc_LastApplied cu > el_committed l2 then None
              else if uc_LastApplied cu > el_processed l2 then None
              else do { im2 \<leftarrow> appliedLogTo (el_inmem l2) (uc_LastApplied cu); Some (l2\<lparr>el_inmem := im2\<rparr>) })
           else Some l2) }"

definition upToDate :: "entry_log \<Rightarrow> nat \<Rightarrow> nat \<Rightarrow> bool option" where
  "upToDate l index tm =
     do { lt \<leftarrow> lastTerm l;
          Some (if tm \<ge> lt then (if tm > lt then True else index \<ge> lastIndex l) else False) }"

definition log_tryCommit :: "entry_log \<Rightarrow> nat \<Rightarrow> nat \<Rightarrow> (entry_log \<times> bool) option" where
  "log_tryCommit l index tm =
     (if index \<le> el_committed l then Some (l, False)
      else
        do { r \<leftarrow> log_term l index;
             lterm \<leftarrow> (case r of Inl err \<Rightarrow> if err = ErrCompacted then Some 0 else None | Inr t \<Rightarrow> Some t);
             if index > el_committed l \<and> lterm = tm
             then do { l' \<leftarrow> commitTo l index; Some (l', True) }
             else Some (l, False) })"

definition log_restore :: "entry_log \<Rightarrow> raft_snapshot \<Rightarrow> entry_log" where
  "log_restore l s = l\<lparr>el_inmem := im_restore (el_inmem l) s, el_committed := ss_Index s, el_processed := ss_Index s\<rparr>"

end
