(* ===== verification/Raft_Core.thy ===== *)
theory Raft_Core
  imports Raft_Log Raft_Remote Raft_ReadIndex
begin

text \<open>
  The state of a Raft node and the operations its message handlers are made of
  (\<^verbatim>\<open>internal/dragonboat/internal/raft/raft.go\<close>): membership, timers, sending, commit, the state
  transitions and elections. The handlers themselves are in the theory that follows.

  \<^item> Every operation maps a node to a node under an option: \<^const>\<open>None\<close> is a panic.
  \<^item> The rate limiter of the node is the one its in-memory log holds: one object in the source.
  \<^item> Go iterates over maps in an unspecified order; the model goes through the ids in ascending order,
    one of those the source may take. It fixes the order of the messages in \<open>rf_msgs\<close> and nothing else.
  \<^item> A pointer to a remote is its id together with the map that holds it.
  \<^item> The random source of \<^verbatim>\<open>setRandomizedElectionTimeout\<close> is a function of the state with a counter of the
    draws so far.
  \<^item> The calls of the event listener are recorded in \<open>rf_events\<close>, which is \<^const>\<open>None\<close> for a nil listener;
    the cluster and node ids they carry are the node's own.
  \<^item> Calls that only write to the program's log are left out, and so is \<^verbatim>\<open>hasNotAppliedConfigChange\<close>, a
    hook that only tests set.
\<close>

definition NoLeader :: nat where "NoLeader = 0"

definition NoNode :: nat where "NoNode = 0"

definition maxEntrySize :: nat where "maxEntrySize = 64 * 1024 * 1024"

datatype raft_role = Follower | Candidate | Leader | Observer | Witness

datatype raft_event =
    LeaderUpdated nat nat
  | CampaignLaunched nat
  | CampaignSkipped nat
  | SnapshotRejected nat nat nat
  | ReplicationRejected nat nat nat
  | ProposalDropped "entry list"
  | ReadIndexDropped

record leader_info =
  li_LeaderID :: nat
  li_Term :: nat

record raft =
  rf_applied :: nat
  rf_nodeID :: nat
  rf_clusterID :: nat
  rf_term :: nat
  rf_vote :: nat
  rf_log :: entry_log
  rf_remotes :: "(nat, remote) fmap"
  rf_observers :: "(nat, remote) fmap"
  rf_witnesses :: "(nat, remote) fmap"
  rf_state :: raft_role
  rf_votes :: "(nat, bool) fmap"
  rf_msgs :: "message list"
  rf_leaderID :: nat
  rf_leaderTransferTarget :: nat
  rf_isLeaderTransferTarget :: bool
  rf_pendingConfigChange :: bool
  rf_readIndex :: read_index
  rf_readyToRead :: "ready_to_read list"
  rf_droppedEntries :: "entry list"
  rf_droppedReadIndexes :: "system_ctx list"
  rf_quiesce :: bool
  rf_checkQuorum :: bool
  rf_snapshotting :: bool
  rf_tickCount :: nat
  rf_electionTick :: nat
  rf_heartbeatTick :: nat
  rf_heartbeatTimeout :: nat
  rf_electionTimeout :: nat
  rf_randomizedElectionTimeout :: nat
  rf_matched :: "nat list"
  rf_events :: "raft_event list option"
  rf_prevLeader :: leader_info
  rf_random :: "nat \<Rightarrow> nat"
  rf_draws :: nat

abbreviation committed :: "raft \<Rightarrow> nat" where
  "committed r \<equiv> el_committed (rf_log r)"

definition notify :: "raft_event \<Rightarrow> raft \<Rightarrow> raft" where
  "notify e r = r\<lparr>rf_events := map_option (\<lambda>es. es @ [e]) (rf_events r)\<rparr>"

definition rl_enabled :: "raft \<Rightarrow> bool" where
  "rl_enabled r = rateLimited (el_inmem (rf_log r))"

definition update_rl :: "(inmem_limiter \<Rightarrow> inmem_limiter) \<Rightarrow> raft \<Rightarrow> raft" where
  "update_rl f r = r\<lparr>rf_log := (rf_log r)\<lparr>el_inmem := (el_inmem (rf_log r))
     \<lparr>im_rl := map_option f (im_rl (el_inmem (rf_log r)))\<rparr>\<rparr>\<rparr>"

text \<open>A loop over the keys of a map whose body may panic.\<close>

fun foldo :: "('a \<Rightarrow> 's \<Rightarrow> 's option) \<Rightarrow> 'a list \<Rightarrow> 's \<Rightarrow> 's option" where
  "foldo f [] s = Some s"
| "foldo f (x # xs) s = Option.bind (f x s) (foldo f xs)"

abbreviation keys :: "(nat, 'v) fmap \<Rightarrow> nat list" where
  "keys m \<equiv> sorted_list_of_fset (fmdom m)"

subsection \<open>Small operations\<close>

definition setApplied :: "raft \<Rightarrow> nat \<Rightarrow> raft" where
  "setApplied r a = r\<lparr>rf_applied := a\<rparr>"

definition getApplied :: "raft \<Rightarrow> nat" where
  "getApplied r = rf_applied r"

definition numVotingMembers :: "raft \<Rightarrow> nat" where
  "numVotingMembers r = fcard (fmdom (rf_remotes r)) + fcard (fmdom (rf_witnesses r))"

definition resetMatchValueArray :: "raft \<Rightarrow> raft" where
  "resetMatchValueArray r = r\<lparr>rf_matched := replicate (numVotingMembers r) 0\<rparr>"

definition isCandidate :: "raft \<Rightarrow> bool" where
  "isCandidate r = (rf_state r = Candidate)"

definition isLeader :: "raft \<Rightarrow> bool" where
  "isLeader r = (rf_state r = Leader)"

definition isObserver :: "raft \<Rightarrow> bool" where
  "isObserver r = (rf_state r = Observer)"

definition isWitness :: "raft \<Rightarrow> bool" where
  "isWitness r = (rf_state r = Witness)"

definition mustBeLeader :: "raft \<Rightarrow> unit option" where
  "mustBeLeader r = guard (isLeader r)"

definition setLeaderID :: "raft \<Rightarrow> nat \<Rightarrow> raft" where
  "setLeaderID r leaderID =
     (let r1 = r\<lparr>rf_leaderID := leaderID\<rparr>
      in if rf_events r1 \<noteq> None \<and>
            ((rf_term r1 = 0 \<and> leaderID = NoLeader) \<or> leaderID \<noteq> li_LeaderID (rf_prevLeader r1) \<or>
             rf_term r1 \<noteq> li_Term (rf_prevLeader r1))
         then notify (LeaderUpdated leaderID (rf_term r1))
                (r1\<lparr>rf_prevLeader := \<lparr>li_LeaderID = leaderID, li_Term = rf_term r1\<rparr>\<rparr>)
         else r1)"

definition leaderTransfering :: "raft \<Rightarrow> bool" where
  "leaderTransfering r = (rf_leaderTransferTarget r \<noteq> NoNode \<and> isLeader r)"

definition abortLeaderTransfer :: "raft \<Rightarrow> raft" where
  "abortLeaderTransfer r = r\<lparr>rf_leaderTransferTarget := NoNode\<rparr>"

definition quorum :: "raft \<Rightarrow> nat" where
  "quorum r = numVotingMembers r div 2 + 1"

definition isSingleNodeQuorum :: "raft \<Rightarrow> bool" where
  "isSingleNodeQuorum r = (quorum r = 1)"

text \<open>Where both maps have an id the witness is the one that ends up in the merged map.\<close>

definition votingMembers :: "raft \<Rightarrow> (nat, remote) fmap" where
  "votingMembers r = rf_remotes r ++\<^sub>f rf_witnesses r"

definition nodes :: "raft \<Rightarrow> nat list" where
  "nodes r = keys (rf_remotes r) @ keys (rf_observers r) @ keys (rf_witnesses r)"

definition nodesSorted :: "raft \<Rightarrow> nat list" where
  "nodesSorted r = sort (nodes r)"

definition member_counts :: "raft \<Rightarrow> nat \<times> remote \<Rightarrow> bool" where
  "member_counts r m = (fst m = rf_nodeID r \<or> rm_active (snd m))"

text \<open>\<^verbatim>\<open>setNotActive\<close> runs on the objects the merged map points to: the witness where an id is in both.\<close>

definition leaderHasQuorum :: "raft \<Rightarrow> raft \<times> bool" where
  "leaderHasQuorum r =
     (let c = length (filter (member_counts r) (sorted_bindings (votingMembers r)));
          clr = (\<lambda>k m. if member_counts r (k, m) then setNotActive m else m);
          rs = fmmap_keys (\<lambda>k m. if k |\<in>| fmdom (rf_witnesses r) then m else clr k m) (rf_remotes r)
      in (r\<lparr>rf_remotes := rs, rf_witnesses := fmmap_keys clr (rf_witnesses r)\<rparr>, c \<ge> quorum r))"

definition raftState :: "raft \<Rightarrow> hard_state" where
  "raftState r = \<lparr>hs_Term = rf_term r, hs_Vote = rf_vote r, hs_Commit = committed r\<rparr>"

definition loadState :: "raft \<Rightarrow> hard_state \<Rightarrow> raft option" where
  "loadState r st =
     (if hs_Commit st < committed r \<or> hs_Commit st > lastIndex (rf_log r) then None
      else Some (r\<lparr>rf_log := (rf_log r)\<lparr>el_committed := hs_Commit st\<rparr>, rf_term := hs_Term st, rf_vote := hs_Vote st\<rparr>))"

record raft_status =
  st_NodeID :: nat
  st_ClusterID :: nat
  st_Applied :: nat
  st_LeaderID :: nat
  st_NodeState :: raft_role
  st_State :: hard_state

definition getLocalStatus :: "raft \<Rightarrow> raft_status" where
  "getLocalStatus r = \<lparr>st_NodeID = rf_nodeID r, st_ClusterID = rf_clusterID r,
     st_Applied = el_processed (rf_log r), st_LeaderID = rf_leaderID r, st_NodeState = rf_state r,
     st_State = raftState r\<rparr>"

definition setPendingConfigChange :: "raft \<Rightarrow> raft" where
  "setPendingConfigChange r = r\<lparr>rf_pendingConfigChange := True\<rparr>"

definition hasPendingConfigChange :: "raft \<Rightarrow> bool" where
  "hasPendingConfigChange r = rf_pendingConfigChange r"

definition clearPendingConfigChange :: "raft \<Rightarrow> raft" where
  "clearPendingConfigChange r = r\<lparr>rf_pendingConfigChange := False\<rparr>"

text \<open>The loop ends when a read past the last index comes back empty.\<close>

partial_function (option) pending_loop :: "entry_log \<Rightarrow> nat \<Rightarrow> nat \<Rightarrow> nat option" where
  [code]: "pending_loop l idx count =
     Option.bind (log_entries l idx maxEntriesToApplySize)
       (\<lambda>r. case r of
          Inl _ \<Rightarrow> None
        | Inr ents \<Rightarrow>
            if ents = [] then Some count
            else pending_loop l (e_Index (last ents) + 1) (count + countConfigChange ents))"

definition getPendingConfigChangeCount :: "raft \<Rightarrow> nat option" where
  "getPendingConfigChangeCount r = pending_loop (rf_log r) (committed r + 1) 0"

definition deleteRemote :: "nat \<Rightarrow> raft \<Rightarrow> raft" where
  "deleteRemote nodeID r = r\<lparr>rf_remotes := fmdrop nodeID (rf_remotes r)\<rparr>"

definition deleteObserver :: "nat \<Rightarrow> raft \<Rightarrow> raft" where
  "deleteObserver nodeID r = r\<lparr>rf_observers := fmdrop nodeID (rf_observers r)\<rparr>"

definition deleteWitness :: "nat \<Rightarrow> raft \<Rightarrow> raft" where
  "deleteWitness nodeID r = r\<lparr>rf_witnesses := fmdrop nodeID (rf_witnesses r)\<rparr>"

definition setRemote :: "raft \<Rightarrow> nat \<Rightarrow> nat \<Rightarrow> nat \<Rightarrow> raft" where
  "setRemote r nodeID match next = r\<lparr>rf_remotes := fmupd nodeID (new_remote match next) (rf_remotes r)\<rparr>"

definition setObserver :: "raft \<Rightarrow> nat \<Rightarrow> nat \<Rightarrow> nat \<Rightarrow> raft" where
  "setObserver r nodeID match next = r\<lparr>rf_observers := fmupd nodeID (new_remote match next) (rf_observers r)\<rparr>"

definition setWitness :: "raft \<Rightarrow> nat \<Rightarrow> nat \<Rightarrow> nat \<Rightarrow> raft" where
  "setWitness r nodeID match next = r\<lparr>rf_witnesses := fmupd nodeID (new_remote match next) (rf_witnesses r)\<rparr>"

definition selfRemoved :: "raft \<Rightarrow> bool" where
  "selfRemoved r =
     (if isObserver r then rf_nodeID r |\<notin>| fmdom (rf_observers r)
      else if isWitness r then rf_nodeID r |\<notin>| fmdom (rf_witnesses r)
      else rf_nodeID r |\<notin>| fmdom (rf_remotes r))"

text \<open>The remote a handler gets for an id: from the remotes, else the observers, else the witnesses.\<close>

definition get_remote :: "raft \<Rightarrow> nat \<Rightarrow> remote option" where
  "get_remote r i =
     (case fmlookup (rf_remotes r) i of
        Some rp \<Rightarrow> Some rp
      | None \<Rightarrow> (case fmlookup (rf_observers r) i of Some rp \<Rightarrow> Some rp | None \<Rightarrow> fmlookup (rf_witnesses r) i))"

definition set_remote :: "raft \<Rightarrow> nat \<Rightarrow> remote \<Rightarrow> raft" where
  "set_remote r i rp =
     (if i |\<in>| fmdom (rf_remotes r) then r\<lparr>rf_remotes := fmupd i rp (rf_remotes r)\<rparr>
      else if i |\<in>| fmdom (rf_observers r) then r\<lparr>rf_observers := fmupd i rp (rf_observers r)\<rparr>
      else r\<lparr>rf_witnesses := fmupd i rp (rf_witnesses r)\<rparr>)"

subsection \<open>Timers\<close>

definition timeForElection :: "raft \<Rightarrow> bool" where
  "timeForElection r = (rf_electionTick r \<ge> rf_randomizedElectionTimeout r)"

definition timeForHearbeat :: "raft \<Rightarrow> bool" where
  "timeForHearbeat r = (rf_heartbeatTick r \<ge> rf_heartbeatTimeout r)"

definition timeForCheckQuorum :: "raft \<Rightarrow> bool" where
  "timeForCheckQuorum r = (rf_electionTick r \<ge> rf_electionTimeout r)"

definition timeToAbortLeaderTransfer :: "raft \<Rightarrow> bool" where
  "timeToAbortLeaderTransfer r = (leaderTransfering r \<and> rf_electionTick r \<ge> rf_electionTimeout r)"

definition timeForRateLimitCheck :: "raft \<Rightarrow> bool" where
  "timeForRateLimitCheck r = (rf_tickCount r mod rf_electionTimeout r = 0)"

definition setRandomizedElectionTimeout :: "raft \<Rightarrow> raft" where
  "setRandomizedElectionTimeout r =
     (let randTime = rf_random r (rf_draws r) mod rf_electionTimeout r
      in r\<lparr>rf_randomizedElectionTimeout := rf_electionTimeout r + randTime, rf_draws := rf_draws r + 1\<rparr>)"

subsection \<open>Sending\<close>

definition isRequestMessage :: "message_type \<Rightarrow> bool" where
  "isRequestMessage t = (t = Propose \<or> t = ReadIndex \<or> t = LeaderTransfer)"

definition isLeaderMessage :: "message_type \<Rightarrow> bool" where
  "isLeaderMessage t = (t = Replicate \<or> t = InstallSnapshot \<or> t = Heartbeat \<or> t = TimeoutNow \<or> t = ReadIndexResp)"

definition finalizeMessageTerm :: "raft \<Rightarrow> message \<Rightarrow> message option" where
  "finalizeMessageTerm r m =
     (if m_Term m = 0 \<and> m_Type m = RequestVote then None
      else if m_Term m > 0 \<and> m_Type m \<noteq> RequestVote then None
      else if \<not> isRequestMessage (m_Type m) then Some (m\<lparr>m_Term := rf_term r\<rparr>)
      else Some m)"

definition send :: "raft \<Rightarrow> message \<Rightarrow> raft option" where
  "send r m =
     do { m' \<leftarrow> finalizeMessageTerm r (m\<lparr>m_From := rf_nodeID r\<rparr>);
          Some (r\<lparr>rf_msgs := rf_msgs r @ [m']\<rparr>) }"

text \<open>The two sizes are 64-bit numbers and their difference wraps: \<^verbatim>\<open>max(x, 0)\<close> of an unsigned \<open>x\<close> is \<open>x\<close>.\<close>

definition rate_limit_hint :: "inmem_limiter \<Rightarrow> entry list \<Rightarrow> nat" where
  "rate_limit_hint rl uncommitted = unat (max (il_Get rl - of_nat (GetEntrySliceSize uncommitted)) 0)"

definition sendRateLimitMessage :: "raft \<Rightarrow> raft option" where
  "sendRateLimitMessage r =
     (if isLeader r then None
      else if rf_leaderID r = NoLeader then Some r
      else
        (case im_rl (el_inmem (rf_log r)) of
           None \<Rightarrow> None
         | Some rl \<Rightarrow>
             if \<not> il_Enabled rl then Some r
             else
               (let (rl', limited) = RateLimited rl; r1 = update_rl (\<lambda>_. rl') r
                in do { mv \<leftarrow> (if limited
                               then do { ents \<leftarrow> getUncommittedEntries (rf_log r1); Some (rate_limit_hint rl' ents) }
                               else Some 0);
                        send r1 ((msg RateLimit)\<lparr>m_To := rf_leaderID r1, m_Hint := mv\<rparr>) })))"

definition makeWitnessSnapshot :: "raft_snapshot \<Rightarrow> raft_snapshot" where
  "makeWitnessSnapshot ss = ss\<lparr>ss_Filepath := [], ss_FileSize := 0, ss_Files := [], ss_Witness := True, ss_Dummy := False\<rparr>"

definition makeInstallSnapshotMessage :: "raft \<Rightarrow> nat \<Rightarrow> message option" where
  "makeInstallSnapshotMessage r to =
     (let ss = log_snapshot (rf_log r)
      in if IsEmptySnapshot ss then None
         else
           (let ss' = (if to |\<in>| fmdom (rf_witnesses r) then makeWitnessSnapshot ss else ss)
            in Some ((msg InstallSnapshot)\<lparr>m_To := to, m_Snapshot := ss'\<rparr>)))"

definition makeMetadataEntries :: "entry list \<Rightarrow> entry list" where
  "makeMetadataEntries = map (\<lambda>ent. if e_Type ent \<noteq> ConfigChangeEntry
     then empty_entry\<lparr>e_Type := MetadataEntry, e_Index := e_Index ent, e_Term := e_Term ent\<rparr> else ent)"

definition makeReplicateMessage :: "raft \<Rightarrow> nat \<Rightarrow> nat \<Rightarrow> nat \<Rightarrow> (log_error + message) option" where
  "makeReplicateMessage r to next maxSize =
     do { t \<leftarrow> log_term (rf_log r) (u64_pred next);
          (case t of
             Inl err \<Rightarrow> Some (Inl err)
           | Inr tm \<Rightarrow>
               do { es \<leftarrow> log_entries (rf_log r) next maxSize;
                    (case es of
                       Inl err \<Rightarrow> Some (Inl err)
                     | Inr entries \<Rightarrow>
                         if entries \<noteq> [] \<and> e_Index (last entries) \<noteq> next + length entries - 1 then None
                         else
                           (let entries' = (if to |\<in>| fmdom (rf_witnesses r) then makeMetadataEntries entries else entries)
                            in Some (Inr ((msg Replicate)\<lparr>m_To := to, m_LogIndex := u64_pred next, m_LogTerm := tm,
                                  m_Entries := entries', m_Commit := committed r\<rparr>)))) }) }"

definition sendReplicateMessage :: "raft \<Rightarrow> nat \<Rightarrow> raft option" where
  "sendReplicateMessage r to =
     do { rp \<leftarrow> get_remote r to;
          if isPaused rp then Some r
          else
            do { x \<leftarrow> makeReplicateMessage r to (rm_next rp) maxEntrySize;
                 (case x of
                    Inl err \<Rightarrow>
                      if \<not> rm_active rp then Some r
                      else
                        do { m \<leftarrow> makeInstallSnapshotMessage r to;
                             send (set_remote r to (becomeSnapshot rp (ss_Index (m_Snapshot m)))) m }
                  | Inr m \<Rightarrow>
                      if m_Entries m \<noteq> [] then
                        do { rp' \<leftarrow> progress rp (e_Index (last (m_Entries m))); send (set_remote r to rp') m }
                      else send r m) } }"

definition broadcastReplicateMessage :: "raft \<Rightarrow> raft option" where
  "broadcastReplicateMessage r =
     do { mustBeLeader r;
          guard (rf_nodeID r |\<notin>| fmdom (rf_observers r));
          foldo (\<lambda>nid s. if nid \<noteq> rf_nodeID s then sendReplicateMessage s nid else Some s) (nodes r) r }"

definition sendHeartbeatMessage :: "raft \<Rightarrow> nat \<Rightarrow> system_ctx \<Rightarrow> nat \<Rightarrow> raft option" where
  "sendHeartbeatMessage r to hint match =
     send r ((msg Heartbeat)\<lparr>m_To := to, m_Commit := min match (committed r), m_Hint := ctx_Low hint,
       m_HintHigh := ctx_High hint\<rparr>)"

definition zeroCtx :: system_ctx where
  "zeroCtx = \<lparr>ctx_Low = 0, ctx_High = 0\<rparr>"

definition broadcastHeartbeatMessageWithHint :: "raft \<Rightarrow> system_ctx \<Rightarrow> raft option" where
  "broadcastHeartbeatMessageWithHint r ctx =
     do { r1 \<leftarrow> foldo (\<lambda>(id, rm) s. if id \<noteq> rf_nodeID s then sendHeartbeatMessage s id ctx (rm_match rm) else Some s)
            (sorted_bindings (votingMembers r)) r;
          if ctx = zeroCtx
          then foldo (\<lambda>(id, rm) s. sendHeartbeatMessage s id zeroCtx (rm_match rm)) (sorted_bindings (rf_observers r1)) r1
          else Some r1 }"

definition broadcastHeartbeatMessage :: "raft \<Rightarrow> raft option" where
  "broadcastHeartbeatMessage r =
     do { mustBeLeader r;
          if hasPendingRequest (rf_readIndex r)
          then do { ctx \<leftarrow> peepCtx (rf_readIndex r); broadcastHeartbeatMessageWithHint r ctx }
          else broadcastHeartbeatMessageWithHint r zeroCtx }"

definition sendTimeoutNowMessage :: "raft \<Rightarrow> nat \<Rightarrow> raft option" where
  "sendTimeoutNowMessage r nodeID = send r ((msg TimeoutNow)\<lparr>m_To := nodeID\<rparr>)"

subsection \<open>Appending and committing\<close>

text \<open>The swap of two neighbours where they are out of order; the indexes are those of the call.\<close>

definition order_at :: "nat \<Rightarrow> nat list \<Rightarrow> nat list" where
  "order_at i xs = (if xs ! i > xs ! Suc i then xs[i := xs ! Suc i, Suc i := xs ! i] else xs)"

definition sortMatchValues :: "nat list \<Rightarrow> nat list" where
  "sortMatchValues xs =
     (if length xs = 3 then order_at 0 (order_at 1 (order_at 0 xs))
      else if length xs = 1 then xs
      else sort xs)"

definition match_values :: "raft \<Rightarrow> nat list" where
  "match_values r = map (rm_match \<circ> snd) (sorted_bindings (rf_remotes r)) @
     map (rm_match \<circ> snd) (sorted_bindings (rf_witnesses r))"

text \<open>The array is as long as there are voting members, so every slot of it is written.\<close>

definition tryCommit :: "raft \<Rightarrow> (raft \<times> bool) option" where
  "tryCommit r =
     do { mustBeLeader r;
          let r1 = r\<lparr>rf_matched := sortMatchValues (match_values r)\<rparr>;
          guard (quorum r1 \<le> numVotingMembers r1);
          let q = rf_matched r1 ! (numVotingMembers r1 - quorum r1);
          (l, ok) \<leftarrow> log_tryCommit (rf_log r1) q (rf_term r1);
          Some (r1\<lparr>rf_log := l\<rparr>, ok) }"

text \<open>The entries get the term of the node and the indexes after its last one.\<close>

definition number_entries :: "nat \<Rightarrow> nat \<Rightarrow> entry list \<Rightarrow> entry list" where
  "number_entries tm lst es = map (\<lambda>(i, e). e\<lparr>e_Term := tm, e_Index := lst + 1 + i\<rparr>) (List.enumerate 0 es)"

definition appendEntries :: "raft \<Rightarrow> entry list \<Rightarrow> raft option" where
  "appendEntries r entries =
     do { l \<leftarrow> log_append (rf_log r) (number_entries (rf_term r) (lastIndex (rf_log r)) entries);
          self \<leftarrow> fmlookup (rf_remotes r) (rf_nodeID r);
          let r1 = r\<lparr>rf_log := l, rf_remotes := fmupd (rf_nodeID r) (fst (tryUpdate self (lastIndex l))) (rf_remotes r)\<rparr>;
          if isSingleNodeQuorum r1 then map_option fst (tryCommit r1) else Some r1 }"

subsection \<open>State transitions\<close>

definition fresh_remote :: "raft \<Rightarrow> nat \<Rightarrow> remote" where
  "fresh_remote r i = new_remote (if i = rf_nodeID r then lastIndex (rf_log r) else 0) (lastIndex (rf_log r) + 1)"

definition resetRemotes :: "raft \<Rightarrow> raft" where
  "resetRemotes r = r\<lparr>rf_remotes := fmmap_keys (\<lambda>i _. fresh_remote r i) (rf_remotes r)\<rparr>"

definition resetObservers :: "raft \<Rightarrow> raft" where
  "resetObservers r = r\<lparr>rf_observers := fmmap_keys (\<lambda>i _. fresh_remote r i) (rf_observers r)\<rparr>"

definition resetWitnesses :: "raft \<Rightarrow> raft" where
  "resetWitnesses r = r\<lparr>rf_witnesses := fmmap_keys (\<lambda>i _. fresh_remote r i) (rf_witnesses r)\<rparr>"

definition reset :: "raft \<Rightarrow> nat \<Rightarrow> bool \<Rightarrow> raft" where
  "reset r tm resetElectionTimeout =
     (let r1 = (if rf_term r \<noteq> tm then r\<lparr>rf_term := tm, rf_vote := NoLeader\<rparr> else r);
          r2 = (if rl_enabled r1 then update_rl il_Reset r1 else r1);
          r3 = (if resetElectionTimeout then setRandomizedElectionTimeout (r2\<lparr>rf_electionTick := 0\<rparr>) else r2);
          r4 = r3\<lparr>rf_votes := fmempty, rf_heartbeatTick := 0, rf_readIndex := newReadIndex\<rparr>
      in resetMatchValueArray (resetWitnesses (resetObservers (resetRemotes
           (abortLeaderTransfer (clearPendingConfigChange r4))))))"

definition preLeaderPromotionHandleConfigChange :: "raft \<Rightarrow> raft option" where
  "preLeaderPromotionHandleConfigChange r =
     do { n \<leftarrow> getPendingConfigChangeCount r;
          if n > 1 then None else if n = 1 then Some (setPendingConfigChange r) else Some r }"

definition toFollowerState :: "raft \<Rightarrow> nat \<Rightarrow> nat \<Rightarrow> bool \<Rightarrow> raft option" where
  "toFollowerState r tm leaderID resetElectionTimeout =
     (if isWitness r then None
      else Some (setLeaderID (reset (r\<lparr>rf_state := Follower\<rparr>) tm resetElectionTimeout) leaderID))"

definition becomeObserver :: "raft \<Rightarrow> nat \<Rightarrow> nat \<Rightarrow> raft option" where
  "becomeObserver r tm leaderID =
     (if \<not> isObserver r then None
      else if isWitness r then None
      else Some (setLeaderID (reset r tm True) leaderID))"

definition becomeWitness :: "raft \<Rightarrow> nat \<Rightarrow> nat \<Rightarrow> raft option" where
  "becomeWitness r tm leaderID =
     (if \<not> isWitness r then None else Some (setLeaderID (reset r tm True) leaderID))"

definition becomeFollower :: "raft \<Rightarrow> nat \<Rightarrow> nat \<Rightarrow> raft option" where
  "becomeFollower r tm leaderID = toFollowerState r tm leaderID True"

definition becomeFollowerKE :: "raft \<Rightarrow> nat \<Rightarrow> nat \<Rightarrow> raft option" where
  "becomeFollowerKE r tm leaderID = toFollowerState r tm leaderID False"

definition becomeCandidate :: "raft \<Rightarrow> raft option" where
  "becomeCandidate r =
     (if isLeader r then None
      else if isObserver r then None
      else if isWitness r then None
      else
        (let r1 = setLeaderID (reset (r\<lparr>rf_state := Candidate\<rparr>) (rf_term r + 1) True) NoLeader
         in Some (r1\<lparr>rf_vote := rf_nodeID r1\<rparr>)))"

definition becomeLeader :: "raft \<Rightarrow> raft option" where
  "becomeLeader r =
     (if \<not> isLeader r \<and> \<not> isCandidate r then None
      else
        do { r1 \<leftarrow> preLeaderPromotionHandleConfigChange
               (setLeaderID (reset (r\<lparr>rf_state := Leader\<rparr>) (rf_term r) True) (rf_nodeID r));
             appendEntries r1 [empty_entry] })"

subsection \<open>Elections\<close>

definition granted :: "raft \<Rightarrow> nat" where
  "granted r = length (filter snd (sorted_bindings (rf_votes r)))"

definition handleVoteResp :: "raft \<Rightarrow> nat \<Rightarrow> bool \<Rightarrow> raft \<times> nat" where
  "handleVoteResp r from reject =
     (let r1 = (if from |\<notin>| fmdom (rf_votes r) then r\<lparr>rf_votes := fmupd from (\<not> reject) (rf_votes r)\<rparr> else r)
      in (r1, granted r1))"

text \<open>The body of the loop that asks the other voting members for their votes.\<close>

definition request_vote :: "nat \<Rightarrow> nat \<Rightarrow> nat \<Rightarrow> raft \<Rightarrow> raft option" where
  "request_vote tm hint k r =
     (if k = rf_nodeID r then Some r
      else
        do { lt \<leftarrow> lastTerm (rf_log r);
             send r ((msg RequestVote)\<lparr>m_Term := tm, m_To := k, m_LogIndex := lastIndex (rf_log r), m_LogTerm := lt,
               m_Hint := hint\<rparr>) })"

definition campaign :: "raft \<Rightarrow> raft option" where
  "campaign r =
     do { r1 \<leftarrow> becomeCandidate r;
          let tm = rf_term r1;
          let r2 = fst (handleVoteResp (notify (CampaignLaunched tm) r1) (rf_nodeID r1) False);
          if isSingleNodeQuorum r2 then becomeLeader r2
          else
            (let hint = (if rf_isLeaderTransferTarget r2 then rf_nodeID r2 else 0);
                 r3 = r2\<lparr>rf_isLeaderTransferTarget := False\<rparr>
             in foldo (request_vote tm hint) (keys (votingMembers r3)) r3) }"

subsection \<open>Membership\<close>

definition addNode :: "raft \<Rightarrow> nat \<Rightarrow> raft option" where
  "addNode r0 nodeID =
     (let r = clearPendingConfigChange r0
      in if nodeID = rf_nodeID r \<and> isWitness r then None
         else if nodeID |\<in>| fmdom (rf_remotes r) then Some r
         else
           (case fmlookup (rf_observers r) nodeID of
              Some rp \<Rightarrow>
                (let r1 = deleteObserver nodeID r; r2 = r1\<lparr>rf_remotes := fmupd nodeID rp (rf_remotes r1)\<rparr>
                 in if nodeID = rf_nodeID r2 then becomeFollower r2 (rf_term r2) (rf_leaderID r2) else Some r2)
            | None \<Rightarrow>
                if nodeID |\<in>| fmdom (rf_witnesses r) then None
                else Some (setRemote r nodeID 0 (lastIndex (rf_log r) + 1))))"

definition addObserver :: "raft \<Rightarrow> nat \<Rightarrow> raft option" where
  "addObserver r0 nodeID =
     (let r = clearPendingConfigChange r0
      in if nodeID = rf_nodeID r \<and> \<not> isObserver r then None
         else if nodeID |\<in>| fmdom (rf_observers r) then Some r
         else Some (setObserver r nodeID 0 (lastIndex (rf_log r) + 1)))"

definition addWitness :: "raft \<Rightarrow> nat \<Rightarrow> raft option" where
  "addWitness r0 nodeID =
     (let r = clearPendingConfigChange r0
      in if nodeID = rf_nodeID r \<and> \<not> isWitness r then None
         else if nodeID |\<in>| fmdom (rf_witnesses r) then Some r
         else Some (setWitness r nodeID 0 (lastIndex (rf_log r) + 1)))"

definition removeNode :: "raft \<Rightarrow> nat \<Rightarrow> raft option" where
  "removeNode r nodeID =
     (let r1 = clearPendingConfigChange (deleteWitness nodeID (deleteObserver nodeID (deleteRemote nodeID r)))
      in do { r2 \<leftarrow> (if rf_nodeID r1 = nodeID \<and> isLeader r1 then becomeFollower r1 (rf_term r1) NoLeader else Some r1);
              let r3 = (if leaderTransfering r2 \<and> rf_leaderTransferTarget r2 = nodeID then abortLeaderTransfer r2 else r2);
              if isLeader r3 \<and> numVotingMembers r3 > 0 then
                do { (r4, ok) \<leftarrow> tryCommit r3; if ok then broadcastReplicateMessage r4 else Some r4 }
              else Some r3 })"

subsection \<open>Restoring a snapshot\<close>

definition restore :: "raft \<Rightarrow> raft_snapshot \<Rightarrow> (raft \<times> bool) option" where
  "restore r ss =
     (if ss_Index ss \<le> committed r then Some (r, False)
      else if \<not> isObserver r \<and> rf_nodeID r |\<in>| fmdom (mb_Observers (ss_Membership ss)) then None
      else if \<not> isWitness r \<and> rf_nodeID r |\<in>| fmdom (mb_Witnesses (ss_Membership ss)) then None
      else
        do { m \<leftarrow> matchTerm (rf_log r) (ss_Index ss) (ss_Term ss);
             if m then do { l \<leftarrow> commitTo (rf_log r) (ss_Index ss); Some (r\<lparr>rf_log := l\<rparr>, False) }
             else Some (r\<lparr>rf_log := log_restore (rf_log r) ss\<rparr>, True) })"

definition restored_match :: "raft \<Rightarrow> nat \<Rightarrow> nat" where
  "restored_match r i = (if i = rf_nodeID r then lastIndex (rf_log r) else 0)"

definition restore_member :: "nat \<Rightarrow> raft \<Rightarrow> raft option" where
  "restore_member i r =
     do { r1 \<leftarrow> (if i = rf_nodeID r \<and> isObserver r then becomeFollower r (rf_term r) (rf_leaderID r) else Some r);
          guard (i |\<notin>| fmdom (rf_witnesses r1));
          Some (setRemote r1 i (restored_match r1 i) (lastIndex (rf_log r1) + 1)) }"

definition restoreRemotes :: "raft \<Rightarrow> raft_snapshot \<Rightarrow> raft option" where
  "restoreRemotes r ss =
     do { r1 \<leftarrow> foldo restore_member (keys (mb_Addresses (ss_Membership ss))) (r\<lparr>rf_remotes := fmempty\<rparr>);
          r2 \<leftarrow> (if selfRemoved r1 \<and> isLeader r1 then becomeFollower r1 (rf_term r1) NoLeader else Some r1);
          let r3 = fold (\<lambda>i s. setObserver s i (restored_match s i) (lastIndex (rf_log s) + 1))
                     (keys (mb_Observers (ss_Membership ss))) (r2\<lparr>rf_observers := fmempty\<rparr>);
          let r4 = fold (\<lambda>i s. setWitness s i (restored_match s i) (lastIndex (rf_log s) + 1))
                     (keys (mb_Witnesses (ss_Membership ss))) (r3\<lparr>rf_witnesses := fmempty\<rparr>);
          Some (resetMatchValueArray r4) }"

subsection \<open>Configuration and the initial state\<close>

text \<open>The configuration of a node (\<^verbatim>\<open>internal/dragonboat/config/config.go\<close>); a compression type is its number.\<close>

record raft_config =
  cf_NodeID :: nat
  cf_ClusterID :: nat
  cf_CheckQuorum :: bool
  cf_ElectionRTT :: nat
  cf_HeartbeatRTT :: nat
  cf_SnapshotEntries :: nat
  cf_CompactionOverhead :: nat
  cf_OrderedConfigChange :: bool
  cf_MaxInMemLogSize :: nat
  cf_SnapshotCompressionType :: nat
  cf_EntryCompressionType :: nat
  cf_DisableAutoCompactions :: bool
  cf_IsObserver :: bool
  cf_IsWitness :: bool
  cf_Quiesce :: bool

definition Snappy :: nat where "Snappy = 1"

definition NoCompression :: nat where "NoCompression = 0"

text \<open>The products are 64-bit; true is a nil error.\<close>

definition config_Validate :: "raft_config \<Rightarrow> bool" where
  "config_Validate c =
     (if cf_NodeID c = 0 then False
      else if cf_HeartbeatRTT c = 0 then False
      else if cf_ElectionRTT c = 0 then False
      else if cf_ElectionRTT c \<le> 2 * cf_HeartbeatRTT c mod 2 ^ 64 then False
      else if cf_MaxInMemLogSize c > 0 \<and> cf_MaxInMemLogSize c < EntryNonCmdFieldsSize + 1 then False
      else if cf_SnapshotCompressionType c \<noteq> Snappy \<and> cf_SnapshotCompressionType c \<noteq> NoCompression then False
      else if cf_EntryCompressionType c \<noteq> Snappy \<and> cf_EntryCompressionType c \<noteq> NoCompression then False
      else if cf_IsWitness c \<and> cf_SnapshotEntries c > 0 then False
      else if cf_IsWitness c \<and> cf_IsObserver c then False
      else True)"

definition raft_zero :: "raft_config \<Rightarrow> log_reader \<Rightarrow> (nat \<Rightarrow> nat) \<Rightarrow> raft" where
  "raft_zero c logdb rnd =
     \<lparr>rf_applied = 0, rf_nodeID = cf_NodeID c, rf_clusterID = cf_ClusterID c, rf_term = 0, rf_vote = 0,
      rf_log = newEntryLog logdb (Some (NewInMemRateLimiter (of_nat (cf_MaxInMemLogSize c)))),
      rf_remotes = fmempty, rf_observers = fmempty, rf_witnesses = fmempty, rf_state = Follower,
      rf_votes = fmempty, rf_msgs = [], rf_leaderID = NoLeader, rf_leaderTransferTarget = 0,
      rf_isLeaderTransferTarget = False, rf_pendingConfigChange = False, rf_readIndex = newReadIndex,
      rf_readyToRead = [], rf_droppedEntries = [], rf_droppedReadIndexes = [], rf_quiesce = False,
      rf_checkQuorum = cf_CheckQuorum c, rf_snapshotting = False, rf_tickCount = 0, rf_electionTick = 0,
      rf_heartbeatTick = 0, rf_heartbeatTimeout = cf_HeartbeatRTT c, rf_electionTimeout = cf_ElectionRTT c,
      rf_randomizedElectionTimeout = 0, rf_matched = [], rf_events = None,
      rf_prevLeader = \<lparr>li_LeaderID = 0, li_Term = 0\<rparr>, rf_random = rnd, rf_draws = 0\<rparr>"

end
