(* ===== verification/Raft_Handlers.thy ===== *)
theory Raft_Handlers
  imports Raft_Core
begin

text \<open>
  The message handlers of a Raft node, the table that selects them by role and message type, the check of
  terms that comes first, and the logical clock (\<^verbatim>\<open>internal/dragonboat/internal/raft/raft.go\<close>).

  In the source \<^verbatim>\<open>Handle\<close> and \<^verbatim>\<open>tick\<close> call each other: a tick handles the messages Election, CheckQuorum,
  LeaderHeartbeat and SnapshotStatus, and the messages LocalTick and TimeoutNow tick. None of the former
  ticks, so the model has two layers: \<open>Handle0\<close> is \<^verbatim>\<open>Handle\<close> on messages that do not tick, the
  clock is written with it, and \<open>Handle\<close> adds the two handlers that use the clock.
\<close>

type_synonym handler = "raft \<Rightarrow> message \<Rightarrow> raft option"

subsection \<open>Dropped requests\<close>

definition msg_ctx :: "message \<Rightarrow> system_ctx" where
  "msg_ctx m = \<lparr>ctx_Low = m_Hint m, ctx_High = m_HintHigh m\<rparr>"

definition reportDroppedConfigChange :: "raft \<Rightarrow> entry \<Rightarrow> raft" where
  "reportDroppedConfigChange r e = r\<lparr>rf_droppedEntries := rf_droppedEntries r @ [e]\<rparr>"

definition reportDroppedProposal :: "raft \<Rightarrow> message \<Rightarrow> raft" where
  "reportDroppedProposal r m =
     notify (ProposalDropped (m_Entries m)) (r\<lparr>rf_droppedEntries := rf_droppedEntries r @ m_Entries m\<rparr>)"

definition reportDroppedReadIndex :: "raft \<Rightarrow> message \<Rightarrow> raft" where
  "reportDroppedReadIndex r m =
     notify ReadIndexDropped (r\<lparr>rf_droppedReadIndexes := rf_droppedReadIndexes r @ [msg_ctx m]\<rparr>)"

definition clearReadyToRead :: "raft \<Rightarrow> raft" where
  "clearReadyToRead r = r\<lparr>rf_readyToRead := []\<rparr>"

definition addReadyToRead :: "raft \<Rightarrow> nat \<Rightarrow> system_ctx \<Rightarrow> raft" where
  "addReadyToRead r index ctx = r\<lparr>rf_readyToRead := rf_readyToRead r @ [\<lparr>rr_Index = index, rr_SystemCtx = ctx\<rparr>]\<rparr>"

subsection \<open>Messages from a leader\<close>

definition handleHeartbeatMessage :: handler where
  "handleHeartbeatMessage r m =
     do { l \<leftarrow> commitTo (rf_log r) (m_Commit m);
          send (r\<lparr>rf_log := l\<rparr>) ((msg HeartbeatResp)\<lparr>m_To := m_From m, m_Hint := m_Hint m, m_HintHigh := m_HintHigh m\<rparr>) }"

definition handleInstallSnapshotMessage :: handler where
  "handleInstallSnapshotMessage r m =
     do { (r1, ok) \<leftarrow> restore r (m_Snapshot m);
          let resp = (msg ReplicateResp)\<lparr>m_To := m_From m\<rparr>;
          if ok then send r1 (resp\<lparr>m_LogIndex := lastIndex (rf_log r1)\<rparr>)
          else send (notify (SnapshotRejected (ss_Index (m_Snapshot m)) (ss_Term (m_Snapshot m)) (m_From m)) r1)
                 (resp\<lparr>m_LogIndex := committed r1\<rparr>) }"

definition handleReplicateMessage :: handler where
  "handleReplicateMessage r m =
     (let resp = (msg ReplicateResp)\<lparr>m_To := m_From m\<rparr>
      in if m_LogIndex m < committed r then send r (resp\<lparr>m_LogIndex := committed r\<rparr>)
         else
           do { ok \<leftarrow> matchTerm (rf_log r) (m_LogIndex m) (m_LogTerm m);
                if ok then
                  do { (l1, _) \<leftarrow> tryAppend (rf_log r) (m_LogIndex m) (m_Entries m);
                       let lastIdx = m_LogIndex m + length (m_Entries m);
                       l2 \<leftarrow> commitTo l1 (min lastIdx (m_Commit m));
                       send (r\<lparr>rf_log := l2\<rparr>) (resp\<lparr>m_LogIndex := lastIdx\<rparr>) }
                else send (notify (ReplicationRejected (m_LogIndex m) (m_LogTerm m) (m_From m)) r)
                       (resp\<lparr>m_Reject := True, m_LogIndex := m_LogIndex m, m_Hint := lastIndex (rf_log r)\<rparr>) })"

subsection \<open>Handlers of every role\<close>

definition hasConfigChangeToApply :: "raft \<Rightarrow> bool" where
  "hasConfigChangeToApply r = (committed r > getApplied r)"

definition canGrantVote :: "raft \<Rightarrow> message \<Rightarrow> bool" where
  "canGrantVote r m = (rf_vote r = NoNode \<or> rf_vote r = m_From m \<or> m_Term m > rf_term r)"

definition handleNodeElection :: handler where
  "handleNodeElection r m =
     (if \<not> isLeader r then
        (if hasConfigChangeToApply r then Some (notify (CampaignSkipped (rf_term r)) r) else campaign r)
      else Some r)"

definition handleNodeRequestVote :: handler where
  "handleNodeRequestVote r m =
     do { let resp = (msg RequestVoteResp)\<lparr>m_To := m_From m\<rparr>;
          let canGrant = canGrantVote r m;
          isUpToDate \<leftarrow> upToDate (rf_log r) (m_LogIndex m) (m_LogTerm m);
          if canGrant \<and> isUpToDate then send (r\<lparr>rf_electionTick := 0, rf_vote := m_From m\<rparr>) resp
          else send r (resp\<lparr>m_Reject := True\<rparr>) }"

datatype config_change_type = AddNode | RemoveNode | AddObserver | AddWitness

definition cc_type :: "nat \<Rightarrow> config_change_type option" where
  "cc_type n = (if n = 0 then Some AddNode else if n = 1 then Some RemoveNode else if n = 2 then Some AddObserver
     else if n = 3 then Some AddWitness else None)"

text \<open>\<^verbatim>\<open>ConfigChangeType\<close> is a 32-bit integer: the conversion keeps the low 32 bits of \<^verbatim>\<open>HintHigh\<close>.\<close>

definition handleNodeConfigChange :: handler where
  "handleNodeConfigChange r m =
     (if m_Reject m then Some (clearPendingConfigChange r)
      else
        (case cc_type (m_HintHigh m mod 2 ^ 32) of
           Some AddNode \<Rightarrow> addNode r (m_Hint m)
         | Some RemoveNode \<Rightarrow> removeNode r (m_Hint m)
         | Some AddObserver \<Rightarrow> addObserver r (m_Hint m)
         | Some AddWitness \<Rightarrow> addWitness r (m_Hint m)
         | None \<Rightarrow> None))"

definition handleRestoreRemote :: handler where
  "handleRestoreRemote r m = restoreRemotes r (m_Snapshot m)"

subsection \<open>Handlers of a leader\<close>

definition handleLeaderHeartbeat :: handler where
  "handleLeaderHeartbeat r m = broadcastHeartbeatMessage r"

definition handleLeaderCheckQuorum :: handler where
  "handleLeaderCheckQuorum r m =
     do { mustBeLeader r;
          let (r1, ok) = leaderHasQuorum r;
          if \<not> ok then becomeFollower r1 (rf_term r1) NoLeader else Some r1 }"

text \<open>The loop over the proposed entries: a second configuration change is dropped and replaced by an empty entry.\<close>

fun screen_config_changes :: "raft \<Rightarrow> entry list \<Rightarrow> raft \<times> entry list" where
  "screen_config_changes r [] = (r, [])"
| "screen_config_changes r (e # es) =
     (if e_Type e = ConfigChangeEntry then
        (let (r1, e1) = (if hasPendingConfigChange r then (reportDroppedConfigChange r e, empty_entry) else (r, e));
             (r2, es2) = screen_config_changes (setPendingConfigChange r1) es
         in (r2, e1 # es2))
      else (let (r2, es2) = screen_config_changes r es in (r2, e # es2)))"

definition handleLeaderPropose :: handler where
  "handleLeaderPropose r m =
     do { mustBeLeader r;
          if leaderTransfering r then Some (reportDroppedProposal r m)
          else
            (let (r1, ents) = screen_config_changes r (m_Entries m)
             in do { r2 \<leftarrow> appendEntries r1 ents; broadcastReplicateMessage r2 }) }"

definition hasCommittedEntryAtCurrentTerm :: "raft \<Rightarrow> bool option" where
  "hasCommittedEntryAtCurrentTerm r =
     (if rf_term r = 0 then None
      else
        do { t \<leftarrow> log_term (rf_log r) (committed r);
             (case t of
                Inl err \<Rightarrow> if err \<noteq> ErrCompacted then None else Some (0 = rf_term r)
              | Inr lastCommittedTerm \<Rightarrow> Some (lastCommittedTerm = rf_term r)) })"

definition handleLeaderReadIndex :: handler where
  "handleLeaderReadIndex r m =
     do { mustBeLeader r;
          let ctx = msg_ctx m;
          if m_From m |\<in>| fmdom (rf_witnesses r) then Some r
          else if \<not> isSingleNodeQuorum r then
            do { ready \<leftarrow> hasCommittedEntryAtCurrentTerm r;
                 if \<not> ready then Some (reportDroppedReadIndex r m)
                 else
                   do { ri \<leftarrow> addRequest (rf_readIndex r) (committed r) ctx (m_From m);
                        broadcastHeartbeatMessageWithHint (r\<lparr>rf_readIndex := ri\<rparr>) ctx } }
          else
            (let r1 = addReadyToRead r (committed r) ctx
             in if m_From m \<noteq> rf_nodeID r1 \<and> m_From m |\<in>| fmdom (rf_observers r1)
                then send r1 ((msg ReadIndexResp)\<lparr>m_To := m_From m, m_LogIndex := committed r1, m_Hint := m_Hint m,
                       m_HintHigh := m_HintHigh m, m_Commit := m_Commit m\<rparr>)
                else Some r1) }"

definition enterRetryState :: "remote \<Rightarrow> remote" where
  "enterRetryState rp = (if rm_state rp = RemoteReplicate then becomeRetry rp else rp)"

text \<open>
  The handlers \<^verbatim>\<open>lw\<close> wraps get the remote of the sender; here they read and write it by the sender's id.
\<close>

definition handleLeaderReplicateResp :: "raft \<Rightarrow> message \<Rightarrow> remote \<Rightarrow> raft option" where
  "handleLeaderReplicateResp r m rp0 =
     do { mustBeLeader r;
          let rp = setActive rp0;
          if \<not> m_Reject m then
            (let paused = isPaused rp; (rp1, updated) = tryUpdate rp (m_LogIndex m)
             in if updated then
                  do { (r2, ok) \<leftarrow> tryCommit (set_remote r (m_From m) (respondedTo rp1));
                       r3 \<leftarrow> (if ok then broadcastReplicateMessage r2
                              else if paused then sendReplicateMessage r2 (m_From m)
                              else Some r2);
                       rp3 \<leftarrow> get_remote r3 (m_From m);
                       if leaderTransfering r3 \<and> m_From m = rf_leaderTransferTarget r3 \<and>
                          lastIndex (rf_log r3) = rm_match rp3
                       then sendTimeoutNowMessage r3 (rf_leaderTransferTarget r3)
                       else Some r3 }
                else Some (set_remote r (m_From m) rp1))
          else
            (let (rp1, decreased) = decreaseTo rp (m_LogIndex m) (m_Hint m)
             in if decreased then sendReplicateMessage (set_remote r (m_From m) (enterRetryState rp1)) (m_From m)
                else Some (set_remote r (m_From m) rp1)) }"

definition answer_read :: "message \<Rightarrow> read_status \<Rightarrow> raft \<Rightarrow> raft option" where
  "answer_read m s r =
     (if rs_from s = NoNode \<or> rs_from s = rf_nodeID r then Some (addReadyToRead r (rs_index s) (rs_ctx s))
      else send r ((msg ReadIndexResp)\<lparr>m_To := rs_from s, m_LogIndex := rs_index s, m_Hint := m_Hint m,
             m_HintHigh := m_HintHigh m\<rparr>))"

definition handleReadIndexLeaderConfirmation :: handler where
  "handleReadIndexLeaderConfirmation r m =
     do { (ri, ris) \<leftarrow> confirm (rf_readIndex r) (msg_ctx m) (m_From m) (quorum r);
          foldo (answer_read m) ris (r\<lparr>rf_readIndex := ri\<rparr>) }"

definition handleLeaderHeartbeatResp :: "raft \<Rightarrow> message \<Rightarrow> remote \<Rightarrow> raft option" where
  "handleLeaderHeartbeatResp r m rp0 =
     do { mustBeLeader r;
          let rp = waitToRetry (setActive rp0);
          let r1 = set_remote r (m_From m) rp;
          r2 \<leftarrow> (if rm_match rp < lastIndex (rf_log r1) then sendReplicateMessage r1 (m_From m) else Some r1);
          if m_Hint m \<noteq> 0 then handleReadIndexLeaderConfirmation r2 m else Some r2 }"

definition handleLeaderTransfer :: handler where
  "handleLeaderTransfer r m =
     do { mustBeLeader r;
          let target = m_Hint m;
          guard (target \<noteq> NoNode);
          if leaderTransfering r then Some r
          else if rf_nodeID r = target then Some r
          else
            (case fmlookup (rf_remotes r) target of
               None \<Rightarrow> Some r
             | Some rp \<Rightarrow>
                 (let r1 = r\<lparr>rf_leaderTransferTarget := target, rf_electionTick := 0\<rparr>
                  in if rm_match rp = lastIndex (rf_log r1) then sendTimeoutNowMessage r1 target else Some r1)) }"

definition handleLeaderSnapshotStatus :: "raft \<Rightarrow> message \<Rightarrow> remote \<Rightarrow> raft option" where
  "handleLeaderSnapshotStatus r m rp =
     (if rm_state rp \<noteq> RemoteSnapshot then Some r
      else if m_Hint m = 0 then
        Some (set_remote r (m_From m) (becomeWait (if m_Reject m then clearPendingSnapshot rp else rp)))
      else
        do { rp' \<leftarrow> setSnapshotAck rp (m_Hint m) (m_Reject m);
             Some ((set_remote r (m_From m) rp')\<lparr>rf_snapshotting := True\<rparr>) })"

definition handleLeaderUnreachable :: "raft \<Rightarrow> message \<Rightarrow> remote \<Rightarrow> raft option" where
  "handleLeaderUnreachable r m rp = Some (set_remote r (m_From m) (enterRetryState rp))"

definition handleLeaderRateLimit :: handler where
  "handleLeaderRateLimit r m =
     Some (if rl_enabled r then update_rl (\<lambda>rl. SetFollowerState rl (m_From m) (of_nat (m_Hint m))) r else r)"

definition lw :: "(raft \<Rightarrow> message \<Rightarrow> remote \<Rightarrow> raft option) \<Rightarrow> handler" where
  "lw f r m = (case get_remote r (m_From m) of Some rp \<Rightarrow> f r m rp | None \<Rightarrow> Some r)"

subsection \<open>Handlers of a follower, and of observers and witnesses\<close>

definition leaderIsAvailable :: "raft \<Rightarrow> raft" where
  "leaderIsAvailable r = r\<lparr>rf_electionTick := 0\<rparr>"

definition handleFollowerPropose :: handler where
  "handleFollowerPropose r m =
     (if rf_leaderID r = NoLeader then Some (reportDroppedProposal r m) else send r (m\<lparr>m_To := rf_leaderID r\<rparr>))"

definition handleFollowerReplicate :: handler where
  "handleFollowerReplicate r m = handleReplicateMessage (setLeaderID (leaderIsAvailable r) (m_From m)) m"

definition handleFollowerHeartbeat :: handler where
  "handleFollowerHeartbeat r m = handleHeartbeatMessage (setLeaderID (leaderIsAvailable r) (m_From m)) m"

definition handleFollowerReadIndex :: handler where
  "handleFollowerReadIndex r m =
     (if rf_leaderID r = NoLeader then Some (reportDroppedReadIndex r m) else send r (m\<lparr>m_To := rf_leaderID r\<rparr>))"

definition handleFollowerLeaderTransfer :: handler where
  "handleFollowerLeaderTransfer r m =
     (if rf_leaderID r = NoLeader then Some r else send r (m\<lparr>m_To := rf_leaderID r\<rparr>))"

definition handleFollowerReadIndexResp :: handler where
  "handleFollowerReadIndexResp r m =
     Some (addReadyToRead (setLeaderID (leaderIsAvailable r) (m_From m)) (m_LogIndex m) (msg_ctx m))"

definition handleFollowerInstallSnapshot :: handler where
  "handleFollowerInstallSnapshot r m = handleInstallSnapshotMessage (setLeaderID (leaderIsAvailable r) (m_From m)) m"

definition handleObserverReplicate :: handler where
  "handleObserverReplicate r m = handleFollowerReplicate r m"

definition handleObserverHeartbeat :: handler where
  "handleObserverHeartbeat r m = handleFollowerHeartbeat r m"

definition handleObserverSnapshot :: handler where
  "handleObserverSnapshot r m = handleFollowerInstallSnapshot r m"

definition handleObserverPropose :: handler where
  "handleObserverPropose r m = handleFollowerPropose r m"

definition handleObserverReadIndex :: handler where
  "handleObserverReadIndex r m = handleFollowerReadIndex r m"

definition handleObserverReadIndexResp :: handler where
  "handleObserverReadIndexResp r m = handleFollowerReadIndexResp r m"

definition handleWitnessReplicate :: handler where
  "handleWitnessReplicate r m = handleFollowerReplicate r m"

definition handleWitnessHeartbeat :: handler where
  "handleWitnessHeartbeat r m = handleFollowerHeartbeat r m"

definition handleWitnessSnapshot :: handler where
  "handleWitnessSnapshot r m = handleFollowerInstallSnapshot r m"

subsection \<open>Handlers of a candidate\<close>

definition handleCandidatePropose :: handler where
  "handleCandidatePropose r m = Some (reportDroppedProposal r m)"

definition handleCandidateReadIndex :: handler where
  "handleCandidateReadIndex r m =
     (let r1 = reportDroppedReadIndex r m
      in Some (r1\<lparr>rf_droppedReadIndexes := rf_droppedReadIndexes r1 @ [msg_ctx m]\<rparr>))"

definition handleCandidateReplicate :: handler where
  "handleCandidateReplicate r m =
     do { r1 \<leftarrow> becomeFollower r (rf_term r) (m_From m); handleReplicateMessage r1 m }"

definition handleCandidateInstallSnapshot :: handler where
  "handleCandidateInstallSnapshot r m =
     do { r1 \<leftarrow> becomeFollower r (rf_term r) (m_From m); handleInstallSnapshotMessage r1 m }"

definition handleCandidateHeartbeat :: handler where
  "handleCandidateHeartbeat r m =
     do { r1 \<leftarrow> becomeFollower r (rf_term r) (m_From m); handleHeartbeatMessage r1 m }"

text \<open>The subtraction is between Go \<^verbatim>\<open>int\<close>s and never negative: no more votes are granted than recorded.\<close>

definition handleCandidateRequestVoteResp :: handler where
  "handleCandidateRequestVoteResp r m =
     (if m_From m |\<in>| fmdom (rf_observers r) then Some r
      else
        (let (r1, count) = handleVoteResp r (m_From m) (m_Reject m)
         in if count = quorum r1 then do { r2 \<leftarrow> becomeLeader r1; broadcastReplicateMessage r2 }
            else if fcard (fmdom (rf_votes r1)) - count = quorum r1 then becomeFollower r1 (rf_term r1) NoLeader
            else Some r1))"

subsection \<open>The check of terms\<close>

definition dropRequestVoteFromHighTermNode :: "raft \<Rightarrow> message \<Rightarrow> bool option" where
  "dropRequestVoteFromHighTermNode r m =
     (if m_Type m \<noteq> RequestVote \<or> \<not> rf_checkQuorum r \<or> m_Term m \<le> rf_term r then Some False
      else if m_Hint m = m_From m then Some False
      else if isLeader r \<and> \<not> rf_quiesce r \<and> rf_electionTick r \<ge> rf_electionTimeout r then None
      else if rf_leaderID r \<noteq> NoLeader \<and> rf_electionTick r < rf_electionTimeout r then Some True
      else Some False)"

definition step_down :: "raft \<Rightarrow> message \<Rightarrow> raft option" where
  "step_down r m =
     (let leaderID = (if isLeaderMessage (m_Type m) then m_From m else NoLeader)
      in if isObserver r then becomeObserver r (m_Term m) leaderID
         else if isWitness r then becomeWitness r (m_Term m) leaderID
         else if m_Type m = RequestVote then becomeFollowerKE r (m_Term m) leaderID
         else becomeFollower r (m_Term m) leaderID)"

definition onMessageTermNotMatched :: "raft \<Rightarrow> message \<Rightarrow> (raft \<times> bool) option" where
  "onMessageTermNotMatched r m =
     (if m_Term m = 0 \<or> m_Term m = rf_term r then Some (r, False)
      else
        do { drp \<leftarrow> dropRequestVoteFromHighTermNode r m;
             if drp then Some (r, True)
             else if m_Term m > rf_term r then do { r1 \<leftarrow> step_down r m; Some (r1, False) }
             else if isLeaderMessage (m_Type m) \<and> rf_checkQuorum r then
               do { r1 \<leftarrow> send r ((msg NoOP)\<lparr>m_To := m_From m\<rparr>); Some (r1, True) }
             else Some (r, True) })"

definition doubleCheckTermMatched :: "raft \<Rightarrow> nat \<Rightarrow> unit option" where
  "doubleCheckTermMatched r msgTerm = guard (msgTerm = 0 \<or> rf_term r = msgTerm)"

text \<open>\<^verbatim>\<open>Handle\<close> over a table of handlers; \<^verbatim>\<open>defaultHandle\<close> ignores a message without an entry.\<close>

definition defaultHandle :: "(raft_role \<Rightarrow> message_type \<Rightarrow> handler option) \<Rightarrow> handler" where
  "defaultHandle tbl r m = (case tbl (rf_state r) (m_Type m) of Some f \<Rightarrow> f r m | None \<Rightarrow> Some r)"

definition Handle_with :: "(raft_role \<Rightarrow> message_type \<Rightarrow> handler option) \<Rightarrow> handler" where
  "Handle_with tbl r m =
     do { (r1, drp) \<leftarrow> onMessageTermNotMatched r m;
          if \<not> drp then do { doubleCheckTermMatched r1 (m_Term m); defaultHandle tbl r1 m }
          else Some r1 }"

subsection \<open>The table of handlers\<close>

definition handlers0 :: "raft_role \<Rightarrow> message_type \<Rightarrow> handler option" where
  "handlers0 st t =
     (case st of
        Candidate \<Rightarrow>
          (case t of
             Heartbeat \<Rightarrow> Some handleCandidateHeartbeat
           | Propose \<Rightarrow> Some handleCandidatePropose
           | ReadIndex \<Rightarrow> Some handleCandidateReadIndex
           | Replicate \<Rightarrow> Some handleCandidateReplicate
           | InstallSnapshot \<Rightarrow> Some handleCandidateInstallSnapshot
           | RequestVoteResp \<Rightarrow> Some handleCandidateRequestVoteResp
           | Election \<Rightarrow> Some handleNodeElection
           | RequestVote \<Rightarrow> Some handleNodeRequestVote
           | ConfigChangeEvent \<Rightarrow> Some handleNodeConfigChange
           | SnapshotReceived \<Rightarrow> Some handleRestoreRemote
           | _ \<Rightarrow> None)
      | Follower \<Rightarrow>
          (case t of
             Propose \<Rightarrow> Some handleFollowerPropose
           | Replicate \<Rightarrow> Some handleFollowerReplicate
           | Heartbeat \<Rightarrow> Some handleFollowerHeartbeat
           | ReadIndex \<Rightarrow> Some handleFollowerReadIndex
           | LeaderTransfer \<Rightarrow> Some handleFollowerLeaderTransfer
           | ReadIndexResp \<Rightarrow> Some handleFollowerReadIndexResp
           | InstallSnapshot \<Rightarrow> Some handleFollowerInstallSnapshot
           | Election \<Rightarrow> Some handleNodeElection
           | RequestVote \<Rightarrow> Some handleNodeRequestVote
           | ConfigChangeEvent \<Rightarrow> Some handleNodeConfigChange
           | SnapshotReceived \<Rightarrow> Some handleRestoreRemote
           | _ \<Rightarrow> None)
      | Leader \<Rightarrow>
          (case t of
             LeaderHeartbeat \<Rightarrow> Some handleLeaderHeartbeat
           | CheckQuorum \<Rightarrow> Some handleLeaderCheckQuorum
           | Propose \<Rightarrow> Some handleLeaderPropose
           | ReadIndex \<Rightarrow> Some handleLeaderReadIndex
           | ReplicateResp \<Rightarrow> Some (lw handleLeaderReplicateResp)
           | HeartbeatResp \<Rightarrow> Some (lw handleLeaderHeartbeatResp)
           | SnapshotStatus \<Rightarrow> Some (lw handleLeaderSnapshotStatus)
           | Unreachable \<Rightarrow> Some (lw handleLeaderUnreachable)
           | LeaderTransfer \<Rightarrow> Some handleLeaderTransfer
           | Election \<Rightarrow> Some handleNodeElection
           | RequestVote \<Rightarrow> Some handleNodeRequestVote
           | ConfigChangeEvent \<Rightarrow> Some handleNodeConfigChange
           | SnapshotReceived \<Rightarrow> Some handleRestoreRemote
           | RateLimit \<Rightarrow> Some handleLeaderRateLimit
           | _ \<Rightarrow> None)
      | Observer \<Rightarrow>
          (case t of
             Heartbeat \<Rightarrow> Some handleObserverHeartbeat
           | Replicate \<Rightarrow> Some handleObserverReplicate
           | InstallSnapshot \<Rightarrow> Some handleObserverSnapshot
           | Propose \<Rightarrow> Some handleObserverPropose
           | ReadIndex \<Rightarrow> Some handleObserverReadIndex
           | ReadIndexResp \<Rightarrow> Some handleObserverReadIndexResp
           | ConfigChangeEvent \<Rightarrow> Some handleNodeConfigChange
           | SnapshotReceived \<Rightarrow> Some handleRestoreRemote
           | _ \<Rightarrow> None)
      | Witness \<Rightarrow>
          (case t of
             Heartbeat \<Rightarrow> Some handleWitnessHeartbeat
           | Replicate \<Rightarrow> Some handleWitnessReplicate
           | InstallSnapshot \<Rightarrow> Some handleWitnessSnapshot
           | RequestVote \<Rightarrow> Some handleNodeRequestVote
           | ConfigChangeEvent \<Rightarrow> Some handleNodeConfigChange
           | SnapshotReceived \<Rightarrow> Some handleRestoreRemote
           | _ \<Rightarrow> None))"

definition Handle0 :: handler where
  "Handle0 = Handle_with handlers0"

subsection \<open>The clock\<close>

definition quiescedTick :: "raft \<Rightarrow> raft" where
  "quiescedTick r =
     (let r1 = (if \<not> rf_quiesce r then r\<lparr>rf_quiesce := True\<rparr> else r)
      in r1\<lparr>rf_electionTick := rf_electionTick r1 + 1\<rparr>)"

datatype member_map = InRemotes | InObservers | InWitnesses

fun map_of_kind :: "member_map \<Rightarrow> raft \<Rightarrow> (nat, remote) fmap" where
  "map_of_kind InRemotes r = rf_remotes r"
| "map_of_kind InObservers r = rf_observers r"
| "map_of_kind InWitnesses r = rf_witnesses r"

fun set_of_kind :: "member_map \<Rightarrow> nat \<Rightarrow> remote \<Rightarrow> raft \<Rightarrow> raft" where
  "set_of_kind InRemotes i rp r = r\<lparr>rf_remotes := fmupd i rp (rf_remotes r)\<rparr>"
| "set_of_kind InObservers i rp r = r\<lparr>rf_observers := fmupd i rp (rf_observers r)\<rparr>"
| "set_of_kind InWitnesses i rp r = r\<lparr>rf_witnesses := fmupd i rp (rf_witnesses r)\<rparr>"

definition check_ack :: "member_map \<Rightarrow> nat \<Rightarrow> raft \<Rightarrow> raft option" where
  "check_ack k from r =
     do { rp \<leftarrow> fmlookup (map_of_kind k r) from;
          if rm_state rp = RemoteSnapshot then
            (let (a, due) = ack_tick (rm_delayed rp); r1 = set_of_kind k from (rp\<lparr>rm_delayed := a\<rparr>) r
             in if due then
                  do { r2 \<leftarrow> Handle0 r1 ((msg SnapshotStatus)\<lparr>m_From := from, m_Reject := rejected a, m_Hint := 0\<rparr>);
                       rp2 \<leftarrow> fmlookup (map_of_kind k r2) from;
                       Some (set_of_kind k from (clearSnapshotAck rp2) r2) }
                else Some (r1\<lparr>rf_snapshotting := True\<rparr>))
          else Some r }"

definition checkPendingSnapshotAck :: "raft \<Rightarrow> raft option" where
  "checkPendingSnapshotAck r =
     (if isLeader r \<and> rf_snapshotting r then
        do { r1 \<leftarrow> foldo (check_ack InRemotes) (keys (rf_remotes r)) (r\<lparr>rf_snapshotting := False\<rparr>);
             r2 \<leftarrow> foldo (check_ack InObservers) (keys (rf_observers r1)) r1;
             foldo (check_ack InWitnesses) (keys (rf_witnesses r2)) r2 }
      else Some r)"

definition nonLeaderTick :: "raft \<Rightarrow> raft option" where
  "nonLeaderTick r =
     (if isLeader r then None
      else
        do { let r1 = r\<lparr>rf_electionTick := rf_electionTick r + 1\<rparr>;
             r2 \<leftarrow> (if timeForRateLimitCheck r1 \<and> rl_enabled r1 then sendRateLimitMessage (update_rl il_Tick r1) else Some r1);
             if isObserver r2 \<or> isWitness r2 then Some r2
             else if \<not> selfRemoved r2 \<and> timeForElection r2
             then Handle0 (r2\<lparr>rf_electionTick := 0\<rparr>) ((msg Election)\<lparr>m_From := rf_nodeID r2\<rparr>)
             else Some r2 })"

definition leaderTick :: "raft \<Rightarrow> raft option" where
  "leaderTick r =
     do { mustBeLeader r;
          let r1 = r\<lparr>rf_electionTick := rf_electionTick r + 1\<rparr>;
          let r2 = (if timeForRateLimitCheck r1 \<and> rl_enabled r1 then update_rl il_Tick r1 else r1);
          let abrt = timeToAbortLeaderTransfer r2;
          r3 \<leftarrow> (if timeForCheckQuorum r2 then
                   (let r' = r2\<lparr>rf_electionTick := 0\<rparr>
                    in if rf_checkQuorum r' then Handle0 r' ((msg CheckQuorum)\<lparr>m_From := rf_nodeID r'\<rparr>) else Some r')
                 else Some r2);
          let r4 = (if abrt then abortLeaderTransfer r3 else r3);
          let r5 = r4\<lparr>rf_heartbeatTick := rf_heartbeatTick r4 + 1\<rparr>;
          r6 \<leftarrow> (if timeForHearbeat r5
                 then Handle0 (r5\<lparr>rf_heartbeatTick := 0\<rparr>) ((msg LeaderHeartbeat)\<lparr>m_From := rf_nodeID r5\<rparr>)
                 else Some r5);
          checkPendingSnapshotAck r6 }"

text \<open>\<^verbatim>\<open>timeForInMemGC\<close> only decides when a slice is reallocated.\<close>

definition raft_tick :: "raft \<Rightarrow> raft option" where
  "raft_tick r =
     (let r1 = r\<lparr>rf_quiesce := False, rf_tickCount := rf_tickCount r + 1\<rparr>
      in if isLeader r1 then leaderTick r1 else nonLeaderTick r1)"

definition handleLocalTick :: handler where
  "handleLocalTick r m = (if m_Reject m then Some (quiescedTick r) else raft_tick r)"

definition handleFollowerTimeoutNow :: handler where
  "handleFollowerTimeoutNow r m =
     do { r1 \<leftarrow> raft_tick (r\<lparr>rf_electionTick := rf_randomizedElectionTimeout r, rf_isLeaderTransferTarget := True\<rparr>);
          Some (r1\<lparr>rf_isLeaderTransferTarget := False\<rparr>) }"

definition handlers :: "raft_role \<Rightarrow> message_type \<Rightarrow> handler option" where
  "handlers st t =
     (if t = LocalTick then Some handleLocalTick
      else if st = Follower \<and> t = TimeoutNow then Some handleFollowerTimeoutNow
      else handlers0 st t)"

definition Handle :: handler where
  "Handle = Handle_with handlers"

subsection \<open>Creating a node\<close>

text \<open>The combinations of role and message type that must have no handler.\<close>

definition unhandled :: "(raft_role \<times> message_type) list" where
  "unhandled =
     [(Leader, Heartbeat), (Leader, Replicate), (Leader, InstallSnapshot), (Leader, ReadIndexResp),
      (Follower, ReplicateResp), (Follower, HeartbeatResp), (Follower, SnapshotStatus), (Follower, Unreachable),
      (Candidate, ReplicateResp), (Candidate, HeartbeatResp), (Candidate, SnapshotStatus), (Candidate, Unreachable),
      (Observer, Election), (Observer, RequestVote), (Observer, RequestVoteResp), (Observer, ReplicateResp),
      (Observer, HeartbeatResp),
      (Witness, Election), (Witness, Propose), (Witness, ReadIndex), (Witness, ReadIndexResp),
      (Witness, RequestVoteResp), (Witness, ReplicateResp), (Witness, HeartbeatResp)]"

definition checkHandlerMap :: bool where
  "checkHandlerMap = list_all (\<lambda>(st, t). Option.is_none (handlers st t)) unhandled"

text \<open>
  The source fills and checks the table last; the table does not depend on the node, and the order of two
  panics is not observable.
\<close>

definition newRaft :: "raft_config \<Rightarrow> log_reader \<Rightarrow> (nat \<Rightarrow> nat) \<Rightarrow> raft option" where
  "newRaft c logdb rnd =
     do { guard (config_Validate c);
          let (st, members) = NodeState logdb;
          let r = resetMatchValueArray ((raft_zero c logdb rnd)
            \<lparr>rf_remotes := fmmap (\<lambda>_. new_remote 0 1) (mb_Addresses members),
             rf_observers := fmmap (\<lambda>_. new_remote 0 1) (mb_Observers members),
             rf_witnesses := fmmap (\<lambda>_. new_remote 0 1) (mb_Witnesses members)\<rparr>);
          r1 \<leftarrow> (if \<not> IsEmptyState st then loadState r st else Some r);
          guard checkHandlerMap;
          if cf_IsObserver c then becomeObserver (r1\<lparr>rf_state := Observer\<rparr>) (rf_term r1) NoLeader
          else if cf_IsWitness c then becomeWitness (r1\<lparr>rf_state := Witness\<rparr>) (rf_term r1) NoLeader
          else becomeFollower r1 (rf_term r1) NoLeader }"

end
