(* ===== verification/Raft_Frame.thy ===== *)
theory Raft_Frame
  imports Raft_Handlers
begin

text \<open>
  What the operations of a Raft node leave alone. A \<^emph>\<open>quiet\<close> step keeps the node's identity, term, vote,
  role, recorded votes and members, does not lower the commit index, and only sends messages that neither are
  part of an election nor change the members. Most of the protocol is made of quiet steps; the rest are the state transitions, whose
  effect is spelled out here.
\<close>

definition members :: "raft \<Rightarrow> nat fset \<times> nat fset \<times> nat fset" where
  "members r = (fmdom (rf_remotes r), fmdom (rf_observers r), fmdom (rf_witnesses r))"

definition standing :: "raft \<Rightarrow> nat \<times> nat \<times> nat \<times> raft_role \<times> (nat, bool) fmap" where
  "standing r = (rf_nodeID r, rf_term r, rf_vote r, rf_state r, rf_votes r)"

definition reserved_message :: "message \<Rightarrow> bool" where
  "reserved_message m = (m_Type m \<in> {RequestVote, RequestVoteResp, ConfigChangeEvent, SnapshotReceived})"

definition quiet :: "raft \<Rightarrow> raft \<Rightarrow> bool" where
  "quiet r r' \<longleftrightarrow> standing r' = standing r \<and> members r' = members r \<and> committed r \<le> committed r' \<and>
     (\<exists>ms. rf_msgs r' = rf_msgs r @ ms \<and> (\<forall>m \<in> set ms. m_From m = rf_nodeID r \<and> \<not> reserved_message m))"

named_theorems quiet_steps \<open>operations that are quiet\<close>

lemma quiet_refl [simp, intro]: "quiet r r"
  by (simp add: quiet_def)

lemma quiet_trans [trans]: "quiet a b \<Longrightarrow> quiet b c \<Longrightarrow> quiet a c"
  by (auto simp: quiet_def standing_def)

lemma quietI:
  assumes "standing r' = standing r" and "members r' = members r" and "el_committed (rf_log r) \<le> el_committed (rf_log r')"
    and "rf_msgs r' = rf_msgs r"
  shows "quiet r r'"
  using assms by (simp add: quiet_def)

lemmas quiet_fields = quietI [unfolded standing_def members_def]

lemma foldo_quiet:
  assumes "foldo f xs r = Some r'" and "\<And>x s s'. f x s = Some s' \<Longrightarrow> quiet s s'"
  shows "quiet r r'"
  using assms(1)
proof (induction xs arbitrary: r)
  case (Cons x xs)
  then obtain s where "f x r = Some s" "foldo f xs s = Some r'" by (auto simp: bind_eq_Some_conv)
  with Cons.IH assms(2) show ?case by (blast intro: quiet_trans)
qed simp

lemma foldo_inv:
  assumes "foldo f xs r = Some r'" and "P r" and "\<And>x s s'. x \<in> set xs \<Longrightarrow> f x s = Some s' \<Longrightarrow> P s \<Longrightarrow> P s'"
  shows "P r'"
  using assms
proof (induction xs arbitrary: r)
  case (Cons x xs)
  then obtain s where "f x r = Some s" "foldo f xs s = Some r'" by (auto simp: bind_eq_Some_conv)
  with Cons show ?case by (meson list.set_intros)
qed simp

lemma bind_SomeE:
  assumes "Option.bind x f = Some y" obtains a where "x = Some a" and "f a = Some y"
  using assms by (auto simp: bind_eq_Some_conv)

lemma guard_Some [simp]: "guard b = Some u \<longleftrightarrow> b"
  by (cases u) (simp add: guard_def)

lemma guard_bind [simp]: "Option.bind (guard b) f = Some x \<longleftrightarrow> b \<and> f () = Some x"
  by (auto simp: guard_def)

lemma mustBeLeader_bind [simp]: "Option.bind (mustBeLeader r) f = Some x \<longleftrightarrow> isLeader r \<and> f () = Some x"
  by (simp add: mustBeLeader_def)

subsection \<open>The log\<close>

lemma commitTo_committed: "commitTo l i = Some l' \<Longrightarrow> el_committed l \<le> el_committed l'"
  by (auto simp: commitTo_def split: if_splits)

lemma log_append_committed: "log_append l es = Some l' \<Longrightarrow> el_committed l' = el_committed l"
  by (auto simp: log_append_def bind_eq_Some_conv split: if_splits)

lemma tryAppend_committed: "tryAppend l i es = Some (l', b) \<Longrightarrow> el_committed l' = el_committed l"
  by (auto simp: tryAppend_def log_append_committed bind_eq_Some_conv split: if_splits)

lemma log_tryCommit_committed: "log_tryCommit l i tm = Some (l', b) \<Longrightarrow> el_committed l \<le> el_committed l'"
  by (auto simp: log_tryCommit_def bind_eq_Some_conv split: if_splits sum.splits dest: commitTo_committed)

subsection \<open>Small operations\<close>

lemma notify_sel [simp]:
  "rf_nodeID (notify e r) = rf_nodeID r" "rf_term (notify e r) = rf_term r" "rf_vote (notify e r) = rf_vote r"
  "rf_state (notify e r) = rf_state r" "rf_votes (notify e r) = rf_votes r" "rf_log (notify e r) = rf_log r"
  "rf_msgs (notify e r) = rf_msgs r" "rf_remotes (notify e r) = rf_remotes r"
  "rf_observers (notify e r) = rf_observers r" "rf_witnesses (notify e r) = rf_witnesses r"
  by (simp_all add: notify_def)

lemma update_rl_sel [simp]:
  "rf_nodeID (update_rl f r) = rf_nodeID r" "rf_term (update_rl f r) = rf_term r" "rf_vote (update_rl f r) = rf_vote r"
  "rf_state (update_rl f r) = rf_state r" "rf_votes (update_rl f r) = rf_votes r"
  "el_committed (rf_log (update_rl f r)) = el_committed (rf_log r)"
  "rf_msgs (update_rl f r) = rf_msgs r" "rf_remotes (update_rl f r) = rf_remotes r"
  "rf_observers (update_rl f r) = rf_observers r" "rf_witnesses (update_rl f r) = rf_witnesses r"
  by (simp_all add: update_rl_def)

lemma setLeaderID_sel [simp]:
  "rf_nodeID (setLeaderID r i) = rf_nodeID r" "rf_term (setLeaderID r i) = rf_term r" "rf_vote (setLeaderID r i) = rf_vote r"
  "rf_state (setLeaderID r i) = rf_state r" "rf_votes (setLeaderID r i) = rf_votes r" "rf_log (setLeaderID r i) = rf_log r"
  "rf_msgs (setLeaderID r i) = rf_msgs r" "rf_remotes (setLeaderID r i) = rf_remotes r"
  "rf_observers (setLeaderID r i) = rf_observers r" "rf_witnesses (setLeaderID r i) = rf_witnesses r"
  by (simp_all add: setLeaderID_def Let_def)

lemma set_remote_sel [simp]:
  "rf_nodeID (set_remote r i rp) = rf_nodeID r" "rf_term (set_remote r i rp) = rf_term r"
  "rf_vote (set_remote r i rp) = rf_vote r" "rf_state (set_remote r i rp) = rf_state r"
  "rf_votes (set_remote r i rp) = rf_votes r" "rf_log (set_remote r i rp) = rf_log r"
  "rf_msgs (set_remote r i rp) = rf_msgs r"
  by (simp_all add: set_remote_def)

lemma fmdom_fmupd_in [simp]: "k |\<in>| fmdom m \<Longrightarrow> fmdom (fmupd k v m) = fmdom m"
  by auto

lemma set_remote_members: "get_remote r i = Some rp0 \<Longrightarrow> members (set_remote r i rp) = members r"
  by (auto simp: set_remote_def members_def get_remote_def split: option.splits)

lemma set_remote_quiet [quiet_steps]: "get_remote r i = Some rp0 \<Longrightarrow> quiet r (set_remote r i rp)"
  by (rule quietI) (simp_all add: set_remote_members standing_def)

lemma notify_quiet [quiet_steps]: "quiet r (notify e r)"
  by (rule quietI) (simp_all add: standing_def members_def)

lemma update_rl_quiet [quiet_steps]: "quiet r (update_rl f r)"
  by (rule quietI) (simp_all add: standing_def members_def)

lemma setLeaderID_quiet [quiet_steps]: "quiet r (setLeaderID r i)"
  by (rule quietI) (simp_all add: standing_def members_def)

lemma send_Some:
  "send r m = Some r' \<longleftrightarrow> (m_Type m = RequestVote \<longleftrightarrow> m_Term m > 0) \<and>
     r' = r\<lparr>rf_msgs := rf_msgs r @ [m\<lparr>m_From := rf_nodeID r,
       m_Term := (if isRequestMessage (m_Type m) then m_Term m else rf_term r)\<rparr>]\<rparr>"
  by (auto simp: send_def finalizeMessageTerm_def isRequestMessage_def)

lemma send_quiet [quiet_steps]: "send r m = Some r' \<Longrightarrow> \<not> reserved_message m \<Longrightarrow> quiet r r'"
  by (auto simp: send_Some quiet_def standing_def members_def reserved_message_def)

subsection \<open>Sending\<close>

lemma sendRateLimitMessage_quiet [quiet_steps]: "sendRateLimitMessage r = Some r' \<Longrightarrow> quiet r r'"
  unfolding sendRateLimitMessage_def Let_def
  by (auto simp: bind_eq_Some_conv reserved_message_def split: if_splits option.splits prod.splits
      dest!: send_quiet intro: quiet_trans [OF update_rl_quiet])

lemma makeInstallSnapshotMessage_type: "makeInstallSnapshotMessage r to = Some m \<Longrightarrow> \<not> reserved_message m"
  by (auto simp: makeInstallSnapshotMessage_def reserved_message_def Let_def split: if_splits)

lemma makeReplicateMessage_type: "makeReplicateMessage r to n sz = Some (Inr m) \<Longrightarrow> \<not> reserved_message m"
  by (auto simp: makeReplicateMessage_def reserved_message_def Let_def elim!: bind_SomeE split: if_split_asm sum.split_asm)

lemma sendReplicateMessage_quiet [quiet_steps]:
  assumes "sendReplicateMessage r to = Some r'" shows "quiet r r'"
proof -
  obtain rp where rp: "get_remote r to = Some rp" using assms by (auto simp: sendReplicateMessage_def bind_eq_Some_conv)
  show ?thesis
  proof (cases "isPaused rp")
    case True
    then show ?thesis using assms rp by (simp add: sendReplicateMessage_def)
  next
    case False
    then obtain x where x: "makeReplicateMessage r to (rm_next rp) maxEntrySize = Some x"
      using assms rp by (auto simp: sendReplicateMessage_def bind_eq_Some_conv)
    show ?thesis
    proof (cases x)
      case (Inl err)
      then show ?thesis using assms rp x False
        by (auto simp: sendReplicateMessage_def bind_eq_Some_conv split: if_splits
            dest!: send_quiet intro: quiet_trans [OF set_remote_quiet] dest: makeInstallSnapshotMessage_type)
    next
      case (Inr m)
      then show ?thesis using assms rp x False makeReplicateMessage_type [of r to "rm_next rp" maxEntrySize m]
        by (auto simp: sendReplicateMessage_def bind_eq_Some_conv split: if_splits
            dest!: send_quiet intro: quiet_trans [OF set_remote_quiet])
    qed
  qed
qed

lemma broadcastReplicateMessage_quiet [quiet_steps]:
  assumes "broadcastReplicateMessage r = Some r'" shows "quiet r r'"
proof -
  have "foldo (\<lambda>nid s. if nid \<noteq> rf_nodeID s then sendReplicateMessage s nid else Some s) (nodes r) r = Some r'"
    using assms by (simp add: broadcastReplicateMessage_def)
  then show ?thesis by (rule foldo_quiet) (auto split: if_splits intro: sendReplicateMessage_quiet)
qed

lemma sendHeartbeatMessage_quiet [quiet_steps]: "sendHeartbeatMessage r to hint match = Some r' \<Longrightarrow> quiet r r'"
  unfolding sendHeartbeatMessage_def by (erule send_quiet) (simp add: reserved_message_def)

lemma broadcastHeartbeatMessageWithHint_quiet [quiet_steps]:
  assumes "broadcastHeartbeatMessageWithHint r ctx = Some r'" shows "quiet r r'"
proof -
  obtain r1 where r1: "foldo (\<lambda>(id, rm) s. if id \<noteq> rf_nodeID s then sendHeartbeatMessage s id ctx (rm_match rm) else Some s)
      (sorted_bindings (votingMembers r)) r = Some r1"
    and r': "r' = r1 \<or> foldo (\<lambda>(id, rm) s. sendHeartbeatMessage s id zeroCtx (rm_match rm))
      (sorted_bindings (rf_observers r1)) r1 = Some r'"
    using assms by (fastforce simp: broadcastHeartbeatMessageWithHint_def bind_eq_Some_conv split: if_splits)
  have "quiet r r1" using r1 by (rule foldo_quiet) (auto split: if_splits intro: sendHeartbeatMessage_quiet)
  moreover have "quiet r1 r'" using r'
  proof
    assume "foldo (\<lambda>(id, rm) s. sendHeartbeatMessage s id zeroCtx (rm_match rm)) (sorted_bindings (rf_observers r1)) r1 = Some r'"
    then show ?thesis by (rule foldo_quiet) (auto intro: sendHeartbeatMessage_quiet)
  qed simp
  ultimately show ?thesis by (rule quiet_trans)
qed

lemma broadcastHeartbeatMessage_quiet [quiet_steps]: "broadcastHeartbeatMessage r = Some r' \<Longrightarrow> quiet r r'"
  unfolding broadcastHeartbeatMessage_def
  by (auto simp: bind_eq_Some_conv split: if_splits dest: broadcastHeartbeatMessageWithHint_quiet)

lemma sendTimeoutNowMessage_quiet [quiet_steps]: "sendTimeoutNowMessage r i = Some r' \<Longrightarrow> quiet r r'"
  unfolding sendTimeoutNowMessage_def by (erule send_quiet) (simp add: reserved_message_def)

subsection \<open>Committing and appending\<close>

lemma tryCommit_quiet [quiet_steps]: "tryCommit r = Some (r', b) \<Longrightarrow> quiet r r'"
  unfolding tryCommit_def Let_def
  by (auto simp: bind_eq_Some_conv intro!: quiet_fields dest: log_tryCommit_committed)

lemma appendEntries_quiet [quiet_steps]:
  assumes "appendEntries r es = Some r'" shows "quiet r r'"
proof -
  obtain l self where l: "log_append (rf_log r) (number_entries (rf_term r) (lastIndex (rf_log r)) es) = Some l"
    and self: "fmlookup (rf_remotes r) (rf_nodeID r) = Some self"
    and r': "(let r1 = r\<lparr>rf_log := l, rf_remotes := fmupd (rf_nodeID r) (fst (tryUpdate self (lastIndex l))) (rf_remotes r)\<rparr>
      in if isSingleNodeQuorum r1 then map_option fst (tryCommit r1) else Some r1) = Some r'"
    using assms unfolding appendEntries_def by (elim bind_SomeE)
  let ?r1 = "r\<lparr>rf_log := l, rf_remotes := fmupd (rf_nodeID r) (fst (tryUpdate self (lastIndex l))) (rf_remotes r)\<rparr>"
  have "quiet r ?r1" using fmdomI [OF self] by (intro quiet_fields) (simp_all add: finsert_absorb log_append_committed [OF l])
  moreover have "quiet ?r1 r'" using r' by (auto simp: Let_def split: if_splits dest: tryCommit_quiet)
  ultimately show ?thesis by (rule quiet_trans)
qed

lemma restore_quiet [quiet_steps]: "restore r ss = Some (r', b) \<Longrightarrow> quiet r r'"
  unfolding restore_def
  by (auto simp: bind_eq_Some_conv log_restore_def split: if_splits intro!: quiet_fields dest: commitTo_committed)

subsection \<open>State transitions\<close>

text \<open>Stepping back: no longer candidate or leader, at the same term with the same vote or at a higher term with none.\<close>

definition yields :: "raft \<Rightarrow> raft \<Rightarrow> bool" where
  "yields r r' \<longleftrightarrow> rf_nodeID r' = rf_nodeID r \<and> members r' = members r \<and> committed r' = committed r \<and>
     rf_msgs r' = rf_msgs r \<and> rf_votes r' = fmempty \<and> rf_state r' \<in> {Follower, Observer, Witness} \<and>
     (rf_state r' = Witness \<longleftrightarrow> rf_state r = Witness) \<and> (rf_state r' = Observer \<longrightarrow> rf_state r = Observer) \<and>
     (rf_term r' = rf_term r \<and> rf_vote r' = rf_vote r \<or> rf_term r < rf_term r' \<and> rf_vote r' = NoLeader)"

lemma fmdom_fmmap_keys [simp]: "fmdom (fmmap_keys f m) = fmdom m"
  by (rule fset_eqI) (simp add: fmlookup_dom_iff)

lemma setRandomizedElectionTimeout_sel [simp]:
  "rf_nodeID (setRandomizedElectionTimeout r) = rf_nodeID r" "rf_term (setRandomizedElectionTimeout r) = rf_term r"
  "rf_vote (setRandomizedElectionTimeout r) = rf_vote r" "rf_state (setRandomizedElectionTimeout r) = rf_state r"
  "rf_log (setRandomizedElectionTimeout r) = rf_log r" "rf_msgs (setRandomizedElectionTimeout r) = rf_msgs r"
  "rf_remotes (setRandomizedElectionTimeout r) = rf_remotes r" "rf_observers (setRandomizedElectionTimeout r) = rf_observers r"
  "rf_witnesses (setRandomizedElectionTimeout r) = rf_witnesses r"
  by (simp_all add: setRandomizedElectionTimeout_def Let_def)

lemmas reset_defs = reset_def Let_def resetMatchValueArray_def resetWitnesses_def resetObservers_def resetRemotes_def
  abortLeaderTransfer_def clearPendingConfigChange_def

lemma reset_sel [simp]:
  "rf_nodeID (reset r tm b) = rf_nodeID r" "rf_term (reset r tm b) = tm"
  "rf_vote (reset r tm b) = (if rf_term r = tm then rf_vote r else NoLeader)"
  "rf_state (reset r tm b) = rf_state r" "rf_votes (reset r tm b) = fmempty"
  "el_committed (rf_log (reset r tm b)) = el_committed (rf_log r)" "rf_msgs (reset r tm b) = rf_msgs r"
  "fmdom (rf_remotes (reset r tm b)) = fmdom (rf_remotes r)" "fmdom (rf_observers (reset r tm b)) = fmdom (rf_observers r)"
  "fmdom (rf_witnesses (reset r tm b)) = fmdom (rf_witnesses r)"
  by (simp_all add: reset_defs)

lemma reset_yields:
  assumes "rf_state r \<in> {Follower, Observer, Witness}" and "rf_term r \<le> tm"
  shows "yields r (setLeaderID (reset r tm b) ld)"
  unfolding yields_def members_def using assms by (cases "rf_term r = tm") simp_all

lemma toFollowerState_yields:
  assumes "toFollowerState r tm ld b = Some r'" and "rf_term r \<le> tm"
  shows "yields r r' \<and> rf_term r' = tm \<and> rf_state r' = Follower"
proof -
  have r': "r' = setLeaderID (reset (r\<lparr>rf_state := Follower\<rparr>) tm b) ld" and w: "rf_state r \<noteq> Witness"
    using assms(1) by (auto simp: toFollowerState_def isWitness_def split: if_splits)
  have "yields r r'" unfolding yields_def members_def r' using assms(2) w by (cases "rf_term r = tm") simp_all
  then show ?thesis by (simp add: r')
qed

lemma becomeFollower_yields:
  "becomeFollower r tm ld = Some r' \<Longrightarrow> rf_term r \<le> tm \<Longrightarrow> yields r r' \<and> rf_term r' = tm \<and> rf_state r' = Follower"
  unfolding becomeFollower_def by (rule toFollowerState_yields)

lemma step_down_yields:
  assumes "step_down r m = Some r'" and "rf_term r < m_Term m" shows "yields r r' \<and> rf_term r' = m_Term m"
proof (cases "isObserver r \<or> isWitness r")
  case True
  then obtain ld where r': "r' = setLeaderID (reset r (m_Term m) True) ld"
    using assms(1) by (auto simp: step_down_def Let_def becomeObserver_def becomeWitness_def split: if_splits)
  show ?thesis unfolding r' using True assms(2)
    by (auto simp: isObserver_def isWitness_def intro!: reset_yields)
next
  case False
  then show ?thesis using assms toFollowerState_yields [of r "m_Term m"]
    by (auto simp: step_down_def Let_def becomeFollowerKE_def becomeFollower_def split: if_splits)
qed

lemma yields_quiet_trans: "yields a b \<Longrightarrow> quiet b c \<Longrightarrow> rf_term a \<le> rf_term c \<and> rf_nodeID c = rf_nodeID a \<and> members c = members a"
  by (auto simp: yields_def quiet_def standing_def)

subsection \<open>Handlers that are quiet\<close>

text \<open>Updates at the start of a quiet step that it does not observe.\<close>

lemma quiet_left:
  assumes "standing a = standing b" and "members a = members b" and "el_committed (rf_log a) = el_committed (rf_log b)"
    and "rf_msgs a = rf_msgs b"
  shows "quiet a r' = quiet b r'"
  using assms by (auto simp: quiet_def standing_def)

lemma quiet_left_simps [simp]:
  "quiet (notify e r) r' = quiet r r'"
  "quiet (update_rl f r) r' = quiet r r'"
  "quiet (setLeaderID r i) r' = quiet r r'"
  "quiet (addReadyToRead r j ctx) r' = quiet r r'"
  "quiet (leaderIsAvailable r) r' = quiet r r'"
  "quiet (setPendingConfigChange r) r' = quiet r r'"
  "quiet (reportDroppedConfigChange r en) r' = quiet r r'"
  "quiet (r\<lparr>rf_readIndex := ri\<rparr>) r' = quiet r r'"
  "quiet (r\<lparr>rf_snapshotting := bb\<rparr>) r' = quiet r r'"
  "quiet (r\<lparr>rf_electionTick := n\<rparr>) r' = quiet r r'"
  "quiet (r\<lparr>rf_heartbeatTick := n\<rparr>) r' = quiet r r'"
  "quiet (r\<lparr>rf_leaderTransferTarget := n\<rparr>) r' = quiet r r'"
  by (rule quiet_left; simp add: standing_def members_def addReadyToRead_def leaderIsAvailable_def
      setPendingConfigChange_def reportDroppedConfigChange_def)+

lemma quiet_log: "el_committed (rf_log r) \<le> el_committed l \<Longrightarrow> quiet (r\<lparr>rf_log := l\<rparr>) r' \<Longrightarrow> quiet r r'"
  by (erule quiet_trans [OF quiet_fields, rotated 4]) simp_all

lemma quiet_set_remote: "get_remote r i = Some rp0 \<Longrightarrow> quiet (set_remote r i rp) r' \<Longrightarrow> quiet r r'"
  by (blast intro: quiet_trans set_remote_quiet)

lemma handleHeartbeatMessage_quiet [quiet_steps]: "handleHeartbeatMessage r m = Some r' \<Longrightarrow> quiet r r'"
  unfolding handleHeartbeatMessage_def
  by (elim bind_SomeE) (rule quiet_log [OF commitTo_committed send_quiet], auto simp: reserved_message_def)

lemma handleInstallSnapshotMessage_quiet [quiet_steps]: "handleInstallSnapshotMessage r m = Some r' \<Longrightarrow> quiet r r'"
  unfolding handleInstallSnapshotMessage_def Let_def
  by (auto simp: reserved_message_def elim!: bind_SomeE split: if_splits dest!: send_quiet restore_quiet)
    (blast intro: quiet_trans)+

lemma handleReplicateMessage_quiet [quiet_steps]: "handleReplicateMessage r m = Some r' \<Longrightarrow> quiet r r'"
  unfolding handleReplicateMessage_def Let_def
  by (auto simp: reserved_message_def elim!: bind_SomeE split: if_splits dest!: send_quiet tryAppend_committed
      dest!: commitTo_committed) (auto intro: quiet_log)

lemma reports_quiet [quiet_steps, simp]:
  "quiet r (reportDroppedConfigChange r e)" "quiet r (reportDroppedProposal r m)" "quiet r (reportDroppedReadIndex r m)"
  "quiet r (addReadyToRead r i ctx)" "quiet r (leaderIsAvailable r)" "quiet r (setPendingConfigChange r)"
  "quiet r (abortLeaderTransfer r)" "quiet r (clearPendingConfigChange r)"
  by (auto simp: reportDroppedConfigChange_def reportDroppedProposal_def reportDroppedReadIndex_def addReadyToRead_def
      leaderIsAvailable_def setPendingConfigChange_def abortLeaderTransfer_def clearPendingConfigChange_def
      intro!: quiet_fields)

lemma screen_config_changes_quiet [quiet_steps]: "screen_config_changes r es = (r', es') \<Longrightarrow> quiet r r'"
proof (induction es arbitrary: r es')
  case (Cons e es)
  show ?case
  proof (cases "e_Type e = ConfigChangeEntry")
    case True
    define r1 where "r1 = (if hasPendingConfigChange r then reportDroppedConfigChange r e else r)"
    obtain es2 where "screen_config_changes (setPendingConfigChange r1) es = (r', es2)"
      using Cons.prems True unfolding r1_def by (fastforce simp: Let_def split: if_splits prod.splits)
    from Cons.IH [OF this] show ?thesis by (simp add: r1_def split: if_splits)
  next
    case False
    then obtain es2 where "screen_config_changes r es = (r', es2)"
      using Cons.prems by (auto simp: Let_def split: prod.splits)
    then show ?thesis by (rule Cons.IH)
  qed
qed simp

lemma handleLeaderPropose_quiet [quiet_steps]:
  assumes "handleLeaderPropose r m = Some r'" shows "quiet r r'"
proof (cases "leaderTransfering r")
  case True
  then show ?thesis using assms by (auto simp: handleLeaderPropose_def)
next
  case False
  obtain r1 es where s: "screen_config_changes r (m_Entries m) = (r1, es)" by fastforce
  obtain r2 where "appendEntries r1 es = Some r2" "broadcastReplicateMessage r2 = Some r'"
    using assms False s by (auto simp: handleLeaderPropose_def elim: bind_SomeE)
  with s show ?thesis
    by (blast intro: quiet_trans screen_config_changes_quiet appendEntries_quiet broadcastReplicateMessage_quiet)
qed

lemma handleLeaderReadIndex_quiet [quiet_steps]:
  assumes "handleLeaderReadIndex r m = Some r'" shows "quiet r r'"
proof (cases "isSingleNodeQuorum r")
  case True
  then show ?thesis using assms unfolding handleLeaderReadIndex_def Let_def
    by (auto simp: reserved_message_def split: if_splits dest!: send_quiet)
next
  case False
  then show ?thesis using assms unfolding handleLeaderReadIndex_def Let_def
    by (auto elim!: bind_SomeE split: if_splits dest!: broadcastHeartbeatMessageWithHint_quiet)
qed

lemma get_set_remote: "get_remote r i = Some rp0 \<Longrightarrow> get_remote (set_remote r i rp) i = Some rp"
  by (auto simp: get_remote_def set_remote_def split: option.splits)

lemma handleLeaderReplicateResp_quiet [quiet_steps]:
  assumes h: "handleLeaderReplicateResp r m rp = Some r'" and rp: "get_remote r (m_From m) = Some rp"
  shows "quiet r r'"
proof (cases "m_Reject m")
  case True
  then show ?thesis using assms unfolding handleLeaderReplicateResp_def Let_def
    by (auto split: if_splits prod.splits dest!: sendReplicateMessage_quiet intro: set_remote_quiet quiet_set_remote)
next
  case False
  obtain rp1 updated where u: "tryUpdate (setActive rp) (m_LogIndex m) = (rp1, updated)" by fastforce
  show ?thesis
  proof (cases updated)
    case True
    then obtain r2 ok r3 where r2: "tryCommit (set_remote r (m_From m) (respondedTo rp1)) = Some (r2, ok)"
      and r3: "broadcastReplicateMessage r2 = Some r3 \<or> sendReplicateMessage r2 (m_From m) = Some r3 \<or> r3 = r2"
      and r': "sendTimeoutNowMessage r3 (rf_leaderTransferTarget r3) = Some r' \<or> r' = r3"
      using h u False unfolding handleLeaderReplicateResp_def Let_def
      by (auto elim!: bind_SomeE split: if_split_asm) metis+
    have "quiet r r2" using rp tryCommit_quiet [OF r2] by (rule quiet_set_remote)
    moreover have "quiet r2 r3"
      using r3 by (auto intro: broadcastReplicateMessage_quiet sendReplicateMessage_quiet)
    moreover have "quiet r3 r'" using r' by (auto intro: sendTimeoutNowMessage_quiet)
    ultimately show ?thesis by (blast intro: quiet_trans)
  next
    case False
    then show ?thesis using h u rp \<open>\<not> m_Reject m\<close> unfolding handleLeaderReplicateResp_def Let_def
      by (auto intro: set_remote_quiet)
  qed
qed

lemma handleReadIndexLeaderConfirmation_quiet [quiet_steps]:
  assumes "handleReadIndexLeaderConfirmation r m = Some r'" shows "quiet r r'"
proof -
  obtain ri ris where "foldo (answer_read m) ris (r\<lparr>rf_readIndex := ri\<rparr>) = Some r'"
    using assms unfolding handleReadIndexLeaderConfirmation_def by (auto elim!: bind_SomeE)
  then have "quiet (r\<lparr>rf_readIndex := ri\<rparr>) r'"
    by (rule foldo_quiet) (auto simp: answer_read_def reserved_message_def split: if_splits dest: send_quiet)
  then show ?thesis by simp
qed

lemma handleLeaderHeartbeatResp_quiet [quiet_steps]:
  assumes h: "handleLeaderHeartbeatResp r m rp = Some r'" and rp: "get_remote r (m_From m) = Some rp"
  shows "quiet r r'"
proof -
  define r1 where "r1 = set_remote r (m_From m) (waitToRetry (setActive rp))"
  obtain r2 where r2: "sendReplicateMessage r1 (m_From m) = Some r2 \<or> r2 = r1"
    and r': "handleReadIndexLeaderConfirmation r2 m = Some r' \<or> r' = r2"
    using h unfolding handleLeaderHeartbeatResp_def Let_def r1_def by (auto elim!: bind_SomeE split: if_splits) blast+
  have "quiet r r1" unfolding r1_def using rp by (rule set_remote_quiet)
  moreover have "quiet r1 r2" using r2 sendReplicateMessage_quiet by auto
  moreover have "quiet r2 r'" using r' handleReadIndexLeaderConfirmation_quiet by auto
  ultimately show ?thesis by (blast intro: quiet_trans)
qed

lemma handleLeaderTransfer_quiet [quiet_steps]: "handleLeaderTransfer r m = Some r' \<Longrightarrow> quiet r r'"
  unfolding handleLeaderTransfer_def Let_def
  by (auto split: if_splits option.splits dest!: sendTimeoutNowMessage_quiet intro: quiet_fields)

lemma handleLeaderSnapshotStatus_quiet [quiet_steps]:
  assumes h: "handleLeaderSnapshotStatus r m rp = Some r'" and rp: "get_remote r (m_From m) = Some rp"
  shows "quiet r r'"
proof -
  have q: "quiet r ((set_remote r (m_From m) rp')\<lparr>rf_snapshotting := True\<rparr>)" for rp'
  proof -
    have "quiet (set_remote r (m_From m) rp') ((set_remote r (m_From m) rp')\<lparr>rf_snapshotting := True\<rparr>)"
      by (rule quiet_fields) simp_all
    with rp show ?thesis by (rule quiet_set_remote)
  qed
  show ?thesis using h rp unfolding handleLeaderSnapshotStatus_def
    by (auto simp: q elim!: bind_SomeE split: if_splits intro: set_remote_quiet)
qed

lemma handleLeaderUnreachable_quiet [quiet_steps]:
  "handleLeaderUnreachable r m rp = Some r' \<Longrightarrow> get_remote r (m_From m) = Some rp \<Longrightarrow> quiet r r'"
  unfolding handleLeaderUnreachable_def by (auto intro: set_remote_quiet)

lemma handleLeaderRateLimit_quiet [quiet_steps]: "handleLeaderRateLimit r m = Some r' \<Longrightarrow> quiet r r'"
  unfolding handleLeaderRateLimit_def by (auto split: if_splits intro: update_rl_quiet)

lemma lw_quiet [quiet_steps]:
  assumes "lw f r m = Some r'" and "\<And>rp. f r m rp = Some r' \<Longrightarrow> get_remote r (m_From m) = Some rp \<Longrightarrow> quiet r r'"
  shows "quiet r r'"
  using assms by (auto simp: lw_def split: option.splits)

lemma handleFollower_quiet [quiet_steps]:
  "handleFollowerPropose r m = Some r' \<Longrightarrow> \<not> reserved_message m \<Longrightarrow> quiet r r'"
  "handleFollowerReadIndex r m = Some r' \<Longrightarrow> \<not> reserved_message m \<Longrightarrow> quiet r r'"
  "handleFollowerLeaderTransfer r m = Some r' \<Longrightarrow> \<not> reserved_message m \<Longrightarrow> quiet r r'"
  "handleFollowerReplicate r m = Some r' \<Longrightarrow> quiet r r'"
  "handleFollowerHeartbeat r m = Some r' \<Longrightarrow> quiet r r'"
  "handleFollowerInstallSnapshot r m = Some r' \<Longrightarrow> quiet r r'"
  by (auto simp: handleFollowerPropose_def handleFollowerReadIndex_def handleFollowerLeaderTransfer_def
      handleFollowerReplicate_def handleFollowerHeartbeat_def handleFollowerInstallSnapshot_def reserved_message_def
      split: if_splits dest!: send_quiet handleReplicateMessage_quiet handleHeartbeatMessage_quiet
        handleInstallSnapshotMessage_quiet)

lemma handleFollowerReadIndexResp_quiet [quiet_steps]: "handleFollowerReadIndexResp r m = Some r' \<Longrightarrow> quiet r r'"
  unfolding handleFollowerReadIndexResp_def
  by (auto simp: addReadyToRead_def leaderIsAvailable_def intro!: quiet_fields)

lemma handleCandidate_quiet [quiet_steps]:
  "handleCandidatePropose r m = Some r' \<Longrightarrow> quiet r r'"
  "handleCandidateReadIndex r m = Some r' \<Longrightarrow> quiet r r'"
  by (auto simp: handleCandidatePropose_def) (auto simp: handleCandidateReadIndex_def Let_def reportDroppedReadIndex_def
      intro!: quiet_fields)

lemma leaderHasQuorum_quiet [quiet_steps]: "leaderHasQuorum r = (r', b) \<Longrightarrow> quiet r r'"
  by (auto simp: leaderHasQuorum_def Let_def intro!: quiet_fields)

end
