(* ===== verification/Raft_Steps.thy ===== *)
theory Raft_Steps
  imports Raft_Frame
begin

text \<open>
  Every message a Raft node handles moves it forward: its term does not fall, within a term it does not change
  a vote it has cast, and its commit index does not fall. No node becomes an observer or a witness, and a witness
  stays one. Handlers that take no part in an election are
  \<^emph>\<open>calm\<close>: quiet steps and steps back.
\<close>

definition calm :: "raft \<Rightarrow> raft \<Rightarrow> bool" where
  "calm = (\<lambda>r r'. quiet r r' \<or> yields r r')\<^sup>*\<^sup>*"

lemma calm_refl [simp, intro]: "calm r r"
  by (simp add: calm_def)

lemma quiet_calm: "quiet r r' \<Longrightarrow> calm r r'"
  unfolding calm_def by (rule r_into_rtranclp) simp

lemma yields_calm: "yields r r' \<Longrightarrow> calm r r'"
  unfolding calm_def by (rule r_into_rtranclp) simp

lemma calm_trans [trans]: "calm a b \<Longrightarrow> calm b c \<Longrightarrow> calm a c"
  unfolding calm_def by (rule rtranclp_trans)

lemma calm_induct [consumes 1, case_names quiet yields]:
  assumes "calm r r'" and "\<And>a b. quiet a b \<Longrightarrow> P a \<Longrightarrow> P b" and "\<And>a b. yields a b \<Longrightarrow> P a \<Longrightarrow> P b" and "P r"
  shows "P r'"
  using assms(1,4) unfolding calm_def by (induction rule: rtranclp_induct) (use assms(2,3) in blast)+

definition ahead :: "raft \<Rightarrow> raft \<Rightarrow> bool" where
  "ahead r r' \<longleftrightarrow> rf_nodeID r' = rf_nodeID r \<and> committed r \<le> committed r' \<and>
     (rf_state r' = Witness \<longleftrightarrow> rf_state r = Witness) \<and> (rf_state r' = Observer \<longrightarrow> rf_state r = Observer) \<and>
     (rf_term r < rf_term r' \<or> rf_term r = rf_term r' \<and> (rf_vote r' = rf_vote r \<or> rf_vote r = NoNode))"

lemma ahead_refl [simp, intro]: "ahead r r"
  by (simp add: ahead_def)

lemma ahead_trans [trans]: "ahead a b \<Longrightarrow> ahead b c \<Longrightarrow> ahead a c"
  unfolding ahead_def by (elim conjE disjE) simp_all

lemma quiet_ahead: "quiet r r' \<Longrightarrow> ahead r r'"
  by (auto simp: quiet_def ahead_def standing_def)

lemma yields_ahead: "yields r r' \<Longrightarrow> ahead r r'"
  unfolding yields_def ahead_def by (elim conjE disjE) simp_all

lemma calm_ahead: "calm r r' \<Longrightarrow> ahead r r'"
  by (induction rule: calm_induct) (blast intro: ahead_trans quiet_ahead yields_ahead ahead_refl)+

lemma calm_members: "calm r r' \<Longrightarrow> members r' = members r"
  by (induction rule: calm_induct) (auto simp: quiet_def yields_def)

lemma foldo_ahead:
  assumes "foldo f xs r = Some r'" and "\<And>x s s'. f x s = Some s' \<Longrightarrow> ahead s s'" shows "ahead r r'"
  using assms(1) by (rule foldo_inv [where P = "ahead r"]) (auto intro: ahead_trans assms(2))

subsection \<open>The term check\<close>

lemma onMessageTermNotMatched_calm:
  assumes "onMessageTermNotMatched r m = Some (r', d)" shows "calm r r'"
proof -
  have "r' = r \<or> yields r r' \<or> quiet r r'"
    using assms step_down_yields [of r m] unfolding onMessageTermNotMatched_def
    by (auto simp: reserved_message_def elim!: bind_SomeE split: if_splits dest!: send_quiet)
  then show ?thesis using quiet_calm yields_calm by blast
qed

lemma Handle_with_cases:
  assumes "Handle_with tbl r m = Some r'"
  obtains "calm r r'"
  | s f where "calm r s" and "m_Term m = 0 \<or> rf_term s = m_Term m" and "tbl (rf_state s) (m_Type m) = Some f"
      and "f s m = Some r'" and "m_Term m = 0 \<or> m_Term m = rf_term r \<Longrightarrow> s = r"
proof -
  obtain s d where s: "onMessageTermNotMatched r m = Some (s, d)"
    and r': "(if \<not> d then Option.bind (doubleCheckTermMatched s (m_Term m)) (\<lambda>_. defaultHandle tbl s m) else Some s) = Some r'"
    using assms unfolding Handle_with_def by (auto elim!: bind_SomeE)
  have c: "calm r s" using s by (rule onMessageTermNotMatched_calm)
  have eq: "m_Term m = 0 \<or> m_Term m = rf_term r \<Longrightarrow> s = r" using s by (auto simp: onMessageTermNotMatched_def)
  show ?thesis
  proof (cases "d \<or> tbl (rf_state s) (m_Type m) = None")
    case True
    then have "r' = s" using r' by (auto simp: doubleCheckTermMatched_def defaultHandle_def split: if_splits)
    with c that(1) show ?thesis by simp
  next
    case False
    with r' c eq that(2) show ?thesis
      by (auto simp: doubleCheckTermMatched_def defaultHandle_def)
  qed
qed

subsection \<open>Calm handlers\<close>

lemma handleLeaderCheckQuorum_calm: "handleLeaderCheckQuorum r m = Some r' \<Longrightarrow> calm r r'"
  unfolding handleLeaderCheckQuorum_def Let_def
  by (auto split: prod.splits if_splits dest!: leaderHasQuorum_quiet becomeFollower_yields
      intro: quiet_calm calm_trans [OF quiet_calm yields_calm])

lemma candidate_follows_calm:
  assumes "Option.bind (becomeFollower r (rf_term r) i) (\<lambda>r1. h r1 m) = Some r'" and "\<And>s. h s m = Some r' \<Longrightarrow> quiet s r'"
  shows "calm r r'"
  using assms becomeFollower_yields [of r "rf_term r" i]
  by (auto elim!: bind_SomeE intro: calm_trans [OF yields_calm quiet_calm])

lemma handleCandidate_calm:
  "handleCandidateReplicate r m = Some r' \<Longrightarrow> calm r r'"
  "handleCandidateInstallSnapshot r m = Some r' \<Longrightarrow> calm r r'"
  "handleCandidateHeartbeat r m = Some r' \<Longrightarrow> calm r r'"
  unfolding handleCandidateReplicate_def handleCandidateInstallSnapshot_def handleCandidateHeartbeat_def
  by (erule candidate_follows_calm, simp add: quiet_steps)+

definition calm_type :: "message_type \<Rightarrow> bool" where
  "calm_type t = (t \<notin> {RequestVote, RequestVoteResp, Election, ConfigChangeEvent, SnapshotReceived})"

lemma handlers0_range:
  "handlers0 st t = Some f \<Longrightarrow> calm_type t \<Longrightarrow>
   f \<in> {handleFollowerPropose, handleFollowerReadIndex, handleFollowerLeaderTransfer, handleFollowerReplicate,
     handleFollowerHeartbeat, handleFollowerInstallSnapshot, handleFollowerReadIndexResp} \<union>
    {handleObserverPropose, handleObserverReadIndex, handleObserverReplicate, handleObserverHeartbeat,
     handleObserverSnapshot, handleObserverReadIndexResp, handleWitnessReplicate, handleWitnessHeartbeat, handleWitnessSnapshot} \<union>
    {handleCandidatePropose, handleCandidateReadIndex, handleCandidateReplicate, handleCandidateInstallSnapshot,
     handleCandidateHeartbeat} \<union>
    {handleLeaderHeartbeat, handleLeaderCheckQuorum, handleLeaderPropose, handleLeaderReadIndex, handleLeaderTransfer,
     handleLeaderRateLimit, lw handleLeaderReplicateResp, lw handleLeaderHeartbeatResp, lw handleLeaderSnapshotStatus,
     lw handleLeaderUnreachable}"
  unfolding handlers0_def calm_type_def by (cases st; cases t) simp_all

lemma rerouted:
  "handleObserverPropose = handleFollowerPropose" "handleObserverReadIndex = handleFollowerReadIndex"
  "handleObserverReplicate = handleFollowerReplicate" "handleObserverHeartbeat = handleFollowerHeartbeat"
  "handleObserverSnapshot = handleFollowerInstallSnapshot" "handleObserverReadIndexResp = handleFollowerReadIndexResp"
  "handleWitnessReplicate = handleFollowerReplicate" "handleWitnessHeartbeat = handleFollowerHeartbeat"
  "handleWitnessSnapshot = handleFollowerInstallSnapshot"
  by (simp_all add: fun_eq_iff handleObserverPropose_def handleObserverReadIndex_def handleObserverReplicate_def
      handleObserverHeartbeat_def handleObserverSnapshot_def handleObserverReadIndexResp_def handleWitnessReplicate_def
      handleWitnessHeartbeat_def handleWitnessSnapshot_def)

lemma handleLeader_calm:
  "handleLeaderHeartbeat r m = Some r' \<Longrightarrow> calm r r'" "handleLeaderPropose r m = Some r' \<Longrightarrow> calm r r'"
  "handleLeaderReadIndex r m = Some r' \<Longrightarrow> calm r r'" "handleLeaderTransfer r m = Some r' \<Longrightarrow> calm r r'"
  "handleLeaderRateLimit r m = Some r' \<Longrightarrow> calm r r'" "lw handleLeaderReplicateResp r m = Some r' \<Longrightarrow> calm r r'"
  "lw handleLeaderHeartbeatResp r m = Some r' \<Longrightarrow> calm r r'" "lw handleLeaderSnapshotStatus r m = Some r' \<Longrightarrow> calm r r'"
  "lw handleLeaderUnreachable r m = Some r' \<Longrightarrow> calm r r'"
  unfolding handleLeaderHeartbeat_def
  by (rule quiet_calm, (erule lw_quiet)?, erule (1) quiet_steps | rule quiet_calm, erule quiet_steps)+

lemma handleFollower_calm:
  "handleFollowerReplicate r m = Some r' \<Longrightarrow> calm r r'" "handleFollowerHeartbeat r m = Some r' \<Longrightarrow> calm r r'"
  "handleFollowerInstallSnapshot r m = Some r' \<Longrightarrow> calm r r'" "handleFollowerReadIndexResp r m = Some r' \<Longrightarrow> calm r r'"
  "handleCandidatePropose r m = Some r' \<Longrightarrow> calm r r'" "handleCandidateReadIndex r m = Some r' \<Longrightarrow> calm r r'"
  by (rule quiet_calm, erule quiet_steps)+

lemma forwarding_calm:
  assumes "\<not> reserved_message m"
  shows "handleFollowerPropose r m = Some r' \<Longrightarrow> calm r r'" "handleFollowerReadIndex r m = Some r' \<Longrightarrow> calm r r'"
    "handleFollowerLeaderTransfer r m = Some r' \<Longrightarrow> calm r r'"
  using handleFollower_quiet(1-3) [OF _ assms] by (blast intro: quiet_calm)+

lemma handlers0_calm:
  assumes "handlers0 st (m_Type m) = Some f" and "f r m = Some r'" and "calm_type (m_Type m)"
  shows "calm r r'"
proof -
  have ne: "\<not> reserved_message m" using assms(3) by (auto simp: reserved_message_def calm_type_def)
  show ?thesis using handlers0_range [OF assms(1,3)] assms(2)
    unfolding rerouted Un_iff insert_iff empty_iff
    by (elim disjE; hypsubst?;
        blast dest: handleLeader_calm handleFollower_calm handleCandidate_calm handleLeaderCheckQuorum_calm forwarding_calm [OF ne])
qed

subsection \<open>Elections\<close>

lemma becomeCandidate_effect:
  assumes "becomeCandidate r = Some r'"
  shows "standing r' = (rf_nodeID r, rf_term r + 1, rf_nodeID r, Candidate, fmempty)" and "members r' = members r"
    and "el_committed (rf_log r') = el_committed (rf_log r)" and "rf_msgs r' = rf_msgs r" and "rf_state r \<in> {Follower, Candidate}"
proof -
  define r1 where "r1 = setLeaderID (reset (r\<lparr>rf_state := Candidate\<rparr>) (rf_term r + 1) True) NoLeader"
  have r': "r' = r1\<lparr>rf_vote := rf_nodeID r1\<rparr>" and st: "\<not> isLeader r" "\<not> isObserver r" "\<not> isWitness r"
    using assms by (auto simp: becomeCandidate_def r1_def Let_def split: if_splits)
  show "standing r' = (rf_nodeID r, rf_term r + 1, rf_nodeID r, Candidate, fmempty)" "members r' = members r"
    "el_committed (rf_log r') = el_committed (rf_log r)" "rf_msgs r' = rf_msgs r"
    by (simp_all add: r' r1_def standing_def members_def)
  show "rf_state r \<in> {Follower, Candidate}" using st by (cases "rf_state r") (auto simp: isLeader_def isObserver_def isWitness_def)
qed

text \<open>A node that becomes leader does so at its term and with its vote, and then appends an entry.\<close>

definition takes_office :: "raft \<Rightarrow> raft \<Rightarrow> bool" where
  "takes_office r r' \<longleftrightarrow> rf_state r \<in> {Candidate, Leader} \<and> (\<exists>s. standing s = (rf_nodeID r, rf_term r, rf_vote r, Leader, fmempty) \<and> members s = members r \<and>
     el_committed (rf_log s) = el_committed (rf_log r) \<and> rf_msgs s = rf_msgs r \<and> quiet s r')"

lemma becomeLeader_takes_office:
  assumes "becomeLeader r = Some r'" shows "takes_office r r'"
proof -
  define s where "s = setLeaderID (reset (r\<lparr>rf_state := Leader\<rparr>) (rf_term r) True) (rf_nodeID r)"
  obtain r1 where r1: "preLeaderPromotionHandleConfigChange s = Some r1" and r': "appendEntries r1 [empty_entry] = Some r'"
    using assms by (auto simp: becomeLeader_def s_def split: if_splits elim: bind_SomeE)
  have "quiet s r1" using r1 unfolding preLeaderPromotionHandleConfigChange_def
    by (auto elim!: bind_SomeE split: if_splits)
  then have "quiet s r'" using appendEntries_quiet [OF r'] by (rule quiet_trans)
  moreover have "standing s = (rf_nodeID r, rf_term r, rf_vote r, Leader, fmempty) \<and> members s = members r \<and>
      el_committed (rf_log s) = el_committed (rf_log r) \<and> rf_msgs s = rf_msgs r"
    by (simp add: s_def standing_def members_def)
  moreover have "rf_state r \<in> {Candidate, Leader}" using assms by (auto simp: becomeLeader_def isLeader_def isCandidate_def split: if_splits)
  ultimately show ?thesis unfolding takes_office_def by blast
qed

lemma takes_office_quiet: "takes_office r a \<Longrightarrow> quiet a r' \<Longrightarrow> takes_office r r'"
  unfolding takes_office_def by (blast intro: quiet_trans)

lemma takes_office_ahead:
  assumes "takes_office r r'" shows "ahead r r'"
proof -
  obtain s where s: "standing s = (rf_nodeID r, rf_term r, rf_vote r, Leader, fmempty)"
      "el_committed (rf_log s) = el_committed (rf_log r)" "quiet s r'" and c: "rf_state r \<in> {Candidate, Leader}"
    using assms unfolding takes_office_def by blast
  have "ahead r s" using s(1,2) c by (auto simp: ahead_def standing_def)
  then show ?thesis using quiet_ahead [OF s(3)] by (rule ahead_trans)
qed

text \<open>The candidate of a campaign, before it asks for votes.\<close>

definition candidacy :: "raft \<Rightarrow> raft \<Rightarrow> bool" where
  "candidacy r s \<longleftrightarrow> standing s = (rf_nodeID r, rf_term r + 1, rf_nodeID r, Candidate, fmupd (rf_nodeID r) True fmempty) \<and>
     members s = members r \<and> el_committed (rf_log s) = el_committed (rf_log r) \<and> rf_state r \<in> {Follower, Candidate}"

lemma quorum_members: "members a = members b \<Longrightarrow> quorum a = quorum b"
  by (simp add: quorum_def numVotingMembers_def members_def)

lemma request_votes:
  assumes "foldo (request_vote tm hint) ks r = Some r'" and "rf_term r = tm"
  shows "standing r' = standing r \<and> members r' = members r \<and> rf_log r' = rf_log r \<and>
    (\<exists>ms. rf_msgs r' = rf_msgs r @ ms \<and> (\<forall>m \<in> set ms. m_From m = rf_nodeID r \<and> m_Type m = RequestVote \<and> m_Term m = tm))"
  using assms(1)
proof (rule foldo_inv)
  fix k s s'
  assume h: "request_vote tm hint k s = Some s'" and i: "standing s = standing r \<and> members s = members r \<and> rf_log s = rf_log r \<and>
    (\<exists>ms. rf_msgs s = rf_msgs r @ ms \<and> (\<forall>m \<in> set ms. m_From m = rf_nodeID r \<and> m_Type m = RequestVote \<and> m_Term m = tm))"
  then have t: "rf_nodeID s = rf_nodeID r" "rf_term s = tm" using assms(2) by (simp_all add: standing_def)
  show "standing s' = standing r \<and> members s' = members r \<and> rf_log s' = rf_log r \<and>
    (\<exists>ms. rf_msgs s' = rf_msgs r @ ms \<and> (\<forall>m \<in> set ms. m_From m = rf_nodeID r \<and> m_Type m = RequestVote \<and> m_Term m = tm))"
  proof (cases "k = rf_nodeID s")
    case True
    then show ?thesis using h i by (simp add: request_vote_def)
  next
    case False
    then obtain m where "s' = s\<lparr>rf_msgs := rf_msgs s @ [m]\<rparr>" "m_From m = rf_nodeID r" "m_Type m = RequestVote" "m_Term m = tm"
      using h t by (auto simp: request_vote_def send_Some isRequestMessage_def elim!: bind_SomeE)
    with i show ?thesis by (auto simp: standing_def members_def)
  qed
qed simp

lemma campaign_cases:
  assumes "campaign r = Some r'"
  obtains (won) s where "candidacy r s" and "rf_msgs s = rf_msgs r" and "quorum r = 1" and "takes_office s r'"
    | (asked) ms where "candidacy r r'" and "rf_msgs r' = rf_msgs r @ ms"
        and "\<And>m. m \<in> set ms \<Longrightarrow> m_From m = rf_nodeID r \<and> m_Type m = RequestVote \<and> m_Term m = rf_term r + 1"
proof -
  obtain r1 where r1: "becomeCandidate r = Some r1" using assms by (auto simp: campaign_def elim: bind_SomeE)
  note c = becomeCandidate_effect [OF r1]
  define s where "s = fst (handleVoteResp (notify (CampaignLaunched (rf_term r1)) r1) (rf_nodeID r1) False)"
  have s: "candidacy r s" "rf_msgs s = rf_msgs r"
    using c by (auto simp: s_def candidacy_def handleVoteResp_def Let_def standing_def members_def)
  have q: "quorum s = quorum r" using s(1) by (intro quorum_members) (simp add: candidacy_def)
  show ?thesis
  proof (cases "isSingleNodeQuorum s")
    case True
    then have "takes_office s r'"
      using assms r1 by (auto simp: campaign_def Let_def s_def dest: becomeLeader_takes_office)
    with won s q True show ?thesis by (simp add: isSingleNodeQuorum_def)
  next
    case False
    define s1 where "s1 = s\<lparr>rf_isLeaderTransferTarget := False\<rparr>"
    have s1: "rf_term s1 = rf_term r1" "standing s1 = standing s" "members s1 = members s" "rf_msgs s1 = rf_msgs r"
      "rf_log s1 = rf_log s"
      using c(1) s by (simp_all add: s1_def candidacy_def standing_def members_def)
    obtain hint where f: "foldo (request_vote (rf_term r1) hint) (keys (votingMembers s1)) s1 = Some r'"
      using assms r1 False unfolding campaign_def Let_def s1_def s_def by auto
    from request_votes [OF f s1(1)] s1 s c show ?thesis
      by (auto simp: candidacy_def standing_def intro!: asked)
  qed
qed

lemma candidacy_ahead: "candidacy r s \<Longrightarrow> ahead r s"
  by (auto simp: candidacy_def ahead_def standing_def)

lemma campaign_ahead: "campaign r = Some r' \<Longrightarrow> ahead r r'"
  by (erule campaign_cases) (blast intro: ahead_trans candidacy_ahead takes_office_ahead)+

lemma handleNodeElection_ahead: "handleNodeElection r m = Some r' \<Longrightarrow> ahead r r'"
  unfolding handleNodeElection_def
  by (auto split: if_splits dest: campaign_ahead) (rule quiet_ahead [OF notify_quiet])

text \<open>Answering a request for a vote: the node records a vote only when it has none or the same one.\<close>

lemma handleNodeRequestVote_cases:
  assumes "handleNodeRequestVote r m = Some r'" and "m_Term m \<le> rf_term r"
  obtains (grant) g where "rf_vote r = NoNode \<or> rf_vote r = m_From m" and "rf_vote r' = m_From m"
      and "m_Type g = RequestVoteResp" and "m_From g = rf_nodeID r" and "m_To g = m_From m" and "m_Term g = rf_term r"
      and "\<not> m_Reject g" and "rf_msgs r' = rf_msgs r @ [g]"
      and "r' = r\<lparr>rf_electionTick := 0, rf_vote := m_From m, rf_msgs := rf_msgs r @ [g]\<rparr>"
    | (reject) g where "m_Type g = RequestVoteResp" and "m_Reject g" and "m_From g = rf_nodeID r" and "m_Term g = rf_term r"
      and "r' = r\<lparr>rf_msgs := rf_msgs r @ [g]\<rparr>"
proof -
  obtain u where h: "(if canGrantVote r m \<and> u
      then send (r\<lparr>rf_electionTick := 0, rf_vote := m_From m\<rparr>) ((msg RequestVoteResp)\<lparr>m_To := m_From m\<rparr>)
      else send r ((msg RequestVoteResp)\<lparr>m_To := m_From m, m_Reject := True\<rparr>)) = Some r'"
    using assms(1) unfolding handleNodeRequestVote_def Let_def by (auto elim!: bind_SomeE)
  show ?thesis
  proof (cases "canGrantVote r m \<and> u")
    case True
    define g where "g = (msg RequestVoteResp)\<lparr>m_To := m_From m, m_From := rf_nodeID r, m_Term := rf_term r\<rparr>"
    have r': "r' = r\<lparr>rf_electionTick := 0, rf_vote := m_From m, rf_msgs := rf_msgs r @ [g]\<rparr>"
      using h True by (simp add: send_Some isRequestMessage_def g_def)
    show ?thesis using True assms(2) by (intro grant [of g]) (simp_all add: canGrantVote_def g_def r')
  next
    case False
    define g where "g = (msg RequestVoteResp)\<lparr>m_To := m_From m, m_Reject := True, m_From := rf_nodeID r, m_Term := rf_term r\<rparr>"
    have r': "r' = r\<lparr>rf_msgs := rf_msgs r @ [g]\<rparr>"
      using h False by (auto simp: send_Some isRequestMessage_def g_def)
    show ?thesis by (intro reject [of g]) (simp_all add: g_def r')
  qed
qed

lemma handleNodeRequestVote_ahead: "handleNodeRequestVote r m = Some r' \<Longrightarrow> m_Term m \<le> rf_term r \<Longrightarrow> ahead r r'"
  by (erule (1) handleNodeRequestVote_cases) (auto simp: ahead_def)

lemma handleVoteResp_effect:
  assumes "handleVoteResp r i rej = (r1, n)"
  shows "rf_nodeID r1 = rf_nodeID r" "rf_term r1 = rf_term r" "rf_vote r1 = rf_vote r" "rf_state r1 = rf_state r"
    "rf_log r1 = rf_log r" "members r1 = members r" "rf_msgs r1 = rf_msgs r" "n = granted r1"
    "rf_votes r1 = (if i |\<in>| fmdom (rf_votes r) then rf_votes r else fmupd i (\<not> rej) (rf_votes r))"
  using assms by (auto simp: handleVoteResp_def Let_def members_def split: if_splits)

lemma handleCandidateRequestVoteResp_cases:
  assumes "handleCandidateRequestVoteResp r m = Some r'"
  obtains (ignored) "r' = r"
    | (counted) r1 where "handleVoteResp r (m_From m) (m_Reject m) = (r1, granted r1)" and "m_From m |\<notin>| fmdom (rf_observers r)"
        and "r' = r1 \<or> yields r1 r' \<or> granted r1 = quorum r1 \<and> takes_office r1 r'"
proof (cases "m_From m |\<in>| fmdom (rf_observers r)")
  case True
  then show ?thesis using assms ignored by (simp add: handleCandidateRequestVoteResp_def)
next
  case False
  obtain r1 n where v: "handleVoteResp r (m_From m) (m_Reject m) = (r1, n)" by fastforce
  have n: "n = granted r1" by (rule handleVoteResp_effect(8) [OF v])
  have "r' = r1 \<or> yields r1 r' \<or> granted r1 = quorum r1 \<and> takes_office r1 r'"
  proof (cases "n = quorum r1")
    case True
    then obtain r2 where "becomeLeader r1 = Some r2" "broadcastReplicateMessage r2 = Some r'"
      using assms False v by (auto simp: handleCandidateRequestVoteResp_def elim: bind_SomeE)
    then have "takes_office r1 r'"
      by (blast intro: takes_office_quiet becomeLeader_takes_office broadcastReplicateMessage_quiet)
    with True n show ?thesis by simp
  next
    case no: False
    then have "r' = r1 \<or> becomeFollower r1 (rf_term r1) NoLeader = Some r'"
      using assms False v by (simp add: handleCandidateRequestVoteResp_def split: if_splits)
    then show ?thesis using becomeFollower_yields by blast
  qed
  with v n False counted show ?thesis by blast
qed

lemma handleCandidateRequestVoteResp_ahead: "handleCandidateRequestVoteResp r m = Some r' \<Longrightarrow> ahead r r'"
proof (erule handleCandidateRequestVoteResp_cases)
  fix r1 assume v: "handleVoteResp r (m_From m) (m_Reject m) = (r1, granted r1)"
    and r': "r' = r1 \<or> yields r1 r' \<or> granted r1 = quorum r1 \<and> takes_office r1 r'"
  have "ahead r r1" using handleVoteResp_effect [OF v] by (simp add: ahead_def)
  moreover have "ahead r1 r'" using r' yields_ahead takes_office_ahead by blast
  ultimately show ?thesis by (rule ahead_trans)
qed simp

subsection \<open>Membership changes\<close>

lemma becomeFollower_same_ahead: "becomeFollower r (rf_term r) i = Some r' \<Longrightarrow> ahead r r'"
  using becomeFollower_yields [of r "rf_term r" i r'] yields_ahead by blast

lemma ahead_left:
  assumes "rf_nodeID a = rf_nodeID b" "rf_term a = rf_term b" "rf_vote a = rf_vote b" "rf_state a = rf_state b"
    "el_committed (rf_log a) = el_committed (rf_log b)"
  shows "ahead a r' = ahead b r'"
  using assms by (simp add: ahead_def)

lemma ahead_left_simps [simp]:
  "ahead (clearPendingConfigChange r) r' = ahead r r'" "ahead (abortLeaderTransfer r) r' = ahead r r'"
  "ahead (deleteRemote i r) r' = ahead r r'" "ahead (deleteObserver i r) r' = ahead r r'" "ahead (deleteWitness i r) r' = ahead r r'"
  "ahead (r\<lparr>rf_remotes := m\<rparr>) r' = ahead r r'"
  by (rule ahead_left; simp add: clearPendingConfigChange_def abortLeaderTransfer_def deleteRemote_def deleteObserver_def
      deleteWitness_def)+

lemma ahead_fields:
  "rf_nodeID r' = rf_nodeID r \<Longrightarrow> rf_term r' = rf_term r \<Longrightarrow> rf_vote r' = rf_vote r \<Longrightarrow> rf_state r' = rf_state r \<Longrightarrow>
   el_committed (rf_log r') = el_committed (rf_log r) \<Longrightarrow> ahead r r'"
  by (simp add: ahead_def)

lemma ahead_set [simp]:
  "ahead r (setRemote r i a b)" "ahead r (setObserver r i a b)" "ahead r (setWitness r i a b)"
  "ahead r (clearPendingConfigChange r)" "ahead r (abortLeaderTransfer r)" "ahead r (deleteObserver i r)" "ahead r (resetMatchValueArray r)"
  "ahead r (r\<lparr>rf_remotes := mm\<rparr>)" "ahead r (r\<lparr>rf_observers := mm\<rparr>)" "ahead r (r\<lparr>rf_witnesses := mm\<rparr>)"
  by (rule ahead_fields; simp add: setRemote_def setObserver_def setWitness_def clearPendingConfigChange_def
      abortLeaderTransfer_def deleteObserver_def resetMatchValueArray_def)+

lemma addNode_ahead:
  assumes "addNode r0 i = Some r'" shows "ahead r0 r'"
proof -
  define r where "r = clearPendingConfigChange r0"
  have "ahead r r'"
  proof (cases "fmlookup (rf_observers r) i")
    case None
    then show ?thesis using assms by (auto simp: addNode_def Let_def r_def [symmetric] split: if_splits)
  next
    case (Some rp)
    define r2 where "r2 = (deleteObserver i r)\<lparr>rf_remotes := fmupd i rp (rf_remotes (deleteObserver i r))\<rparr>"
    have "r' = r \<or> r' = r2 \<or> becomeFollower r2 (rf_term r2) (rf_leaderID r2) = Some r'"
      using assms Some by (auto simp: addNode_def Let_def r_def [symmetric] r2_def split: if_splits)
    moreover have "ahead r r2" unfolding r2_def
      by (rule ahead_trans [of _ "deleteObserver i r"]) simp_all
    ultimately show ?thesis using becomeFollower_same_ahead ahead_trans by blast
  qed
  then show ?thesis by (simp add: r_def)
qed

lemma addObserver_ahead: "addObserver r0 i = Some r' \<Longrightarrow> ahead r0 r'"
  unfolding addObserver_def Let_def
  by (auto split: if_splits intro: ahead_trans [of _ "clearPendingConfigChange r0"])

lemma addWitness_ahead: "addWitness r0 i = Some r' \<Longrightarrow> ahead r0 r'"
  unfolding addWitness_def Let_def
  by (auto split: if_splits intro: ahead_trans [of _ "clearPendingConfigChange r0"])

lemma removeNode_ahead:
  assumes "removeNode r i = Some r'" shows "ahead r r'"
proof -
  define r1 where "r1 = clearPendingConfigChange (deleteWitness i (deleteObserver i (deleteRemote i r)))"
  obtain r2 r3 where r2: "(if rf_nodeID r1 = i \<and> isLeader r1 then becomeFollower r1 (rf_term r1) NoLeader else Some r1) = Some r2"
    and r3: "r3 = (if leaderTransfering r2 \<and> rf_leaderTransferTarget r2 = i then abortLeaderTransfer r2 else r2)"
    and r': "(if isLeader r3 \<and> numVotingMembers r3 > 0
         then do { (r4, ok) \<leftarrow> tryCommit r3; if ok then broadcastReplicateMessage r4 else Some r4 } else Some r3) = Some r'"
    using assms unfolding removeNode_def Let_def r1_def [symmetric] by (elim bind_SomeE) (rule that [OF _ refl])
  have "r' = r3 \<or> (\<exists>r4 ok. tryCommit r3 = Some (r4, ok) \<and> (r' = r4 \<or> broadcastReplicateMessage r4 = Some r'))"
    using r' by (auto elim!: bind_SomeE split: if_splits)
  then have "ahead r3 r'"
    using tryCommit_quiet broadcastReplicateMessage_quiet quiet_ahead ahead_trans ahead_refl by metis
  moreover have "ahead r r1" by (rule ahead_fields) (simp_all add: r1_def clearPendingConfigChange_def deleteWitness_def
        deleteObserver_def deleteRemote_def)
  moreover have "ahead r1 r2" using r2 becomeFollower_same_ahead by (auto split: if_splits)
  moreover have "ahead r2 r3" by (simp add: r3)
  ultimately show ?thesis by (blast intro: ahead_trans)
qed

lemma handleNodeConfigChange_ahead: "handleNodeConfigChange r m = Some r' \<Longrightarrow> ahead r r'"
  unfolding handleNodeConfigChange_def
  by (auto split: if_splits option.splits config_change_type.splits
      dest: addNode_ahead addObserver_ahead addWitness_ahead removeNode_ahead)

lemma fold_ahead: "(\<And>x s. ahead s (f x s)) \<Longrightarrow> ahead r (fold f xs r)"
  by (induction xs arbitrary: r) (auto intro: ahead_trans)

lemma restore_member_ahead: "restore_member i r = Some r' \<Longrightarrow> ahead r r'"
  unfolding restore_member_def
  by (auto elim!: bind_SomeE split: if_splits dest!: becomeFollower_same_ahead) (blast intro: ahead_trans ahead_set)

lemma restoreRemotes_ahead:
  assumes "restoreRemotes r ss = Some r'" shows "ahead r r'"
proof -
  let ?obs = "\<lambda>i s. setObserver s i (restored_match s i) (lastIndex (rf_log s) + 1)"
  let ?wit = "\<lambda>i s. setWitness s i (restored_match s i) (lastIndex (rf_log s) + 1)"
  obtain r1 r2 where r1: "foldo restore_member (keys (mb_Addresses (ss_Membership ss))) (r\<lparr>rf_remotes := fmempty\<rparr>) = Some r1"
    and r2: "(if selfRemoved r1 \<and> isLeader r1 then becomeFollower r1 (rf_term r1) NoLeader else Some r1) = Some r2"
    and r': "Some (resetMatchValueArray (fold ?wit (keys (mb_Witnesses (ss_Membership ss)))
      ((fold ?obs (keys (mb_Observers (ss_Membership ss))) (r2\<lparr>rf_observers := fmempty\<rparr>))\<lparr>rf_witnesses := fmempty\<rparr>))) = Some r'"
    using assms unfolding restoreRemotes_def Let_def by (elim bind_SomeE) (rule that)
  define r3 where "r3 = fold ?obs (keys (mb_Observers (ss_Membership ss))) (r2\<lparr>rf_observers := fmempty\<rparr>)"
  define r4 where "r4 = fold ?wit (keys (mb_Witnesses (ss_Membership ss))) (r3\<lparr>rf_witnesses := fmempty\<rparr>)"
  have "ahead (r\<lparr>rf_remotes := fmempty\<rparr>) r1" using r1 by (rule foldo_ahead) (rule restore_member_ahead)
  then have "ahead r r1" by simp
  moreover have "ahead r1 r2" using r2 becomeFollower_same_ahead by (auto split: if_splits)
  moreover have "ahead r2 r3" unfolding r3_def by (rule ahead_trans [OF ahead_set(9)]) (rule fold_ahead, simp)
  moreover have "ahead r3 r4" unfolding r4_def by (rule ahead_trans [OF ahead_set(10)]) (rule fold_ahead, simp)
  moreover have "ahead r4 r'" using r' unfolding r3_def [symmetric] r4_def [symmetric] by auto
  ultimately show ?thesis by (blast intro: ahead_trans)
qed

subsection \<open>The clock\<close>

lemma Handle0_calm:
  assumes "Handle0 r m = Some r'" and "calm_type (m_Type m)" shows "calm r r'"
  using assms(1) unfolding Handle0_def
  by (rule Handle_with_cases) (blast intro: calm_trans handlers0_calm [OF _ _ assms(2)])+

lemma set_of_kind_quiet: "fmlookup (map_of_kind k r) i = Some rp0 \<Longrightarrow> quiet r (set_of_kind k i rp r)"
  by (cases k; rule quietI) (simp_all add: standing_def members_def finsert_absorb fmdomI)

lemma check_ack_calm:
  assumes "check_ack k i r = Some r'" shows "calm r r'"
proof -
  obtain rp where rp: "fmlookup (map_of_kind k r) i = Some rp" using assms by (auto simp: check_ack_def elim: bind_SomeE)
  obtain a due where a: "ack_tick (rm_delayed rp) = (a, due)" by fastforce
  define r1 where "r1 = set_of_kind k i (rp\<lparr>rm_delayed := a\<rparr>) r"
  have q1: "calm r r1" unfolding r1_def using rp by (rule quiet_calm [OF set_of_kind_quiet])
  show ?thesis
  proof (cases "rm_state rp = RemoteSnapshot \<and> due")
    case True
    then obtain r2 rp2 where r2: "Handle0 r1 ((msg SnapshotStatus)\<lparr>m_From := i, m_Reject := rejected a, m_Hint := 0\<rparr>) = Some r2"
      and rp2: "fmlookup (map_of_kind k r2) i = Some rp2" and r': "r' = set_of_kind k i (clearSnapshotAck rp2) r2"
      using assms rp a unfolding check_ack_def r1_def by (auto elim!: bind_SomeE)
    have "calm r1 r2" using r2 by (rule Handle0_calm) (simp add: calm_type_def)
    moreover have "calm r2 r'" unfolding r' using rp2 by (rule quiet_calm [OF set_of_kind_quiet])
    ultimately show ?thesis using q1 by (blast intro: calm_trans)
  next
    case False
    then have "r' = r \<or> r' = r1\<lparr>rf_snapshotting := True\<rparr>"
      using assms rp a unfolding check_ack_def r1_def by (auto split: if_splits)
    moreover have "calm r1 (r1\<lparr>rf_snapshotting := True\<rparr>)" by (rule quiet_calm, rule quiet_fields) simp_all
    ultimately show ?thesis using q1 by (blast intro: calm_trans)
  qed
qed

lemma foldo_calm:
  assumes "foldo f xs r = Some r'" and "\<And>x s s'. f x s = Some s' \<Longrightarrow> calm s s'" shows "calm r r'"
  using assms(1) by (rule foldo_inv [where P = "calm r"]) (auto intro: calm_trans assms(2))

lemma checkPendingSnapshotAck_calm:
  assumes "checkPendingSnapshotAck r = Some r'" shows "calm r r'"
proof (cases "isLeader r \<and> rf_snapshotting r")
  case True
  then obtain r1 r2 where "foldo (check_ack InRemotes) (keys (rf_remotes r)) (r\<lparr>rf_snapshotting := False\<rparr>) = Some r1"
    "foldo (check_ack InObservers) (keys (rf_observers r1)) r1 = Some r2"
    "foldo (check_ack InWitnesses) (keys (rf_witnesses r2)) r2 = Some r'"
    using assms unfolding checkPendingSnapshotAck_def by (auto elim!: bind_SomeE)
  then have "calm (r\<lparr>rf_snapshotting := False\<rparr>) r1" "calm r1 r2" "calm r2 r'"
    using foldo_calm check_ack_calm by blast+
  moreover have "calm r (r\<lparr>rf_snapshotting := False\<rparr>)" by (rule quiet_calm, rule quiet_fields) simp_all
  ultimately show ?thesis by (blast intro: calm_trans)
next
  case False
  then show ?thesis using assms unfolding checkPendingSnapshotAck_def by (auto split: if_splits)
qed

lemma tick_field_calm [simp]:
  "calm r (r\<lparr>rf_electionTick := n\<rparr>)" "calm r (r\<lparr>rf_heartbeatTick := n\<rparr>)" "calm r (update_rl f r)" "calm r (abortLeaderTransfer r)"
  by (auto intro!: quiet_calm update_rl_quiet reports_quiet quiet_fields)

lemma leaderTick_calm:
  assumes "leaderTick r = Some r'" shows "calm r r'"
proof -
  define r1 where "r1 = r\<lparr>rf_electionTick := rf_electionTick r + 1\<rparr>"
  define r2 where "r2 = (if timeForRateLimitCheck r1 \<and> rl_enabled r1 then update_rl il_Tick r1 else r1)"
  define c where "c = r2\<lparr>rf_electionTick := 0\<rparr>"
  obtain r3 r4 r5 r6 where r3: "(if timeForCheckQuorum r2 then if rf_checkQuorum c
        then Handle0 c ((msg CheckQuorum)\<lparr>m_From := rf_nodeID c\<rparr>) else Some c else Some r2) = Some r3"
    and r4: "r4 = (if timeToAbortLeaderTransfer r2 then abortLeaderTransfer r3 else r3)"
    and r5: "r5 = r4\<lparr>rf_heartbeatTick := rf_heartbeatTick r4 + 1\<rparr>"
    and r6: "(if timeForHearbeat r5 then Handle0 (r5\<lparr>rf_heartbeatTick := 0\<rparr>) ((msg LeaderHeartbeat)\<lparr>m_From := rf_nodeID r5\<rparr>)
      else Some r5) = Some r6"
    and r': "checkPendingSnapshotAck r6 = Some r'"
    using assms unfolding leaderTick_def mustBeLeader_bind Let_def r1_def [symmetric] r2_def [symmetric] c_def [symmetric]
    by (elim conjE bind_SomeE) (rule that [OF _ refl refl])
  have "calm r r1" "calm r1 r2" "calm r2 c" "calm r3 r4" "calm r4 r5" by (simp_all add: r1_def r2_def c_def r4 r5)
  moreover have "c = r3 \<or> calm c r3 \<or> r2 = r3"
    using r3 Handle0_calm [of c _ r3] by (auto simp: calm_type_def split: if_splits)
  moreover have "calm r5 r6"
  proof -
    have "r6 = r5 \<or> calm (r5\<lparr>rf_heartbeatTick := 0\<rparr>) r6"
      using r6 Handle0_calm [of "r5\<lparr>rf_heartbeatTick := 0\<rparr>" _ r6]
      by (auto simp: calm_type_def split: if_splits)
    then show ?thesis by (metis calm_refl calm_trans tick_field_calm(2))
  qed
  moreover have "calm r6 r'" using r' by (rule checkPendingSnapshotAck_calm)
  ultimately show ?thesis by (metis calm_trans)
qed

lemma nonLeaderTick_cases:
  assumes "nonLeaderTick r = Some r'"
  obtains "calm r r'"
    | s m where "calm r s" and "rf_nodeID s |\<in>| fmdom (rf_remotes s)" and "handleNodeElection s m = Some r'"
proof -
  define r1 where "r1 = r\<lparr>rf_electionTick := rf_electionTick r + 1\<rparr>"
  obtain r2 where r2: "(if timeForRateLimitCheck r1 \<and> rl_enabled r1 then sendRateLimitMessage (update_rl il_Tick r1) else Some r1) = Some r2"
    and r': "(if isObserver r2 \<or> isWitness r2 then Some r2
      else if \<not> selfRemoved r2 \<and> timeForElection r2
      then Handle0 (r2\<lparr>rf_electionTick := 0\<rparr>) ((msg Election)\<lparr>m_From := rf_nodeID r2\<rparr>) else Some r2) = Some r'"
    using assms unfolding nonLeaderTick_def Let_def r1_def [symmetric] by (auto split: if_split_asm elim!: bind_SomeE)
  have c: "calm r r2"
  proof -
    have "r2 = r1 \<or> quiet (update_rl il_Tick r1) r2" using r2 by (auto split: if_splits dest: sendRateLimitMessage_quiet)
    then have "calm r1 r2" by (auto intro: quiet_calm)
    moreover have "calm r r1" by (simp add: r1_def)
    ultimately show ?thesis by (blast intro: calm_trans)
  qed
  define s where "s = r2\<lparr>rf_electionTick := 0\<rparr>"
  show ?thesis
  proof (cases "\<not> isObserver r2 \<and> \<not> isWitness r2 \<and> \<not> selfRemoved r2 \<and> timeForElection r2")
    case True
    then have h: "Handle0 s ((msg Election)\<lparr>m_From := rf_nodeID r2\<rparr>) = Some r'" using r' by (simp add: s_def)
    have self: "rf_nodeID s |\<in>| fmdom (rf_remotes s)" using True by (auto simp: s_def selfRemoved_def)
    have cs: "calm r s" using c by (rule calm_trans) (simp add: s_def)
    show ?thesis
      using h unfolding Handle0_def
    proof (rule Handle_with_cases)
      assume "calm s r'"
      with cs that(1) show ?thesis by (blast intro: calm_trans)
    next
      fix s' f assume e: "m_Term ((msg Election)\<lparr>m_From := rf_nodeID r2\<rparr>) = 0 \<or>
          m_Term ((msg Election)\<lparr>m_From := rf_nodeID r2\<rparr>) = rf_term s \<Longrightarrow> s' = s"
        and f: "handlers0 (rf_state s') (m_Type ((msg Election)\<lparr>m_From := rf_nodeID r2\<rparr>)) = Some f"
        and r': "f s' ((msg Election)\<lparr>m_From := rf_nodeID r2\<rparr>) = Some r'"
      have "f = handleNodeElection" using f by (auto simp: handlers0_def split: raft_role.splits)
      with e r' self cs that(2) show ?thesis by simp
    qed
  next
    case False
    then have "r' = r2" using r' by (auto split: if_splits)
    with c that(1) show ?thesis by simp
  qed
qed

lemma raft_tick_cases:
  assumes "raft_tick r = Some r'"
  obtains "calm r r'"
    | s m where "calm r s" and "rf_nodeID s |\<in>| fmdom (rf_remotes s)" and "handleNodeElection s m = Some r'"
proof -
  define r1 where "r1 = r\<lparr>rf_quiesce := False, rf_tickCount := rf_tickCount r + 1\<rparr>"
  have c: "calm r r1" unfolding r1_def by (rule quiet_calm, rule quiet_fields) simp_all
  have "leaderTick r1 = Some r' \<or> nonLeaderTick r1 = Some r'"
    using assms by (auto simp: raft_tick_def Let_def r1_def split: if_splits)
  then show ?thesis
  proof
    assume "leaderTick r1 = Some r'"
    then show ?thesis using c leaderTick_calm that(1) by (blast intro: calm_trans)
  next
    assume "nonLeaderTick r1 = Some r'"
    then show ?thesis by (rule nonLeaderTick_cases) (blast intro: that calm_trans c)+
  qed
qed

subsection \<open>Handling a message\<close>

lemma handlers0_special:
  "handlers0 st t = Some f \<Longrightarrow> \<not> calm_type t \<Longrightarrow>
   t = RequestVote \<and> f = handleNodeRequestVote \<or> t = RequestVoteResp \<and> st = Candidate \<and> f = handleCandidateRequestVoteResp \<or>
   t = Election \<and> f = handleNodeElection \<or> t = ConfigChangeEvent \<and> f = handleNodeConfigChange \<or>
   t = SnapshotReceived \<and> f = handleRestoreRemote"
  unfolding handlers0_def calm_type_def by (cases st; cases t) simp_all

text \<open>Everything a node does with a message is calm, or calm and then one of the five handlers below.\<close>

lemma Handle_cases:
  assumes "Handle r m = Some r'"
  obtains (calm) "calm r r'"
    | (election) s m' r1 where "calm r s" and "m_Type m = Election \<or> rf_nodeID s |\<in>| fmdom (rf_remotes s)"
        and "handleNodeElection s m' = Some r1" and "quiet r1 r'"
    | (request) s where "calm r s" and "m_Type m = RequestVote" and "m_Term m = 0 \<or> rf_term s = m_Term m"
        and "handleNodeRequestVote s m = Some r'"
    | (response) s where "calm r s" and "m_Type m = RequestVoteResp" and "m_Term m = 0 \<or> rf_term s = m_Term m"
        and "rf_state s = Candidate" and "handleCandidateRequestVoteResp s m = Some r'"
    | (config) s where "calm r s" and "m_Type m = ConfigChangeEvent" and "handleNodeConfigChange s m = Some r'"
    | (restore) s where "calm r s" and "m_Type m = SnapshotReceived" and "handleRestoreRemote s m = Some r'"
  using assms unfolding Handle_def
proof (rule Handle_with_cases)
  assume "calm r r'"
  then show ?thesis by (rule calm)
next
  fix s f
  assume c: "calm r s" and t: "m_Term m = 0 \<or> rf_term s = m_Term m" and f: "handlers (rf_state s) (m_Type m) = Some f"
    and r': "f s m = Some r'"
  consider (tick) "m_Type m = LocalTick" | (now) "rf_state s = Follower" "m_Type m = TimeoutNow"
    | (other) "m_Type m \<noteq> LocalTick" "handlers0 (rf_state s) (m_Type m) = Some f"
    using f by (auto simp: handlers_def split: if_splits)
  then show ?thesis
  proof cases
    case tick
    then have "r' = quiescedTick s \<or> raft_tick s = Some r'"
      using f r' by (auto simp: handlers_def handleLocalTick_def split: if_splits)
    moreover have "calm s (quiescedTick s)"
      by (rule quiet_calm) (auto simp: quiescedTick_def Let_def intro!: quiet_fields)
    ultimately show ?thesis using c calm election
      by (metis calm_trans quiet_refl raft_tick_cases)
  next
    case now
    define s0 where "s0 = s\<lparr>rf_electionTick := rf_randomizedElectionTimeout s, rf_isLeaderTransferTarget := True\<rparr>"
    obtain r1 where r1: "raft_tick s0 = Some r1" and eq: "r' = r1\<lparr>rf_isLeaderTransferTarget := False\<rparr>"
      using f r' now unfolding s0_def by (auto simp: handlers_def handleFollowerTimeoutNow_def elim!: bind_SomeE)
    have q: "quiet r1 r'" unfolding eq by (rule quiet_fields) simp_all
    have "calm s s0" unfolding s0_def by (rule quiet_calm, rule quiet_fields) simp_all
    then have "calm r s0" using c by (blast intro: calm_trans)
    then show ?thesis using raft_tick_cases [OF r1] q quiet_calm calm_trans calm election by metis
  next
    case other
    then consider "calm_type (m_Type m)" | "m_Type m = RequestVote" "f = handleNodeRequestVote"
      | "m_Type m = RequestVoteResp" "rf_state s = Candidate" "f = handleCandidateRequestVoteResp"
      | "m_Type m = Election" "f = handleNodeElection" | "m_Type m = ConfigChangeEvent" "f = handleNodeConfigChange"
      | "m_Type m = SnapshotReceived" "f = handleRestoreRemote"
      using handlers0_special by blast
    then show ?thesis
    proof cases
      case 1
      with other r' have "calm s r'" by (blast intro: handlers0_calm)
      with c calm show ?thesis by (blast intro: calm_trans)
    qed (use c t r' request response election config restore in \<open>blast intro: quiet_refl\<close>)+
  qed
qed

lemma Handle_ahead:
  assumes "Handle r m = Some r'" shows "ahead r r'"
  using assms
proof (cases rule: Handle_cases)
  case (election s m' r1)
  then show ?thesis using calm_ahead handleNodeElection_ahead quiet_ahead ahead_trans by metis
next
  case (request s)
  then have "ahead s r'" by (intro handleNodeRequestVote_ahead) auto
  with request show ?thesis using calm_ahead ahead_trans by blast
next
  case (response s)
  then show ?thesis using calm_ahead handleCandidateRequestVoteResp_ahead ahead_trans by blast
next
  case (config s)
  then show ?thesis using calm_ahead handleNodeConfigChange_ahead ahead_trans by blast
next
  case (restore s)
  then show ?thesis using calm_ahead restoreRemotes_ahead ahead_trans unfolding handleRestoreRemote_def by blast
qed (rule calm_ahead)

end
