(* ===== verification/Raft_Peer.thy ===== *)
theory Raft_Peer
  imports Raft_Handlers
begin

text \<open>
  The interface between a Raft node and the engine that runs it
  (\<^verbatim>\<open>internal/dragonboat/internal/raft/peer.go\<close>): inputs become messages of the node, and the node's
  output is an update that is persisted, applied and then committed back.

  The encoding of a configuration change is generated code; it is the parameter \<open>marshal\<close> of the two
  operations that propose one.
\<close>

record peer_address =
  pa_NodeID :: nat
  pa_Address :: string

record peer =
  p_raft :: raft
  p_prevState :: hard_state

record config_change =
  cc_ConfigChangeId :: nat
  cc_Type :: config_change_type
  cc_NodeID :: nat
  cc_Address :: string
  cc_Initialize :: bool

fun cc_num :: "config_change_type \<Rightarrow> nat" where
  "cc_num AddNode = 0"
| "cc_num RemoveNode = 1"
| "cc_num AddObserver = 2"
| "cc_num AddWitness = 3"

subsection \<open>Launching\<close>

definition checkLaunchRequest :: "raft_config \<Rightarrow> peer_address list \<Rightarrow> bool \<Rightarrow> bool \<Rightarrow> unit option" where
  "checkLaunchRequest c addresses initial newNode =
     (if cf_NodeID c = 0 then None
      else if initial \<and> newNode \<and> addresses = [] then None
      else if card (set (map pa_Address addresses)) \<noteq> length addresses then None
      else Some ())"

definition bootstrap_entry :: "(config_change \<Rightarrow> 8 word list) \<Rightarrow> nat \<times> peer_address \<Rightarrow> entry" where
  "bootstrap_entry marshal ip =
     empty_entry\<lparr>e_Type := ConfigChangeEntry, e_Term := 1, e_Index := fst ip + 1,
       e_Cmd := marshal \<lparr>cc_ConfigChangeId = 0, cc_Type = AddNode, cc_NodeID = pa_NodeID (snd ip),
         cc_Address = pa_Address (snd ip), cc_Initialize = True\<rparr>\<rparr>"

definition peer_bootstrap :: "(config_change \<Rightarrow> 8 word list) \<Rightarrow> raft \<Rightarrow> peer_address list \<Rightarrow> raft option" where
  "peer_bootstrap marshal r addresses =
     (let sorted_addresses = sort_key pa_NodeID addresses;
          ents = map (bootstrap_entry marshal) (List.enumerate 0 sorted_addresses)
      in do { l \<leftarrow> log_append (rf_log r) ents;
              foldo (\<lambda>a s. addNode s (pa_NodeID a)) sorted_addresses
                (r\<lparr>rf_log := l\<lparr>el_committed := length ents\<rparr>\<rparr>) })"

definition Launch :: "(config_change \<Rightarrow> 8 word list) \<Rightarrow> (nat \<Rightarrow> nat) \<Rightarrow> raft_config \<Rightarrow> log_reader \<Rightarrow>
    raft_event list option \<Rightarrow> peer_address list \<Rightarrow> bool \<Rightarrow> bool \<Rightarrow> peer option" where
  "Launch marshal rnd c logdb events addresses initial newNode =
     do { checkLaunchRequest c addresses initial newNode;
          r0 \<leftarrow> newRaft c logdb rnd;
          let r = r0\<lparr>rf_events := events\<rparr>;
          let lst = snd (GetRange logdb);
          r1 \<leftarrow> (if newNode \<and> \<not> cf_IsObserver c \<and> \<not> cf_IsWitness c then becomeFollower r 1 NoLeader else Some r);
          r2 \<leftarrow> (if initial \<and> newNode then peer_bootstrap marshal r1 addresses else Some r1);
          Some \<lparr>p_raft = r2, p_prevState = (if lst = 0 then emptyState else raftState r2)\<rparr> }"

subsection \<open>Inputs\<close>

definition on_raft :: "(raft \<Rightarrow> raft option) \<Rightarrow> peer \<Rightarrow> peer option" where
  "on_raft f p = map_option (\<lambda>r. p\<lparr>p_raft := r\<rparr>) (f (p_raft p))"

definition peer_Tick :: "peer \<Rightarrow> peer option" where
  "peer_Tick = on_raft (\<lambda>r. Handle r ((msg LocalTick)\<lparr>m_Reject := False\<rparr>))"

definition QuiescedTick :: "peer \<Rightarrow> peer option" where
  "QuiescedTick = on_raft (\<lambda>r. Handle r ((msg LocalTick)\<lparr>m_Reject := True\<rparr>))"

definition RequestLeaderTransfer :: "peer \<Rightarrow> nat \<Rightarrow> peer option" where
  "RequestLeaderTransfer p target =
     on_raft (\<lambda>r. Handle r ((msg LeaderTransfer)\<lparr>m_To := rf_nodeID r, m_Hint := target\<rparr>)) p"

definition ProposeEntries :: "peer \<Rightarrow> entry list \<Rightarrow> peer option" where
  "ProposeEntries p ents = on_raft (\<lambda>r. Handle r ((msg Propose)\<lparr>m_From := rf_nodeID r, m_Entries := ents\<rparr>)) p"

definition ProposeConfigChange :: "(config_change \<Rightarrow> 8 word list) \<Rightarrow> peer \<Rightarrow> config_change \<Rightarrow> nat \<Rightarrow> peer option" where
  "ProposeConfigChange marshal p cc key =
     on_raft (\<lambda>r. Handle r ((msg Propose)\<lparr>m_Entries :=
       [empty_entry\<lparr>e_Type := ConfigChangeEntry, e_Cmd := marshal cc, e_Key := key\<rparr>]\<rparr>)) p"

definition ApplyConfigChange :: "peer \<Rightarrow> config_change \<Rightarrow> peer option" where
  "ApplyConfigChange p cc =
     (if cc_NodeID cc = NoLeader then on_raft (\<lambda>r. Some (clearPendingConfigChange r)) p
      else on_raft (\<lambda>r. Handle r ((msg ConfigChangeEvent)\<lparr>m_Reject := False, m_Hint := cc_NodeID cc,
             m_HintHigh := cc_num (cc_Type cc)\<rparr>)) p)"

definition RejectConfigChange :: "peer \<Rightarrow> peer option" where
  "RejectConfigChange = on_raft (\<lambda>r. Handle r ((msg ConfigChangeEvent)\<lparr>m_Reject := True\<rparr>))"

definition RestoreRemotes :: "peer \<Rightarrow> raft_snapshot \<Rightarrow> peer option" where
  "RestoreRemotes p ss = on_raft (\<lambda>r. Handle r ((msg SnapshotReceived)\<lparr>m_Snapshot := ss\<rparr>)) p"

definition ReportUnreachableNode :: "peer \<Rightarrow> nat \<Rightarrow> peer option" where
  "ReportUnreachableNode p nodeID = on_raft (\<lambda>r. Handle r ((msg Unreachable)\<lparr>m_From := nodeID\<rparr>)) p"

definition ReportSnapshotStatus :: "peer \<Rightarrow> nat \<Rightarrow> bool \<Rightarrow> peer option" where
  "ReportSnapshotStatus p nodeID reject =
     on_raft (\<lambda>r. Handle r ((msg SnapshotStatus)\<lparr>m_From := nodeID, m_Reject := reject\<rparr>)) p"

definition peer_Handle :: "peer \<Rightarrow> message \<Rightarrow> peer option" where
  "peer_Handle p m =
     (if isLocalMessageType (m_Type m) then None
      else
        (let r = p_raft p
         in if m_From m |\<in>| fmdom (rf_remotes r) \<or> m_From m |\<in>| fmdom (rf_observers r) \<or>
               m_From m |\<in>| fmdom (rf_witnesses r) \<or> \<not> isResponseMessageType (m_Type m)
            then on_raft (\<lambda>r. Handle r m) p else Some p))"

definition peer_ReadIndex :: "peer \<Rightarrow> system_ctx \<Rightarrow> peer option" where
  "peer_ReadIndex p ctx =
     on_raft (\<lambda>r. Handle r ((msg ReadIndex)\<lparr>m_Hint := ctx_Low ctx, m_HintHigh := ctx_High ctx\<rparr>)) p"

definition NotifyRaftLastApplied :: "peer \<Rightarrow> nat \<Rightarrow> peer" where
  "NotifyRaftLastApplied p lastApplied = p\<lparr>p_raft := setApplied (p_raft p) lastApplied\<rparr>"

definition peer_RateLimited :: "peer \<Rightarrow> (peer \<times> bool) option" where
  "peer_RateLimited p =
     do { rl \<leftarrow> im_rl (el_inmem (rf_log (p_raft p)));
          let (rl', b) = RateLimited rl;
          Some (p\<lparr>p_raft := update_rl (\<lambda>_. rl') (p_raft p)\<rparr>, b) }"

subsection \<open>Updates\<close>

definition setFastApply :: "raft_update \<Rightarrow> raft_update" where
  "setFastApply ud =
     (if \<not> IsEmptySnapshot (ud_Snapshot ud) then ud\<lparr>ud_FastApply := False\<rparr>
      else if ud_CommittedEntries ud \<noteq> [] \<and> ud_EntriesToSave ud \<noteq> [] \<and>
              e_Index (last (ud_CommittedEntries ud)) \<ge> e_Index (hd (ud_EntriesToSave ud)) \<and>
              e_Index (last (ud_CommittedEntries ud)) \<le> e_Index (last (ud_EntriesToSave ud))
      then ud\<lparr>ud_FastApply := False\<rparr>
      else ud\<lparr>ud_FastApply := True\<rparr>)"

definition validateUpdate :: "raft_update \<Rightarrow> unit option" where
  "validateUpdate ud =
     (if hs_Commit (ud_State ud) > 0 \<and> ud_CommittedEntries ud \<noteq> [] \<and>
         e_Index (last (ud_CommittedEntries ud)) > hs_Commit (ud_State ud) then None
      else if ud_CommittedEntries ud \<noteq> [] \<and> ud_EntriesToSave ud \<noteq> [] \<and>
         e_Index (last (ud_CommittedEntries ud)) > e_Index (last (ud_EntriesToSave ud)) then None
      else Some ())"

definition empty_commit :: update_commit where
  "empty_commit = \<lparr>uc_Processed = 0, uc_LastApplied = 0, uc_StableLogTo = 0, uc_StableLogTerm = 0,
     uc_StableSnapshotTo = 0, uc_ReadyToRead = 0\<rparr>"

definition getUpdateCommit :: "raft_update \<Rightarrow> update_commit" where
  "getUpdateCommit ud =
     (let uc = empty_commit\<lparr>uc_ReadyToRead := length (ud_ReadyToReads ud), uc_LastApplied := ud_LastApplied ud\<rparr>;
          uc1 = (if ud_CommittedEntries ud \<noteq> []
                 then uc\<lparr>uc_Processed := e_Index (last (ud_CommittedEntries ud))\<rparr> else uc);
          uc2 = (if ud_EntriesToSave ud \<noteq> []
                 then uc1\<lparr>uc_StableLogTo := e_Index (last (ud_EntriesToSave ud)),
                          uc_StableLogTerm := e_Term (last (ud_EntriesToSave ud))\<rparr> else uc1)
      in if \<not> IsEmptySnapshot (ud_Snapshot ud)
         then uc2\<lparr>uc_StableSnapshotTo := ss_Index (ud_Snapshot ud),
                  uc_Processed := max (uc_Processed uc2) (ss_Index (ud_Snapshot ud))\<rparr>
         else uc2)"

text \<open>The ids written into the messages are written into the node's own slice of messages.\<close>

definition getUpdate :: "peer \<Rightarrow> bool \<Rightarrow> nat \<Rightarrow> (peer \<times> raft_update) option" where
  "getUpdate p moreToApply lastApplied =
     (let r = p_raft p; l = rf_log r; ms = map (\<lambda>m. m\<lparr>m_ClusterId := rf_clusterID r\<rparr>) (rf_msgs r)
      in do { committed_ents \<leftarrow> (if moreToApply then entriesToApply l else Some []);
              let ud = \<lparr>ud_ClusterID = rf_clusterID r, ud_NodeID = rf_nodeID r,
                 ud_State = (if isStateEqual (raftState r) (p_prevState p) then emptyState else raftState r),
                 ud_FastApply = True, ud_EntriesToSave = entriesToSave l, ud_CommittedEntries = committed_ents,
                 ud_MoreCommittedEntries =
                   (if committed_ents \<noteq> [] then hasMoreEntriesToApply l (e_Index (last committed_ents)) else False),
                 ud_Snapshot = (case im_snapshot (el_inmem l) of Some ss \<Rightarrow> ss | None \<Rightarrow> empty_snapshot),
                 ud_ReadyToReads = rf_readyToRead r, ud_Messages = ms, ud_LastApplied = lastApplied,
                 ud_UpdateCommit = empty_commit, ud_DroppedEntries = rf_droppedEntries r,
                 ud_DroppedReadIndexes = rf_droppedReadIndexes r\<rparr>;
              Some (p\<lparr>p_raft := r\<lparr>rf_msgs := ms\<rparr>\<rparr>, ud) })"

definition GetUpdate :: "peer \<Rightarrow> bool \<Rightarrow> nat \<Rightarrow> (peer \<times> raft_update) option" where
  "GetUpdate p moreToApply lastApplied =
     do { (p1, ud0) \<leftarrow> getUpdate p moreToApply lastApplied;
          validateUpdate ud0;
          let ud = setFastApply ud0;
          Some (p1, ud\<lparr>ud_UpdateCommit := getUpdateCommit ud\<rparr>) }"

definition peer_HasUpdate :: "peer \<Rightarrow> bool \<Rightarrow> bool" where
  "peer_HasUpdate p moreToApply =
     (let r = p_raft p; pst = raftState r
      in if entriesToSave (rf_log r) \<noteq> [] then True
         else if rf_msgs r \<noteq> [] then True
         else if moreToApply \<and> hasEntriesToApply (rf_log r) then True
         else if \<not> IsEmptyState pst \<and> \<not> isStateEqual pst (p_prevState p) then True
         else if (case im_snapshot (el_inmem (rf_log r)) of Some ss \<Rightarrow> \<not> IsEmptySnapshot ss | None \<Rightarrow> False) then True
         else if rf_readyToRead r \<noteq> [] then True
         else if rf_droppedEntries r \<noteq> [] then True
         else if rf_droppedReadIndexes r \<noteq> [] then True
         else False)"

definition HasEntryToApply :: "peer \<Rightarrow> bool" where
  "HasEntryToApply p = hasEntriesToApply (rf_log (p_raft p))"

definition peer_Commit :: "peer \<Rightarrow> raft_update \<Rightarrow> peer option" where
  "peer_Commit p ud =
     do { let r = (p_raft p)\<lparr>rf_msgs := [], rf_droppedEntries := [], rf_droppedReadIndexes := []\<rparr>;
          let prev = (if \<not> IsEmptyState (ud_State ud) then ud_State ud else p_prevState p);
          let r1 = (if uc_ReadyToRead (ud_UpdateCommit ud) > 0 then clearReadyToRead r else r);
          l \<leftarrow> log_commitUpdate (rf_log r1) (ud_UpdateCommit ud);
          Some \<lparr>p_raft = r1\<lparr>rf_log := l\<rparr>, p_prevState = prev\<rparr> }"

end
