(* ===== verification/Raft_Election.thy ===== *)
theory Raft_Election
  imports Raft_Steps Raft_Peer "HOL-Library.Code_Target_Nat"
begin

text \<open>
  Election safety: in a cluster whose members do not change, no term has two leaders.

  A cluster is a peer for every member, the set of all messages ever sent, from which any message may be
  delivered any number of times in any order or never, and, as a history variable, the votes cast so far. Its
  steps are the inputs of a peer, the delivery of a message, and the update cycle that hands messages to the
  transport. What the proof needs of quorums is the interface \<open>quorum_system\<close>: two of them meet.
\<close>

subsection \<open>Quorums\<close>

locale quorum_system =
  fixes quorum_of :: "'v fset \<Rightarrow> 'v fset \<Rightarrow> bool"
  assumes quorums_meet: "quorum_of V A \<Longrightarrow> quorum_of V B \<Longrightarrow> \<exists>v. v |\<in>| A \<and> v |\<in>| B"
begin

lemma one_winner:
  assumes "quorum_of V A" and "quorum_of V B"
    and "\<And>v. v |\<in>| A \<Longrightarrow> (v, t, c) \<in> H" and "\<And>v. v |\<in>| B \<Longrightarrow> (v, t, d) \<in> H"
    and "\<And>v a b. (v, t, a) \<in> H \<Longrightarrow> (v, t, b) \<in> H \<Longrightarrow> a = b"
  shows "c = d"
  using quorums_meet [OF assms(1,2)] assms(3-5) by blast

end

definition majority :: "nat fset \<Rightarrow> nat fset \<Rightarrow> bool" where
  "majority V Q \<longleftrightarrow> Q |\<subseteq>| V \<and> fcard V div 2 + 1 \<le> fcard Q"

interpretation majority: quorum_system majority
proof
  fix V A B assume a: "majority V A" and b: "majority V B"
  have "fcard (A |\<union>| B) \<le> fcard V" using a b by (intro fcard_mono) (auto simp: majority_def)
  moreover have "fcard A + fcard B = fcard (A |\<union>| B) + fcard (A |\<inter>| B)" by (rule fcard_funion_finter)
  moreover have "fcard V < fcard A + fcard B" using a b unfolding majority_def by linarith
  ultimately have "fcard (A |\<inter>| B) \<noteq> 0" by linarith
  then have "A |\<inter>| B \<noteq> {||}" by auto
  then show "\<exists>v. v |\<in>| A \<and> v |\<in>| B" by auto
qed

subsection \<open>What a node may claim\<close>

text \<open>A vote cast: by whom, in which term, for whom.\<close>

type_synonym ballot = "nat \<times> nat \<times> nat"

definition voters :: "raft \<Rightarrow> nat fset" where
  "voters r = fmdom (rf_remotes r) |\<union>| fmdom (rf_witnesses r)"

definition elected :: "ballot set \<Rightarrow> raft \<Rightarrow> bool" where
  "elected H r \<longleftrightarrow> (\<exists>Q. Q |\<subseteq>| voters r \<and> quorum r \<le> fcard Q \<and> (\<forall>j. j |\<in>| Q \<longrightarrow> (j, rf_term r, rf_nodeID r) \<in> H))"

definition honest :: "ballot set \<Rightarrow> message \<Rightarrow> bool" where
  "honest H m \<longleftrightarrow> m_From m \<noteq> NoNode \<and> m_Type m \<notin> {ConfigChangeEvent, SnapshotReceived} \<and>
     (m_Type m \<in> {RequestVote, RequestVoteResp} \<longrightarrow> m_Term m > 0) \<and>
     (m_Type m = RequestVoteResp \<and> \<not> m_Reject m \<longrightarrow> (m_From m, m_Term m, m_To m) \<in> H)"

definition recorded :: "ballot set \<Rightarrow> raft \<Rightarrow> bool" where
  "recorded H r \<longleftrightarrow> (rf_vote r \<noteq> NoNode \<longrightarrow> (rf_nodeID r, rf_term r, rf_vote r) \<in> H)"

definition sound :: "ballot set \<Rightarrow> raft \<Rightarrow> bool" where
  "sound H r \<longleftrightarrow> rf_nodeID r \<noteq> NoNode \<and> recorded H r \<and>
     (rf_state r = Candidate \<longrightarrow> (\<forall>j. fmlookup (rf_votes r) j = Some True \<longrightarrow> j |\<in>| voters r \<and> (j, rf_term r, rf_nodeID r) \<in> H)) \<and>
     (rf_state r = Leader \<longrightarrow> elected H r) \<and> (\<forall>m \<in> set (rf_msgs r). honest H m)"

lemma voters_members: "members a = members b \<Longrightarrow> voters a = voters b"
  by (simp add: voters_def members_def)

lemma elected_cong:
  "members a = members b \<Longrightarrow> rf_term a = rf_term b \<Longrightarrow> rf_nodeID a = rf_nodeID b \<Longrightarrow> elected H a = elected H b"
  unfolding elected_def using voters_members quorum_members by metis

lemma honest_mono: "honest H m \<Longrightarrow> H \<subseteq> H' \<Longrightarrow> honest H' m"
  by (auto simp: honest_def)

lemma sound_mono:
  assumes "sound H r" and "H \<subseteq> H'" shows "sound H' r"
  using assms honest_mono [of H _ H'] unfolding sound_def recorded_def elected_def by blast

lemma sound_quiet:
  assumes "sound H r" and "quiet r r'" shows "sound H r'"
proof -
  obtain ms where ms: "rf_msgs r' = rf_msgs r @ ms" "\<And>m. m \<in> set ms \<Longrightarrow> m_From m = rf_nodeID r \<and> \<not> reserved_message m"
    and eq: "rf_nodeID r' = rf_nodeID r" "rf_term r' = rf_term r" "rf_vote r' = rf_vote r" "rf_state r' = rf_state r"
      "rf_votes r' = rf_votes r" "members r' = members r"
    using assms(2) by (auto simp: quiet_def standing_def)
  have "honest H m" if "m \<in> set ms" for m 
    using ms(2) [OF that] assms(1) by (simp add: honest_def reserved_message_def sound_def)
  then show ?thesis
    using assms(1) elected_cong [OF eq(6,2,1)] voters_members [OF eq(6)] unfolding sound_def recorded_def eq ms(1) by auto
qed

lemma sound_yields:
  assumes "sound H r" and "yields r r'" shows "sound H r'"
proof -
  have "recorded H r'" using assms unfolding sound_def recorded_def yields_def
    by (elim conjE disjE) (simp_all add: NoLeader_def NoNode_def)
  moreover have "rf_state r' \<noteq> Candidate" "rf_state r' \<noteq> Leader" using assms(2) by (auto simp: yields_def)
  ultimately show ?thesis using assms by (simp add: sound_def yields_def)
qed

lemma sound_calm: "calm r r' \<Longrightarrow> sound H r \<Longrightarrow> sound H r'"
  by (induction rule: calm_induct) (blast intro: sound_quiet sound_yields)+

subsection \<open>Winning an election\<close>

lemma granted_card: "\<exists>Q. fcard Q = granted r \<and> (\<forall>j. j |\<in>| Q \<longleftrightarrow> fmlookup (rf_votes r) j = Some True)"
proof -
  let ?xs = "map fst (filter snd (sorted_bindings (rf_votes r)))"
  have "distinct (map fst (sorted_bindings (rf_votes r)))" by simp
  then have d: "distinct ?xs" by (rule distinct_map_filter)
  have "fcard (fset_of_list ?xs) = granted r"
    using distinct_card [OF d] by (simp only: granted_def fcard.rep_eq fset_of_list.rep_eq length_map)
  moreover have "j |\<in>| fset_of_list ?xs \<longleftrightarrow> fmlookup (rf_votes r) j = Some True" for j
    using set_sorted_bindings [of j True "rf_votes r"] by (force simp: fset_of_list_elem)
  ultimately show ?thesis by blast
qed

lemma sound_takes_office:
  assumes "takes_office r r'" and s: "sound H r" and q: "quorum r \<le> granted r" and "rf_state r = Candidate"
  shows "sound H r'"
proof -
  obtain s where st: "standing s = (rf_nodeID r, rf_term r, rf_vote r, Leader, fmempty)" and m: "members s = members r"
    and ms: "rf_msgs s = rf_msgs r" and qs: "quiet s r'"
    using assms(1) unfolding takes_office_def by blast
  obtain Q where Q: "fcard Q = granted r" "\<And>j. j |\<in>| Q \<longleftrightarrow> fmlookup (rf_votes r) j = Some True"
    using granted_card [of r] by blast
  have "elected H r" unfolding elected_def
    using Q q s assms(4) by (intro exI [of _ Q]) (auto simp: sound_def)
  then have "elected H s" using elected_cong [OF m] st by (simp add: standing_def)
  then have "sound H s" using s st ms by (simp add: sound_def recorded_def standing_def)
  then show ?thesis using qs by (rule sound_quiet)
qed

lemma candidacy_sound:
  assumes c: "candidacy r s" and "rf_msgs s = rf_msgs r @ ms" and "\<And>m. m \<in> set ms \<Longrightarrow> m_From m = rf_nodeID r \<and> m_Type m = RequestVote \<and> m_Term m = rf_term r + 1"
    and s: "sound H r" and self: "rf_nodeID r |\<in>| voters r" and rec: "(rf_nodeID r, rf_term r + 1, rf_nodeID r) \<in> H"
  shows "sound H s"
proof -
  have eq: "rf_nodeID s = rf_nodeID r" "rf_term s = rf_term r + 1" "rf_vote s = rf_nodeID r" "rf_state s = Candidate"
    "rf_votes s = fmupd (rf_nodeID r) True fmempty" "voters s = voters r"
    using c voters_members [of s r] by (simp_all add: candidacy_def standing_def)
  have "honest H m" if "m \<in> set ms" for m using assms(3) [OF that] s by (simp add: honest_def sound_def)
  then show ?thesis using s self rec assms(2) by (auto simp: sound_def recorded_def eq)
qed

lemma campaign_sound:
  assumes "campaign r = Some r'" and s: "sound H r" and self: "rf_nodeID r |\<in>| voters r" and rec: "recorded H r'"
  shows "sound H r'"
  using assms(1)
proof (cases rule: campaign_cases)
  case (won s)
  have vote: "rf_nodeID s = rf_nodeID r" "rf_term s = rf_term r + 1" "rf_vote s = rf_nodeID r"
      "rf_votes s = fmupd (rf_nodeID r) True fmempty" "rf_state s = Candidate" and m: "members s = members r"
    using won(1) by (simp_all add: candidacy_def standing_def)
  have "rf_nodeID r' = rf_nodeID r" "rf_term r' = rf_term r + 1" "rf_vote r' = rf_nodeID r"
    using won(4) vote by (auto simp: takes_office_def quiet_def standing_def)
  then have "(rf_nodeID r, rf_term r + 1, rf_nodeID r) \<in> H" using rec s by (simp add: recorded_def sound_def)
  then have snd: "sound H s" using candidacy_sound [OF won(1), of "[]"] won(2) s self by simp
  obtain Q where Q: "fcard Q = granted s" "\<And>j. j |\<in>| Q \<longleftrightarrow> fmlookup (rf_votes s) j = Some True"
    using granted_card [of s] by blast
  have "rf_nodeID r |\<in>| Q" using Q(2) by (simp add: vote)
  then have "granted s \<ge> 1" using Q(1) by (cases "granted s") auto
  then have "quorum s \<le> granted s" using won(3) quorum_members [OF m] by simp
  with won(4) snd show ?thesis using vote(5) by (rule sound_takes_office)
next
  case (asked ms)
  have eq: "rf_nodeID r' = rf_nodeID r" "rf_term r' = rf_term r + 1" "rf_vote r' = rf_nodeID r"
    using asked(1) by (simp_all add: candidacy_def standing_def)
  have "(rf_nodeID r, rf_term r + 1, rf_nodeID r) \<in> H" using rec s by (simp add: recorded_def sound_def eq)
  with candidacy_sound [OF asked(1,2)] asked(3) s self show ?thesis by blast
qed

lemma handleNodeElection_sound:
  assumes "handleNodeElection r m = Some r'" and "sound H r" and "rf_nodeID r |\<in>| voters r" and "recorded H r'"
  shows "sound H r'"
proof -
  have "campaign r = Some r' \<or> quiet r r'"
    using assms(1) notify_quiet unfolding handleNodeElection_def by (auto split: if_splits)
  then show ?thesis using campaign_sound [OF _ assms(2-4)] sound_quiet [OF assms(2)] by blast
qed

lemma handleNodeRequestVote_sound:
  assumes "handleNodeRequestVote r m = Some r'" and t: "rf_term r = m_Term m" "0 < m_Term m" and from0: "m_From m \<noteq> NoNode"
    and s: "sound H r" and rec: "recorded H r'"
  shows "sound H r'"
proof -
  have le: "m_Term m \<le> rf_term r" using t by simp
  show ?thesis using assms(1) le
  proof (cases rule: handleNodeRequestVote_cases)
    case (grant g)
    have "voters r' = voters r" "elected H r' = elected H r"
      by (rule voters_members elected_cong; simp add: grant(9) members_def)+
    moreover have "(rf_nodeID r, rf_term r, m_From m) \<in> H" using rec from0 unfolding grant(9) by (simp add: recorded_def)
    moreover have "honest H g" using grant(3-7) calculation(3) t s by (simp add: honest_def sound_def)
    ultimately show ?thesis using s rec by (simp add: sound_def grant(8)) (simp add: grant(9))
  next
    case (reject g)
    have "voters r' = voters r" "elected H r' = elected H r"
      by (rule voters_members elected_cong; simp add: reject(5) members_def)+
    moreover have "honest H g" using reject t s by (simp add: honest_def sound_def)
    ultimately show ?thesis using s rec by (simp add: sound_def reject(5))
  qed
qed

lemma handleVoteResp_sound:
  assumes v: "handleVoteResp r (m_From m) (m_Reject m) = (r1, granted r1)" and "rf_state r = Candidate" and s: "sound H r"
    and m: "m_Type m = RequestVoteResp" "honest H m" "m_To m = rf_nodeID r" "m_Term m = rf_term r" "m_From m |\<in>| voters r"
  shows "sound H r1"
proof -
  note e = handleVoteResp_effect [OF v]
  have "j |\<in>| voters r \<and> (j, rf_term r, rf_nodeID r) \<in> H" if "fmlookup (rf_votes r1) j = Some True" for j
    using that s m assms(2) unfolding e(9) by (auto simp: sound_def honest_def split: if_splits)
  moreover have "voters r1 = voters r" by (rule voters_members) (rule e(6))
  ultimately show ?thesis using s assms(2) e by (simp add: sound_def recorded_def)
qed

lemma handleCandidateRequestVoteResp_sound:
  assumes "handleCandidateRequestVoteResp r m = Some r'" and c: "rf_state r = Candidate" and s: "sound H r"
    and m: "m_Type m = RequestVoteResp" "honest H m" "m_To m = rf_nodeID r" "m_Term m = rf_term r"
      "m_From m |\<in>| voters r |\<union>| fmdom (rf_observers r)"
  shows "sound H r'"
  using assms(1)
proof (cases rule: handleCandidateRequestVoteResp_cases)
  case (counted r1)
  have v: "m_From m |\<in>| voters r" using m(5) counted(2) unfolding funion_iff by blast
  have s1: "sound H r1" by (rule handleVoteResp_sound [OF counted(1) c s m(1-4) v])
  have c1: "rf_state r1 = Candidate" unfolding handleVoteResp_effect(4) [OF counted(1)] by (rule c)
  show ?thesis using counted(3)
  proof (elim disjE conjE)
    assume "granted r1 = quorum r1" and t: "takes_office r1 r'"
    then have "quorum r1 \<le> granted r1" by (intro eq_refl) (rule sym)
    with t s1 show ?thesis using c1 by (rule sound_takes_office)
  next
    assume "yields r1 r'"
    with s1 show ?thesis by (rule sound_yields)
  qed (use s1 in simp)
qed (use s in simp)

lemma takes_office_members: "takes_office r r' \<Longrightarrow> members r' = members r"
  by (auto simp: takes_office_def quiet_def)

lemma handleNodeElection_members: "handleNodeElection r m = Some r' \<Longrightarrow> members r' = members r"
proof -
  assume "handleNodeElection r m = Some r'"
  then have "campaign r = Some r' \<or> quiet r r'"
    using notify_quiet unfolding handleNodeElection_def by (auto split: if_splits)
  then show ?thesis
    by (auto simp: candidacy_def quiet_def dest: takes_office_members elim!: campaign_cases)
qed

lemma handleNodeRequestVote_members: "handleNodeRequestVote r m = Some r' \<Longrightarrow> members r' = members r"
  unfolding handleNodeRequestVote_def Let_def
  by (auto simp: send_Some members_def elim!: bind_SomeE split: if_splits)

lemma yields_members: "yields r r' \<Longrightarrow> members r' = members r"
  by (simp add: yields_def)

lemma handleCandidateRequestVoteResp_members:
  assumes "handleCandidateRequestVoteResp r m = Some r'" shows "members r' = members r"
  using assms
proof (cases rule: handleCandidateRequestVoteResp_cases)
  case (counted r1)
  then show ?thesis using handleVoteResp_effect(6) yields_members takes_office_members by metis
qed simp

text \<open>What a message must satisfy for a node to handle it without leaving the fixed membership.\<close>

definition admissible :: "ballot set \<Rightarrow> raft \<Rightarrow> message \<Rightarrow> bool" where
  "admissible H r m \<longleftrightarrow> m_Type m \<notin> {Election, SnapshotReceived} \<and> (m_Type m = ConfigChangeEvent \<longrightarrow> m_Reject m) \<and>
     (m_Type m = RequestVote \<longrightarrow> m_Term m > 0 \<and> m_From m \<noteq> NoNode) \<and>
     (m_Type m = RequestVoteResp \<longrightarrow> m_Term m > 0 \<and> honest H m \<and> m_To m = rf_nodeID r \<and>
        m_From m |\<in>| voters r |\<union>| fmdom (rf_observers r))"

lemma Handle_sound:
  assumes h: "Handle r m = Some r'" and s: "sound H r" and rec: "recorded H r'" and m: "admissible H r m"
  shows "sound H r' \<and> members r' = members r"
  using h
proof (cases rule: Handle_cases)
  case calm
  then show ?thesis using s sound_calm calm_members by blast
next
  case (election s' m' r1)
  have s': "sound H s'" "members s' = members r" using election(1) s sound_calm calm_members by auto
  have self: "rf_nodeID s' |\<in>| voters s'" using election(2) m by (auto simp: admissible_def voters_def)
  have "recorded H r1" using rec election(4) by (simp add: recorded_def quiet_def standing_def)
  then have "sound H r1" using handleNodeElection_sound [OF election(3) s'(1) self] by blast
  then have "sound H r'" using election(4) by (rule sound_quiet)
  moreover have "members r' = members r"
    using election(4) handleNodeElection_members [OF election(3)] s'(2) by (simp add: quiet_def)
  ultimately show ?thesis ..
next
  case (request s')
  have s': "sound H s'" "members s' = members r" using request(1) s sound_calm calm_members by auto
  have t: "0 < m_Term m" "m_From m \<noteq> NoNode" using m request(2) by (simp_all add: admissible_def)
  then have "rf_term s' = m_Term m" using request(3) by simp
  from handleNodeRequestVote_sound [OF request(4) this t s'(1) rec] handleNodeRequestVote_members [OF request(4)] s'(2)
  show ?thesis by (intro conjI) (assumption, rule trans)
next
  case (response s')
  have s': "sound H s'" "members s' = members r" using response(1) s sound_calm calm_members by auto
  have "rf_nodeID s' = rf_nodeID r" using calm_ahead [OF response(1)] by (simp add: ahead_def)
  moreover have "voters s' = voters r" using s'(2) by (rule voters_members)
  moreover have "fmdom (rf_observers s') = fmdom (rf_observers r)" using s'(2) by (simp add: members_def)
  ultimately have a: "honest H m" "m_To m = rf_nodeID s'" "m_Term m = rf_term s'"
      "m_From m |\<in>| voters s' |\<union>| fmdom (rf_observers s')"
    using m response(2,3) by (simp_all add: admissible_def)
  from handleCandidateRequestVoteResp_sound [OF response(5,4) s'(1) response(2) a]
    handleCandidateRequestVoteResp_members [OF response(5)] s'(2)
  show ?thesis by (intro conjI) (assumption, rule trans)
next
  case (config s')
  then have "r' = clearPendingConfigChange s'" using m by (auto simp: admissible_def handleNodeConfigChange_def)
  then have "calm r r'" using config(1) reports_quiet(8) quiet_calm calm_trans by blast
  then show ?thesis using s sound_calm calm_members by blast
next
  case (restore s')
  then show ?thesis using m by (simp add: admissible_def)
qed

subsection \<open>A cluster\<close>

datatype peer_input =
    InTick
  | InQuiescedTick
  | InLeaderTransfer nat
  | InPropose "entry list"
  | InProposeConfigChange config_change nat
  | InRejectConfigChange
  | InReadIndex system_ctx
  | InUnreachable nat
  | InSnapshotStatus nat bool
  | InApplied nat

fun take_input :: "(config_change \<Rightarrow> 8 word list) \<Rightarrow> peer_input \<Rightarrow> peer \<Rightarrow> peer option" where
  "take_input marshal InTick p = peer_Tick p"
| "take_input marshal InQuiescedTick p = QuiescedTick p"
| "take_input marshal (InLeaderTransfer i) p = RequestLeaderTransfer p i"
| "take_input marshal (InPropose es) p = ProposeEntries p es"
| "take_input marshal (InProposeConfigChange cc k) p = ProposeConfigChange marshal p cc k"
| "take_input marshal InRejectConfigChange p = RejectConfigChange p"
| "take_input marshal (InReadIndex ctx) p = peer_ReadIndex p ctx"
| "take_input marshal (InUnreachable i) p = ReportUnreachableNode p i"
| "take_input marshal (InSnapshotStatus i b) p = ReportSnapshotStatus p i b"
| "take_input marshal (InApplied n) p = Some (NotifyRaftLastApplied p n)"

record cluster =
  cl_peers :: "nat \<Rightarrow> peer"
  cl_sent :: "message set"
  cl_cast :: "ballot set"

definition ballot_of :: "raft \<Rightarrow> ballot set" where
  "ballot_of r = (if rf_vote r = NoNode then {} else {(rf_nodeID r, rf_term r, rf_vote r)})"

definition move :: "cluster \<Rightarrow> nat \<Rightarrow> peer \<Rightarrow> message set \<Rightarrow> cluster" where
  "move c i p ms = c\<lparr>cl_peers := (cl_peers c)(i := p), cl_sent := cl_sent c \<union> ms, cl_cast := cl_cast c \<union> ballot_of (p_raft p)\<rparr>"

inductive cluster_step :: "(config_change \<Rightarrow> 8 word list) \<Rightarrow> nat set \<Rightarrow> cluster \<Rightarrow> cluster \<Rightarrow> bool"
  for marshal :: "config_change \<Rightarrow> 8 word list" and ids :: "nat set" where
  input: "i \<in> ids \<Longrightarrow> take_input marshal x (cl_peers c i) = Some p \<Longrightarrow> cluster_step marshal ids c (move c i p {})"
| deliver: "i \<in> ids \<Longrightarrow> m \<in> cl_sent c \<Longrightarrow> m_To m = i \<Longrightarrow> peer_Handle (cl_peers c i) m = Some p \<Longrightarrow>
    cluster_step marshal ids c (move c i p {})"
| update: "i \<in> ids \<Longrightarrow> GetUpdate (cl_peers c i) moreToApply applied = Some (p, ud) \<Longrightarrow> peer_Commit p ud = Some p' \<Longrightarrow>
    cluster_step marshal ids c (move c i p' (set (ud_Messages ud)))"

text \<open>The start: followers, observers and witnesses that have sent nothing yet and agree on the members.\<close>

definition cluster_init :: "nat fset \<times> nat fset \<times> nat fset \<Rightarrow> nat set \<Rightarrow> cluster \<Rightarrow> bool" where
  "cluster_init ms ids c \<longleftrightarrow> 0 \<notin> ids \<and> fst ms |\<inter>| snd (snd ms) = {||} \<and> cl_sent c = {} \<and>
     cl_cast c = (\<Union>i\<in>ids. ballot_of (p_raft (cl_peers c i))) \<and>
     (\<forall>i\<in>ids. (let r = p_raft (cl_peers c i)
        in rf_nodeID r = i \<and> members r = ms \<and> rf_state r \<in> {Follower, Observer, Witness} \<and> rf_msgs r = []))"

definition cluster_inv :: "nat fset \<times> nat fset \<times> nat fset \<Rightarrow> nat set \<Rightarrow> cluster \<Rightarrow> bool" where
  "cluster_inv ms ids c \<longleftrightarrow> 0 \<notin> ids \<and> fst ms |\<inter>| snd (snd ms) = {||} \<and> (\<forall>m\<in>cl_sent c. honest (cl_cast c) m) \<and>
     (\<forall>i\<in>ids. rf_nodeID (p_raft (cl_peers c i)) = i \<and> members (p_raft (cl_peers c i)) = ms \<and>
        sound (cl_cast c) (p_raft (cl_peers c i))) \<and>
     (\<forall>j t k. (j, t, k) \<in> cl_cast c \<longrightarrow> j \<in> ids \<and> k \<noteq> NoNode \<and> t \<le> rf_term (p_raft (cl_peers c j)) \<and>
        (t = rf_term (p_raft (cl_peers c j)) \<longrightarrow> k = rf_vote (p_raft (cl_peers c j)))) \<and>
     (\<forall>j t k k'. (j, t, k) \<in> cl_cast c \<longrightarrow> (j, t, k') \<in> cl_cast c \<longrightarrow> k = k')"

lemma cluster_init_inv:
  assumes "cluster_init ms ids c" shows "cluster_inv ms ids c"
proof -
  have at: "rf_nodeID (p_raft (cl_peers c i)) = i \<and> members (p_raft (cl_peers c i)) = ms \<and>
      rf_state (p_raft (cl_peers c i)) \<in> {Follower, Observer, Witness} \<and> rf_msgs (p_raft (cl_peers c i)) = []" if "i \<in> ids" for i
    using assms that by (simp add: cluster_init_def Let_def)
  have cast: "cl_cast c = (\<Union>i\<in>ids. ballot_of (p_raft (cl_peers c i)))" and z: "0 \<notin> ids"
    and d: "fst ms |\<inter>| snd (snd ms) = {||}" and n: "cl_sent c = {}"
    using assms by (simp_all add: cluster_init_def)
  have b: "(j, t, k) \<in> cl_cast c \<longleftrightarrow> j \<in> ids \<and> k \<noteq> NoNode \<and> t = rf_term (p_raft (cl_peers c j)) \<and>
      k = rf_vote (p_raft (cl_peers c j))" for j t k
    unfolding cast using at by (auto simp: ballot_of_def split: if_splits)
  have "sound (cl_cast c) (p_raft (cl_peers c i))" if "i \<in> ids" for i
  proof -
    have "i \<noteq> NoNode" using that z by (metis NoNode_def)
    then show ?thesis using at [OF that] that b by (auto simp: sound_def recorded_def)
  qed
  then show ?thesis using at b d n z unfolding cluster_inv_def by simp
qed

lemma move_inv:
  assumes inv: "cluster_inv ms ids c" and i: "i \<in> ids" and a: "ahead (p_raft (cl_peers c i)) (p_raft p)"
    and s: "sound (cl_cast c \<union> ballot_of (p_raft p)) (p_raft p)" and m: "members (p_raft p) = ms"
    and sent: "\<And>m. m \<in> new \<Longrightarrow> honest (cl_cast c) m"
  shows "cluster_inv ms ids (move c i p new)"
proof -
  let ?r = "p_raft (cl_peers c i)" and ?r' = "p_raft p" and ?H = "cl_cast c \<union> ballot_of (p_raft p)"
  have id: "rf_nodeID ?r' = i" using a inv i by (simp add: ahead_def cluster_inv_def)
  have held: "j \<in> ids \<and> k \<noteq> NoNode \<and> t \<le> rf_term (p_raft (cl_peers c j)) \<and>
      (t = rf_term (p_raft (cl_peers c j)) \<longrightarrow> k = rf_vote (p_raft (cl_peers c j)))" if "(j, t, k) \<in> cl_cast c" for j t k
    using inv that unfolding cluster_inv_def by blast
  have old: "t \<le> rf_term ?r' \<and> (t = rf_term ?r' \<longrightarrow> k = rf_vote ?r')" if "(i, t, k) \<in> cl_cast c" for t k
  proof -
    have k: "k \<noteq> NoNode" "t \<le> rf_term ?r" "t = rf_term ?r \<longrightarrow> k = rf_vote ?r"
      using held [OF that] by blast+
    show ?thesis using a k unfolding ahead_def by (elim conjE disjE) auto
  qed
  have new_ballot: "(j, t, k) \<in> ballot_of ?r' \<longleftrightarrow> j = i \<and> k \<noteq> NoNode \<and> t = rf_term ?r' \<and> k = rf_vote ?r'" for j t k
    by (auto simp: ballot_of_def id)
  have fn: "k = k'" if "(j, t, k) \<in> ?H" "(j, t, k') \<in> ?H" for j t k k'
    using that old new_ballot inv unfolding cluster_inv_def Un_iff by metis
  have cur: "j \<in> ids \<and> k \<noteq> NoNode \<and> t \<le> rf_term (p_raft (((cl_peers c)(i := p)) j)) \<and>
      (t = rf_term (p_raft (((cl_peers c)(i := p)) j)) \<longrightarrow> k = rf_vote (p_raft (((cl_peers c)(i := p)) j)))"
    if "(j, t, k) \<in> ?H" for j t k
  proof (cases "j = i")
    case True
    then have "k \<noteq> NoNode" using that new_ballot held [of j t k] by auto
    then show ?thesis using True that old [of t k] new_ballot [of j t k] i by auto
  next
    case False
    then have "(j, t, k) \<in> cl_cast c" using that new_ballot [of j t k] by simp
    from held [OF this] False show ?thesis by simp
  qed
  have peers: "rf_nodeID (p_raft (((cl_peers c)(i := p)) j)) = j \<and> members (p_raft (((cl_peers c)(i := p)) j)) = ms \<and>
      sound ?H (p_raft (((cl_peers c)(i := p)) j))" if "j \<in> ids" for j
    using that inv s m id sound_mono [of "cl_cast c" "p_raft (cl_peers c j)" ?H] unfolding cluster_inv_def
    by (cases "j = i") auto
  have msgs: "honest ?H m" if "m \<in> cl_sent c \<union> new" for m
    using that sent inv honest_mono [of "cl_cast c" m ?H] unfolding cluster_inv_def by blast
  show ?thesis unfolding cluster_inv_def move_def cluster.simps
    using inv fn cur peers msgs by (simp add: cluster_inv_def)
qed

lemma take_input_cases:
  assumes "take_input marshal x p = Some p'"
  obtains "quiet (p_raft p) (p_raft p')" | m where "Handle (p_raft p) m = Some (p_raft p')" and "\<And>H r. admissible H r m"
proof (cases x)
  case (InApplied n)
  then have "p_raft p' = setApplied (p_raft p) n" using assms by (auto simp: NotifyRaftLastApplied_def)
  then have "quiet (p_raft p) (p_raft p')" by (auto simp: setApplied_def intro!: quiet_fields)
  with that(1) show ?thesis .
qed (use assms in \<open>auto simp: on_raft_def peer_Tick_def QuiescedTick_def RequestLeaderTransfer_def ProposeEntries_def
    ProposeConfigChange_def RejectConfigChange_def peer_ReadIndex_def ReportUnreachableNode_def ReportSnapshotStatus_def
    admissible_def intro!: that(2)\<close>)

lemma input_inv:
  assumes inv: "cluster_inv ms ids c" and i: "i \<in> ids" and x: "take_input marshal x (cl_peers c i) = Some p"
  shows "cluster_inv ms ids (move c i p {})"
proof -
  let ?H = "cl_cast c \<union> ballot_of (p_raft p)"
  have s: "sound ?H (p_raft (cl_peers c i))" and m: "members (p_raft (cl_peers c i)) = ms"
    using inv i sound_mono by (auto simp: cluster_inv_def)
  have rec: "recorded ?H (p_raft p)" by (simp add: recorded_def ballot_of_def)
  from x have "sound ?H (p_raft p) \<and> members (p_raft p) = ms \<and> ahead (p_raft (cl_peers c i)) (p_raft p)"
  proof (cases rule: take_input_cases)
    case 1
    then show ?thesis using s m sound_quiet quiet_ahead by (simp add: quiet_def)
  next
    case (2 q)
    then show ?thesis using Handle_sound [OF 2(1) s rec] m Handle_ahead by simp
  qed
  then show ?thesis using inv i by (intro move_inv) auto
qed

lemma deliver_inv:
  assumes inv: "cluster_inv ms ids c" and i: "i \<in> ids" and q: "q \<in> cl_sent c" "m_To q = i"
    and h: "peer_Handle (cl_peers c i) q = Some p"
  shows "cluster_inv ms ids (move c i p {})"
proof -
  let ?H = "cl_cast c \<union> ballot_of (p_raft p)" and ?r = "p_raft (cl_peers c i)"
  have s: "sound ?H ?r" and m: "members ?r = ms" and id: "rf_nodeID ?r = i"
    using inv i sound_mono by (auto simp: cluster_inv_def)
  have hon: "honest ?H q" using inv q(1) honest_mono [of "cl_cast c" q ?H] by (auto simp: cluster_inv_def)
  have rec: "recorded ?H (p_raft p)" by (simp add: recorded_def ballot_of_def)
  have "sound ?H (p_raft p) \<and> members (p_raft p) = ms \<and> ahead ?r (p_raft p)"
  proof (cases "p = cl_peers c i")
    case True
    then show ?thesis using s m by simp
  next
    case False
    then have hq: "Handle ?r q = Some (p_raft p)" and "\<not> isLocalMessageType (m_Type q)"
      and "isResponseMessageType (m_Type q) \<longrightarrow> q \<in> {q. m_From q |\<in>| voters ?r |\<union>| fmdom (rf_observers ?r)}"
      using h by (auto simp: peer_Handle_def on_raft_def Let_def voters_def split: if_splits)
    then have "admissible ?H ?r q"
      using hon q(2) id by (auto simp: admissible_def isLocalMessageType_def isResponseMessageType_def honest_def)
    then show ?thesis using Handle_sound [OF hq s rec] m Handle_ahead [OF hq] by simp
  qed
  then show ?thesis using inv i by (intro move_inv) auto
qed

lemma log_commitUpdate_committed: "log_commitUpdate l cu = Some l' \<Longrightarrow> el_committed l' = el_committed l"
  unfolding log_commitUpdate_def Let_def by (auto elim!: bind_SomeE split: if_splits)

lemma update_effect:
  assumes "GetUpdate p b n = Some (p1, ud)" and "peer_Commit p1 ud = Some p'"
  shows "standing (p_raft p') = standing (p_raft p)" and "members (p_raft p') = members (p_raft p)"
    and "el_committed (rf_log (p_raft p')) = el_committed (rf_log (p_raft p))" and "rf_msgs (p_raft p') = []"
    and "set (ud_Messages ud) = (\<lambda>m. m\<lparr>m_ClusterId := rf_clusterID (p_raft p)\<rparr>) ` set (rf_msgs (p_raft p))"
proof -
  have p1: "p_raft p1 = (p_raft p)\<lparr>rf_msgs := map (\<lambda>m. m\<lparr>m_ClusterId := rf_clusterID (p_raft p)\<rparr>) (rf_msgs (p_raft p))\<rparr>"
    and ud: "ud_Messages ud = map (\<lambda>m. m\<lparr>m_ClusterId := rf_clusterID (p_raft p)\<rparr>) (rf_msgs (p_raft p))"
    using assms(1) unfolding GetUpdate_def getUpdate_def Let_def
    by (auto simp: setFastApply_def elim!: bind_SomeE split: if_splits)
  obtain l where l: "log_commitUpdate (rf_log (p_raft p1)) (ud_UpdateCommit ud) = Some l"
    and p': "p_raft p' = (if uc_ReadyToRead (ud_UpdateCommit ud) > 0
      then clearReadyToRead ((p_raft p1)\<lparr>rf_msgs := [], rf_droppedEntries := [], rf_droppedReadIndexes := []\<rparr>)
      else (p_raft p1)\<lparr>rf_msgs := [], rf_droppedEntries := [], rf_droppedReadIndexes := []\<rparr>)\<lparr>rf_log := l\<rparr>"
    using assms(2) unfolding peer_Commit_def Let_def by (auto simp: clearReadyToRead_def elim!: bind_SomeE split: if_splits)
  show "standing (p_raft p') = standing (p_raft p)" "members (p_raft p') = members (p_raft p)" "rf_msgs (p_raft p') = []"
    by (simp_all add: p' p1 standing_def members_def clearReadyToRead_def)
  show "el_committed (rf_log (p_raft p')) = el_committed (rf_log (p_raft p))"
    using log_commitUpdate_committed [OF l] by (simp add: p' p1)
  show "set (ud_Messages ud) = (\<lambda>m. m\<lparr>m_ClusterId := rf_clusterID (p_raft p)\<rparr>) ` set (rf_msgs (p_raft p))"
    by (simp add: ud)
qed

lemma update_inv:
  assumes inv: "cluster_inv ms ids c" and i: "i \<in> ids"
    and g: "GetUpdate (cl_peers c i) b n = Some (p, ud)" and u: "peer_Commit p ud = Some p'"
  shows "cluster_inv ms ids (move c i p' (set (ud_Messages ud)))"
proof -
  let ?r = "p_raft (cl_peers c i)"
  have s: "sound (cl_cast c) ?r" and m: "members ?r = ms" using inv i by (auto simp: cluster_inv_def)
  note e = update_effect [OF g u]
  have eq: "rf_nodeID (p_raft p') = rf_nodeID ?r" "rf_term (p_raft p') = rf_term ?r" "rf_vote (p_raft p') = rf_vote ?r"
    "rf_state (p_raft p') = rf_state ?r" "rf_votes (p_raft p') = rf_votes ?r"
    using e(1) by (simp_all add: standing_def)
  have "sound (cl_cast c) (p_raft p')"
    using s elected_cong [OF e(2) eq(2,1)] voters_members [OF e(2)] unfolding sound_def recorded_def eq e(4) by simp
  then have "sound (cl_cast c \<union> ballot_of (p_raft p')) (p_raft p')" by (rule sound_mono) simp
  moreover have "ahead ?r (p_raft p')" using eq e(3) by (simp add: ahead_def)
  moreover have "honest (cl_cast c) q" if "q \<in> set (ud_Messages ud)" for q
    using that s unfolding e(5) by (auto simp: sound_def honest_def)
  ultimately show ?thesis using inv i m e(2) by (intro move_inv) auto
qed

lemma cluster_step_inv: "cluster_step marshal ids c c' \<Longrightarrow> cluster_inv ms ids c \<Longrightarrow> cluster_inv ms ids c'"
  by (induction rule: cluster_step.induct) (blast intro: input_inv deliver_inv update_inv)+

lemma reachable_inv:
  assumes "cluster_init ms ids c" and "(cluster_step marshal ids)\<^sup>*\<^sup>* c c'" shows "cluster_inv ms ids c'"
  using assms(2) by (induction rule: rtranclp_induct) (use cluster_init_inv [OF assms(1)] cluster_step_inv in blast)+

text \<open>C3. Election safety. Start a cluster of peers that agree on who the members are and have not sent anything
  yet, and let it take any steps: inputs of any kind at any peer except an applied membership change, messages delivered
  late, repeatedly, out of order or never, and update cycles. Then no term has two leaders.\<close>

theorem election_safety:
  assumes "cluster_init ms ids c" and "(cluster_step marshal ids)\<^sup>*\<^sup>* c c'" and "i \<in> ids" and "j \<in> ids"
    and "isLeader (p_raft (cl_peers c' i))" and "isLeader (p_raft (cl_peers c' j))"
    and "rf_term (p_raft (cl_peers c' i)) = rf_term (p_raft (cl_peers c' j))"
  shows "i = j"
proof -
  let ?H = "cl_cast c'" and ?V = "fst ms |\<union>| snd (snd ms)"
  have inv: "cluster_inv ms ids c'" using assms(1,2) by (rule reachable_inv)
  have won: "\<exists>Q. majority ?V Q \<and> (\<forall>v. v |\<in>| Q \<longrightarrow> (v, rf_term (p_raft (cl_peers c' k)), k) \<in> ?H)"
    if k: "k \<in> ids" and l: "isLeader (p_raft (cl_peers c' k))" for k
  proof -
    let ?r = "p_raft (cl_peers c' k)"
    have r: "rf_nodeID ?r = k" "members ?r = ms" "elected ?H ?r" and d: "fst ms |\<inter>| snd (snd ms) = {||}"
      using inv k l by (auto simp: cluster_inv_def sound_def isLeader_def)
    have V: "voters ?r = ?V" and n: "quorum ?r = fcard ?V div 2 + 1"
      using r(2) d fcard_funion_finter [of "fst ms" "snd (snd ms)"]
      by (auto simp: voters_def members_def quorum_def numVotingMembers_def fcard_fempty)
    show ?thesis using r(1,3) unfolding elected_def V n majority_def by auto
  qed
  obtain A B where q: "majority ?V A" "majority ?V B"
    and a: "\<And>v. v |\<in>| A \<Longrightarrow> (v, rf_term (p_raft (cl_peers c' i)), i) \<in> ?H"
    and b: "\<And>v. v |\<in>| B \<Longrightarrow> (v, rf_term (p_raft (cl_peers c' i)), j) \<in> ?H"
    using won [OF assms(3,5)] won [OF assms(4,6)] assms(7) by auto
  have "\<And>v t k k'. (v, t, k) \<in> ?H \<Longrightarrow> (v, t, k') \<in> ?H \<Longrightarrow> k = k'"
    using inv unfolding cluster_inv_def by blast
  from majority.one_winner [OF q a b this] show ?thesis .
qed

subsection \<open>An election\<close>

text \<open>Three members; the clock of the first one runs out, it asks for votes, the second grants its vote.\<close>

definition demo_config :: "nat \<Rightarrow> raft_config" where
  "demo_config i = \<lparr>cf_NodeID = i, cf_ClusterID = 7, cf_CheckQuorum = True, cf_ElectionRTT = 10, cf_HeartbeatRTT = 1,
     cf_SnapshotEntries = 0, cf_CompactionOverhead = 0, cf_OrderedConfigChange = False, cf_MaxInMemLogSize = 0,
     cf_SnapshotCompressionType = 0, cf_EntryCompressionType = 0, cf_DisableAutoCompactions = False,
     cf_IsObserver = False, cf_IsWitness = False, cf_Quiesce = False\<rparr>"

definition demo_peer :: "nat \<Rightarrow> peer" where
  "demo_peer i = \<lparr>p_raft = (raft_zero (demo_config i) (NewLogReader 7 i (openRDB fmempty)) (\<lambda>_. 0))
     \<lparr>rf_remotes := fmap_of_list [(1, new_remote 0 1), (2, new_remote 0 1), (3, new_remote 0 1)],
      rf_electionTick := 10, rf_randomizedElectionTimeout := 10\<rparr>, p_prevState = emptyState\<rparr>"

definition demo_cluster :: cluster where
  "demo_cluster = \<lparr>cl_peers = demo_peer, cl_sent = {}, cl_cast = {}\<rparr>"

definition demo_candidate :: peer where "demo_candidate = the (peer_Tick (demo_peer 1))"

definition demo_asked :: "peer \<times> raft_update" where "demo_asked = the (GetUpdate demo_candidate False 0)"

definition demo_waiting :: peer where "demo_waiting = the (peer_Commit (fst demo_asked) (snd demo_asked))"

definition demo_request :: message where "demo_request = hd (ud_Messages (snd demo_asked))"

definition demo_voter :: peer where "demo_voter = the (peer_Handle (demo_peer 2) demo_request)"

definition demo_voted :: "peer \<times> raft_update" where "demo_voted = the (GetUpdate demo_voter False 0)"

definition demo_answered :: peer where "demo_answered = the (peer_Commit (fst demo_voted) (snd demo_voted))"

definition demo_grant :: message where "demo_grant = hd (ud_Messages (snd demo_voted))"

definition demo_leader :: peer where "demo_leader = the (peer_Handle demo_waiting demo_grant)"

lemma not_none: "\<not> Option.is_none x \<Longrightarrow> x = Some (the x)"
  by (cases x) auto

lemma demo_runs:
  "peer_Tick (demo_peer 1) = Some demo_candidate"
  "GetUpdate demo_candidate False 0 = Some demo_asked"
  "peer_Commit (fst demo_asked) (snd demo_asked) = Some demo_waiting"
  "peer_Handle (demo_peer 2) demo_request = Some demo_voter"
  "GetUpdate demo_voter False 0 = Some demo_voted"
  "peer_Commit (fst demo_voted) (snd demo_voted) = Some demo_answered"
  "peer_Handle demo_waiting demo_grant = Some demo_leader"
  unfolding demo_candidate_def demo_asked_def demo_waiting_def demo_voter_def demo_voted_def demo_answered_def demo_leader_def
  by (rule not_none, code_simp)+

lemma demo_messages:
  "ud_Messages (snd demo_asked) \<noteq> [] \<and> m_To demo_request = 2" "ud_Messages (snd demo_voted) \<noteq> [] \<and> m_To demo_grant = 1"
  by code_simp+

lemma demo_sent: "demo_request \<in> set (ud_Messages (snd demo_asked))" "demo_grant \<in> set (ud_Messages (snd demo_voted))"
  using demo_messages unfolding demo_request_def demo_grant_def by (auto intro: hd_in_set)

lemma demo_elected: "isLeader (p_raft demo_leader) \<and> rf_term (p_raft demo_leader) = 1"
  by code_simp

lemma demo_init: "cluster_init ({|1, 2, 3|}, {||}, {||}) {1, 2, 3} demo_cluster"
  by (auto simp: cluster_init_def Let_def demo_cluster_def demo_peer_def raft_zero_def demo_config_def members_def ballot_of_def
      NoNode_def)

definition demo_end :: cluster where
  "demo_end =
     (let c1 = move demo_cluster 1 demo_candidate {}; c2 = move c1 1 demo_waiting (set (ud_Messages (snd demo_asked)));
          c3 = move c2 2 demo_voter {}; c4 = move c3 2 demo_answered (set (ud_Messages (snd demo_voted)))
      in move c4 1 demo_leader {})"

lemma demo_steps: "(cluster_step marshal {1, 2, 3})\<^sup>*\<^sup>* demo_cluster demo_end"
proof -
  define c1 where "c1 = move demo_cluster 1 demo_candidate {}"
  define c2 where "c2 = move c1 1 demo_waiting (set (ud_Messages (snd demo_asked)))"
  define c3 where "c3 = move c2 2 demo_voter {}"
  define c4 where "c4 = move c3 2 demo_answered (set (ud_Messages (snd demo_voted)))"
  note defs = move_def c1_def c2_def c3_def c4_def demo_cluster_def
  have "cluster_step marshal {1, 2, 3} demo_cluster c1" unfolding c1_def
    by (rule cluster_step.input [where x = InTick]) (simp_all add: demo_runs demo_cluster_def del: One_nat_def)
  moreover have "cluster_step marshal {1, 2, 3} c1 c2" unfolding c2_def
    by (rule cluster_step.update [where p = "fst demo_asked" and moreToApply = False and applied = 0]) (simp_all add: demo_runs defs del: One_nat_def)
  moreover have "cluster_step marshal {1, 2, 3} c2 c3" unfolding c3_def
    by (rule cluster_step.deliver [where m = demo_request])
      (use demo_messages demo_sent in \<open>simp_all add: demo_runs defs del: One_nat_def\<close>)
  moreover have "cluster_step marshal {1, 2, 3} c3 c4" unfolding c4_def
    by (rule cluster_step.update [where p = "fst demo_voted" and moreToApply = False and applied = 0]) (simp_all add: demo_runs defs del: One_nat_def)
  moreover have "cluster_step marshal {1, 2, 3} c4 demo_end"
    unfolding demo_end_def Let_def c1_def [symmetric] c2_def [symmetric] c3_def [symmetric] c4_def [symmetric]
    by (rule cluster_step.deliver [where m = demo_grant])
      (use demo_messages demo_sent in \<open>simp_all add: demo_runs defs del: One_nat_def\<close>)
  ultimately show ?thesis by (meson converse_rtranclp_into_rtranclp rtranclp.rtrancl_refl)
qed

theorem election_safety_witness:
  "isLeader (p_raft (cl_peers demo_end 1)) \<and> rf_term (p_raft (cl_peers demo_end 1)) = 1 \<and>
   \<not> (isLeader (p_raft (cl_peers demo_end 2)) \<and> rf_term (p_raft (cl_peers demo_end 2)) = 1)"
proof -
  have "cl_peers demo_end 1 = demo_leader" by (simp add: demo_end_def Let_def move_def)
  then show ?thesis
    using demo_elected election_safety [OF demo_init demo_steps, of 1 2] by auto
qed

subsection \<open>A node moves forward\<close>

lemma foldo_single: "foldo f [x] s = f x s"
  by (cases "f x s") simp_all

lemma messages_ahead: "foldo (\<lambda>m s. Handle s m) ms r = Some r' \<Longrightarrow> ahead r r'"
  by (erule foldo_ahead) (rule Handle_ahead)


text \<open>A second candidate of the same term asks the node that has voted for the first.\<close>

definition demo_rival :: message where
  "demo_rival = (msg RequestVote)\<lparr>m_From := 3, m_To := 2, m_Term := 1\<rparr>"

lemma demo_rival_handled:
  "foldo (\<lambda>m s. Handle s m) [demo_rival] (p_raft demo_voter) = Some (the (Handle (p_raft demo_voter) demo_rival))"
proof -
  have "\<not> Option.is_none (Handle (p_raft demo_voter) demo_rival)" by code_simp
  from not_none [OF this] show ?thesis unfolding foldo_single .
qed

lemma demo_voter_state:
  "rf_vote (p_raft demo_voter) = 1 \<and> rf_term (p_raft demo_voter) = 1 \<and> rf_term (the (Handle (p_raft demo_voter) demo_rival)) = 1"
  by code_simp


text \<open>C5. The roles are typed: no sequence of messages makes a node a witness or an observer, or makes a witness
  anything else, and the table of handlers passes the check that a node makes of it at start.\<close>

theorem roles_kept:
  assumes "foldo (\<lambda>m s. Handle s m) ms r = Some r'"
  shows "(rf_state r' = Witness \<longleftrightarrow> rf_state r = Witness) \<and> (rf_state r' = Observer \<longrightarrow> rf_state r = Observer) \<and> checkHandlerMap"
proof -
  have "checkHandlerMap" by (simp add: checkHandlerMap_def unhandled_def handlers_def handlers0_def)
  then show ?thesis using messages_ahead [OF assms] by (simp add: ahead_def)
qed

definition demo_witness :: raft where
  "demo_witness = (p_raft (demo_peer 1))\<lparr>rf_state := Witness\<rparr>"

theorem roles_kept_witness:
  "rf_state demo_witness = Witness \<and> rf_state (the (Handle demo_witness (msg LocalTick))) = Witness"
proof -
  have "\<not> Option.is_none (Handle demo_witness (msg LocalTick))" by code_simp
  from not_none [OF this] have "foldo (\<lambda>m s. Handle s m) [msg LocalTick] demo_witness = Some (the (Handle demo_witness (msg LocalTick)))"
    unfolding foldo_single .
  from roles_kept [OF this] show ?thesis by (simp add: demo_witness_def)
qed

end
