(* ===== verification/Raft_Commit.thy ===== *)
theory Raft_Commit
  imports Raft_Election "HOL-Library.Multiset"
begin

text \<open>
  The commit rule of a leader: the index it tests is the largest one that a quorum of the voting members has
  reached, and it commits that index exactly when it is new and its entry is of the leader's own term.
\<close>

subsection \<open>Sorting the match values\<close>

lemma length_order_at [simp]: "length (order_at i xs) = length xs"
  by (simp add: order_at_def)

lemma unrolled_sort_three:
  assumes "length xs = 3" shows "order_at 0 (order_at 1 (order_at 0 xs)) = sort xs"
proof -
  obtain a b c where xs: "xs = [a, b, c]" using assms by (auto simp: length_Suc_conv numeral_3_eq_3)
  show ?thesis unfolding xs by (auto simp: order_at_def)
qed

lemma sortMatchValues_sort: "sortMatchValues xs = sort xs"
proof -
  have "sort xs = xs" if "length xs = 1" using that by (cases xs) auto
  then show ?thesis unfolding sortMatchValues_def using unrolled_sort_three [of xs] by (simp del: One_nat_def)
qed

text \<open>C. The unrolled bubble sort for three match values, the shortcut for one and the library sort for any other number
  all do the same: they sort.\<close>

theorem match_values_sorted: "sortMatchValues xs = sort xs \<and> sorted (sortMatchValues xs) \<and> mset (sortMatchValues xs) = mset xs"
  by (simp add: sortMatchValues_sort)

subsection \<open>The quorum index\<close>

definition replicated :: "raft \<Rightarrow> nat \<Rightarrow> nat" where
  "replicated r i = length (filter (\<lambda>v. i \<le> v) (match_values r))"

lemma length_filter_take_drop:
  "length (filter P xs) = length (filter P (take n xs)) + length (filter P (drop n xs))"
proof -
  have "filter P xs = filter P (take n xs) @ filter P (drop n xs)" unfolding filter_append [symmetric] append_take_drop_id ..
  then show ?thesis by simp
qed

lemma sorted_count:
  fixes xs :: "nat list"
  assumes "sorted xs" and "1 \<le> k" and "k \<le> length xs"
  shows "k \<le> length (filter (\<lambda>v. i \<le> v) xs) \<longleftrightarrow> i \<le> xs ! (length xs - k)"
proof
  assume q: "i \<le> xs ! (length xs - k)"
  have "i \<le> v" if v: "v \<in> set (drop (length xs - k) xs)" for v
  proof -
    obtain j where j: "j < length (drop (length xs - k) xs)" "drop (length xs - k) xs ! j = v"
      using v unfolding in_set_conv_nth by blast
    then have "xs ! (length xs - k) \<le> v" using assms by (auto intro!: sorted_nth_mono)
    with q show ?thesis by simp
  qed
  then have "filter (\<lambda>v. i \<le> v) (drop (length xs - k) xs) = drop (length xs - k) xs" by (simp add: filter_id_conv)
  moreover have "length (filter (\<lambda>v. i \<le> v) xs) =
      length (filter (\<lambda>v. i \<le> v) (take (length xs - k) xs)) + length (filter (\<lambda>v. i \<le> v) (drop (length xs - k) xs))"
    by (rule length_filter_take_drop)
  ultimately show "k \<le> length (filter (\<lambda>v. i \<le> v) xs)" using assms(3) by simp
next
  assume c: "k \<le> length (filter (\<lambda>v. i \<le> v) xs)"
  show "i \<le> xs ! (length xs - k)"
  proof (rule ccontr)
    assume n: "\<not> i \<le> xs ! (length xs - k)"
    have "\<not> i \<le> v" if v: "v \<in> set (take (Suc (length xs - k)) xs)" for v
    proof -
      obtain j where j: "j \<le> length xs - k" "j < length xs" "v = xs ! j"
        using v by (auto simp: in_set_conv_nth less_Suc_eq_le)
      then have "v \<le> xs ! (length xs - k)" using assms by (auto intro!: sorted_nth_mono)
      with n show ?thesis by simp
    qed
    then have "filter (\<lambda>v. i \<le> v) (take (Suc (length xs - k)) xs) = []" by (simp add: filter_empty_conv)
    moreover have "length (filter (\<lambda>v. i \<le> v) xs) = length (filter (\<lambda>v. i \<le> v) (take (Suc (length xs - k)) xs)) +
        length (filter (\<lambda>v. i \<le> v) (drop (Suc (length xs - k)) xs))"
      by (rule length_filter_take_drop)
    moreover have "length (filter (\<lambda>v. i \<le> v) (drop (Suc (length xs - k)) xs)) \<le> length xs - Suc (length xs - k)"
      using length_filter_le [of "\<lambda>v. i \<le> v" "drop (Suc (length xs - k)) xs"] by simp
    ultimately show False using c assms by simp
  qed
qed

lemma length_sorted_bindings: "length (sorted_bindings m) = fcard (fmdom m)"
  by (simp add: sorted_bindings_eq fcard.rep_eq sorted_list_of_fset.rep_eq)

lemma length_match_values: "length (match_values r) = numVotingMembers r"
  by (simp add: match_values_def numVotingMembers_def length_sorted_bindings)

definition quorum_index :: "raft \<Rightarrow> nat" where
  "quorum_index r = sort (match_values r) ! (numVotingMembers r - quorum r)"

lemma quorum_index_largest:
  assumes "0 < numVotingMembers r" shows "quorum r \<le> replicated r i \<longleftrightarrow> i \<le> quorum_index r"
proof -
  have "quorum r \<le> length (filter (\<lambda>v. i \<le> v) (sort (match_values r))) \<longleftrightarrow> i \<le> quorum_index r"
    using sorted_count [of "sort (match_values r)" "quorum r" i] assms
    by (simp add: quorum_index_def quorum_def length_match_values)
  moreover have "length (filter (\<lambda>v. i \<le> v) (sort (match_values r))) = replicated r i"
    by (simp add: replicated_def filter_sort)
  ultimately show ?thesis by simp
qed

lemma tryCommit_eq:
  assumes "isLeader r" and "0 < numVotingMembers r"
  shows "tryCommit r = map_option (\<lambda>(l, ok). (r\<lparr>rf_matched := sort (match_values r), rf_log := l\<rparr>, ok))
    (log_tryCommit (rf_log r) (quorum_index r) (rf_term r))"
proof -
  have q: "quorum r \<le> numVotingMembers r" using assms(2) by (simp add: quorum_def)
  have eq: "Option.bind x (\<lambda>(l, ok). Some (f l ok)) = map_option (\<lambda>(l, ok). f l ok) x" for x and f :: "entry_log \<Rightarrow> bool \<Rightarrow> raft \<times> bool"
    by (cases x) (auto split: prod.splits)
  show ?thesis using assms(1) q
    by (simp add: tryCommit_def mustBeLeader_def guard_def quorum_index_def sortMatchValues_sort quorum_def
        numVotingMembers_def Let_def eq)
qed

text \<open>C. A leader commits by counting replicas as Raft demands. The index \<open>q\<close> it tests is the largest that a quorum of the
  voting members has matched; the commit index becomes \<open>q\<close> exactly when \<open>q\<close> is beyond it and the entry at \<open>q\<close> is of the
  leader's current term, and stays as it is otherwise.\<close>

theorem leader_commit_rule:
  assumes "isLeader r" and "0 < numVotingMembers r" and "rf_term r \<noteq> 0" and "tryCommit r = Some (r', ok)"
  shows "\<exists>q. (\<forall>i. quorum r \<le> replicated r i \<longleftrightarrow> i \<le> q) \<and>
    (ok \<longleftrightarrow> committed r < q \<and> log_term (rf_log r) q = Some (Inr (rf_term r))) \<and>
    committed r' = (if ok then q else committed r)"
proof (intro exI [of _ "quorum_index r"] conjI allI)
  let ?q = "quorum_index r"
  obtain l where l: "log_tryCommit (rf_log r) ?q (rf_term r) = Some (l, ok)" and r': "rf_log r' = l"
    using assms(4) unfolding tryCommit_eq [OF assms(1,2)] by auto
  show "ok \<longleftrightarrow> committed r < ?q \<and> log_term (rf_log r) ?q = Some (Inr (rf_term r))"
    using l assms(3) unfolding log_tryCommit_def by (auto elim!: bind_SomeE split: if_splits sum.splits)
  show "committed r' = (if ok then ?q else committed r)"
    using l unfolding log_tryCommit_def r' by (auto simp: commitTo_def elim!: bind_SomeE split: if_splits sum.splits)
qed (rule quorum_index_largest [OF assms(2)])

text \<open>The leader elected above, once one of its two followers has its first entry.\<close>

definition demo_majority :: raft where
  "demo_majority = (p_raft demo_leader)
     \<lparr>rf_remotes := fmap_of_list [(1, new_remote 1 2), (2, new_remote 1 2), (3, new_remote 0 1)]\<rparr>"

lemma demo_majority_commits:
  "\<not> Option.is_none (tryCommit demo_majority)" "snd (the (tryCommit demo_majority))"
  "isLeader demo_majority" "0 < numVotingMembers demo_majority" "rf_term demo_majority \<noteq> 0"
  by code_simp+

theorem leader_commit_rule_witness:
  "\<exists>q. committed (fst (the (tryCommit demo_majority))) = q \<and> quorum demo_majority \<le> replicated demo_majority q \<and>
     committed demo_majority < q \<and> log_term (rf_log demo_majority) q = Some (Inr (rf_term demo_majority))"
proof -
  obtain r' where r': "tryCommit demo_majority = Some (r', True)"
    using not_none [OF demo_majority_commits(1)] demo_majority_commits(2) by (metis prod.collapse)
  from leader_commit_rule [OF demo_majority_commits(3-5) r'] show ?thesis unfolding r' by auto
qed

end
