(* ===== verification/Raft_Reports.thy ===== *)
theory Raft_Reports
  imports Raft_Election
begin

text \<open>
  Two reports of a Raft node that are not what their readers expect: the in-memory log size a follower sends to
  its leader, and the read requests a candidate gives back as dropped.
\<close>

lemma slice_sizes: "GetEntrySliceSize es = GetEntrySliceInMemSize es + 48 * length es"
  by (induction es) (simp_all add: GetEntrySliceSize_def GetEntrySliceInMemSize_def SizeUpperLimit_def
      EntryNonCmdFieldsSize_def entry_struct_size_def)

lemma unat_minus_of_nat: "0 < n \<Longrightarrow> n < 2 ^ 64 \<Longrightarrow> unat (- (of_nat n :: u64)) = 2 ^ 64 - n"
proof -
  assume n: "0 < n" "n < 2 ^ 64"
  have "of_nat (2 ^ 64 - n) + (of_nat n :: u64) = of_nat (2 ^ 64)" using n by (simp flip: of_nat_add)
  also have "\<dots> = 0" by simp
  finally have "- (of_nat n :: u64) = of_nat (2 ^ 64 - n)" by (simp add: eq_neg_iff_add_eq_0 [symmetric])
  then have "unat (- (of_nat n :: u64)) = unat (of_nat (2 ^ 64 - n) :: u64)" by (rule arg_cong)
  also have "\<dots> = (2 ^ 64 - n) mod 2 ^ LENGTH(64)" by (rule unat_of_nat)
  also have "\<dots> = 2 ^ 64 - n" using n by simp
  finally show ?thesis .
qed

text \<open>C. A rate limited follower none of whose in-memory entries is committed reports a size close to \<open>2 ^ 64\<close> to its leader:
  the in-memory size counts 80 bytes for each entry beside its payload, the size subtracted from it 128, and the difference
  of the two unsigned numbers wraps.\<close>

theorem rate_limit_report_wraps:
  assumes "il_Get rl = of_nat (GetEntrySliceInMemSize es)" and "es \<noteq> []" and "48 * length es < 2 ^ 64"
  shows "rate_limit_hint rl es = 2 ^ 64 - 48 * length es"
proof -
  have "il_Get rl - of_nat (GetEntrySliceSize es) = - (of_nat (48 * length es) :: u64)"
    unfolding assms(1) slice_sizes by simp
  then show ?thesis using unat_minus_of_nat [of "48 * length es"] assms(2,3) by (simp add: rate_limit_hint_def)
qed

definition demo_full :: inmem_limiter where
  "demo_full = il_Set (NewInMemRateLimiter 1000) 2080"

theorem rate_limit_report_wraps_witness:
  "rate_limit_hint demo_full [empty_entry\<lparr>e_Cmd := replicate 2000 0\<rparr>] = 2 ^ 64 - 48"
proof -
  have "il_Get demo_full = of_nat (GetEntrySliceInMemSize [empty_entry\<lparr>e_Cmd := replicate 2000 0\<rparr>])"
    by (simp add: demo_full_def GetEntrySliceInMemSize_def entry_struct_size_def)
  from rate_limit_report_wraps [OF this] show ?thesis by simp
qed

text \<open>C. A candidate gives back a read request twice in the list of dropped read requests; a follower without a leader gives
  it back once.\<close>

theorem candidate_drops_read_twice:
  "map_option rf_droppedReadIndexes (handleCandidateReadIndex r m) = Some (rf_droppedReadIndexes r @ [msg_ctx m, msg_ctx m]) \<and>
   map_option rf_droppedReadIndexes (handleFollowerReadIndex (r\<lparr>rf_leaderID := NoLeader\<rparr>) m) =
     Some (rf_droppedReadIndexes r @ [msg_ctx m])"
  by (simp add: handleCandidateReadIndex_def handleFollowerReadIndex_def reportDroppedReadIndex_def notify_def Let_def)

end
