(* ===== verification/Spec2Isabelle.thy ===== *)
theory Spec2Isabelle
  imports Fsm_Snapshot Meta_Store Authz Raft_Remote Raft_ReadIndex Rate_Limiter Log_Db_Correct Entry_Codec Raft_Commit Raft_Reports
begin

text \<open>
  Zuul: a distributed lock and leader-election service. (Header under construction below.)
\<close>

end
